theory Spec2Isabelle
  imports Complex_Main "HOL-Library.Product_Lexorder" "HOL-Library.AList" "HOL-Library.Multiset"
begin

section \<open>Conventions of the embedding\<close>

text \<open>
  The race engine is Python. Its \<open>float\<close> values are modelled by \<^typ>\<open>real\<close>: every
  comparison and threshold of the source is kept, rounding is not modelled. The one
  non-finite float the engine uses, \<open>np.inf\<close>, is a constructor of its own. Python's
  unbounded \<open>int\<close> is \<^typ>\<open>int\<close>. A \<open>dict\<close> is an association list in insertion
  order; objects stored in a dict are mutated by rewriting the entry of their key.
  An exception is a value \<open>Inl e\<close> of the result.
\<close>

datatype error = ZeroDivisionError | KeyError

datatype ext_real = Fin real | PInf

text \<open>\<open>x < b\<close> for a finite float \<open>x\<close> and a bound that may be \<open>np.inf\<close>.\<close>

fun lt_ext :: "real \<Rightarrow> ext_real \<Rightarrow> bool" where
  "lt_ext x (Fin b) = (x < b)"
| "lt_ext x PInf = True"

text \<open>Python's \<open>min(a, b)\<close> returns \<open>b\<close> only when \<open>b < a\<close>.\<close>

fun py_min_ext :: "real \<Rightarrow> ext_real \<Rightarrow> real" where
  "py_min_ext a (Fin b) = (if b < a then b else a)"
| "py_min_ext a PInf = a"

text \<open>Float division and float modulo raise on a zero divisor; the remainder has the
  sign of the divisor.\<close>

definition py_div :: "real \<Rightarrow> real \<Rightarrow> error + real" where
  "py_div a b = (if b = 0 then Inl ZeroDivisionError else Inr (a / b))"

definition py_fmod :: "real \<Rightarrow> real \<Rightarrow> error + real" where
  "py_fmod a b = (if b = 0 then Inl ZeroDivisionError
                  else Inr (a - b * of_int \<lfloor>a / b\<rfloor>))"

text \<open>\<open>int(x)\<close> truncates toward zero.\<close>

definition py_int :: "real \<Rightarrow> int" where
  "py_int x = (if 0 \<le> x then \<lfloor>x\<rfloor> else \<lceil>x\<rceil>)"

subsection \<open>The numpy generator\<close>

text \<open>
  Every component draws from numpy's process-global generator. It is modelled by the
  sequence of unit-interval samples it will produce; a draw takes the head and leaves
  the tail. \<open>uniform(lo, hi)\<close> is \<open>lo + (hi - lo) * sample\<close> as in numpy;
  \<open>randint(lo, hi)\<close> is an integer of the half-open range \<open>[lo, hi)\<close> determined by
  the next sample.
\<close>

type_synonym rng = "nat \<Rightarrow> real"

definition rng_ok :: "rng \<Rightarrow> bool" where
  "rng_ok g = (\<forall>n. 0 \<le> g n \<and> g n < 1)"

definition rng_tail :: "rng \<Rightarrow> rng" where
  "rng_tail g = (\<lambda>n. g (Suc n))"

definition np_random :: "rng \<Rightarrow> real \<times> rng" where
  "np_random g = (g 0, rng_tail g)"

definition np_uniform :: "real \<Rightarrow> real \<Rightarrow> rng \<Rightarrow> real \<times> rng" where
  "np_uniform lo hi g = (lo + (hi - lo) * g 0, rng_tail g)"

definition np_randint :: "int \<Rightarrow> int \<Rightarrow> rng \<Rightarrow> int \<times> rng" where
  "np_randint lo hi g = (lo + \<lfloor>of_int (hi - lo) * g 0\<rfloor>, rng_tail g)"

definition np_clip :: "real \<Rightarrow> real \<Rightarrow> real \<Rightarrow> real" where
  "np_clip x lo hi = min (max x lo) hi"

section \<open>overtaking.py\<close>

record OvertakingAttempt =
  attacker_id :: int
  defender_id :: int
  success :: bool
  speed_differential :: real
  time_gain :: real
  timestamp :: real

text \<open>The dictionary \<open>attempt_overtake\<close> returns.\<close>

record OvertakeResult =
  res_success :: bool
  res_speed_differential_kmh :: real
  res_time_gain :: real
  res_slipstream_active :: bool

text \<open>The parameters \<open>__init__\<close> sets and nothing reassigns.\<close>

definition min_speed_diff :: real where
  "min_speed_diff = 5"

definition slipstream_distance :: real where
  "slipstream_distance = 1"

definition slipstream_drag_reduction :: real where
  "slipstream_drag_reduction = 5 / 100"

definition success_probabilities :: "(real \<times> ext_real \<times> real) list" where
  "success_probabilities = [(5, Fin 10, 20 / 100), (10, Fin 15, 50 / 100), (15, PInf, 80 / 100)]"

definition attack_mode_speed_advantage :: real where
  "attack_mode_speed_advantage = 8"

record OvertakingModel =
  om_track_length :: real
  overtaking_history :: "OvertakingAttempt list"

definition OvertakingModel_init :: "real \<Rightarrow> OvertakingModel" where
  "OvertakingModel_init len = \<lparr>om_track_length = len, overtaking_history = []\<rparr>"

definition calculate_slipstream_effect :: "real \<Rightarrow> real \<Rightarrow> real" where
  "calculate_slipstream_effect gap_seconds base_drag =
     (if gap_seconds \<le> slipstream_distance
      then base_drag * (1 - slipstream_drag_reduction * (1 - gap_seconds / slipstream_distance))
      else base_drag)"

text \<open>The \<open>for\<close> loop over the table: the first row whose half-open interval holds the
  differential decides; with no such row the result is 0.95.\<close>

fun find_probability :: "(real \<times> ext_real \<times> real) list \<Rightarrow> real \<Rightarrow> real" where
  "find_probability [] d = 95 / 100"
| "find_probability ((min_diff, max_diff, prob) # rows) d =
     (if min_diff \<le> d \<and> lt_ext d max_diff then prob else find_probability rows d)"

definition adjusted_speed_diff :: "real \<Rightarrow> bool \<Rightarrow> bool \<Rightarrow> real" where
  "adjusted_speed_diff speed_diff_kmh attacker_has_attack_mode defender_has_attack_mode =
     (let d1 = (if attacker_has_attack_mode then speed_diff_kmh + attack_mode_speed_advantage
                else speed_diff_kmh)
      in if defender_has_attack_mode then d1 - attack_mode_speed_advantage else d1)"

definition get_overtaking_success_probability :: "real \<Rightarrow> bool \<Rightarrow> bool \<Rightarrow> real" where
  "get_overtaking_success_probability speed_diff_kmh attacker_has_attack_mode
       defender_has_attack_mode =
     (let d = adjusted_speed_diff speed_diff_kmh attacker_has_attack_mode
                defender_has_attack_mode
      in if d < min_speed_diff then 0 else find_probability success_probabilities d)"

text \<open>The time gain of a successful attempt; either quotient raises on a zero divisor.\<close>

definition success_time_gain :: "real \<Rightarrow> real \<Rightarrow> real \<Rightarrow> error + real" where
  "success_time_gain attacker_speed defender_speed speed_diff_kmh =
     (let speed_diff_ms = speed_diff_kmh / (36 / 10);
          overtaking_distance = 250
      in case py_div overtaking_distance (attacker_speed + speed_diff_ms / 2) of
           Inl e \<Rightarrow> Inl e
         | Inr t1 \<Rightarrow>
             (case py_div overtaking_distance defender_speed of
                Inl e \<Rightarrow> Inl e
              | Inr t2 \<Rightarrow> Inr (max 0 (t1 - t2))))"

definition attempt_overtake ::
  "OvertakingModel \<Rightarrow> int \<Rightarrow> int \<Rightarrow> real \<Rightarrow> real \<Rightarrow> real \<Rightarrow> real \<Rightarrow> bool \<Rightarrow> bool \<Rightarrow> real \<Rightarrow> rng
     \<Rightarrow> error + (OvertakeResult \<times> OvertakingModel \<times> rng)" where
  "attempt_overtake om a_id d_id attacker_speed defender_speed gap_seconds track_position
       attacker_has_attack_mode defender_has_attack_mode ts g =
     (let attacker_speed_kmh = attacker_speed * (36 / 10);
          defender_speed_kmh = defender_speed * (36 / 10);
          speed_diff_kmh = attacker_speed_kmh - defender_speed_kmh
      in if speed_diff_kmh < min_speed_diff
         then Inr (\<lparr>res_success = False, res_speed_differential_kmh = speed_diff_kmh,
                    res_time_gain = 0,
                    res_slipstream_active = (gap_seconds \<le> slipstream_distance)\<rparr>, om, g)
         else
           (let slipstream_active = (gap_seconds \<le> slipstream_distance);
                success_prob = get_overtaking_success_probability speed_diff_kmh
                                 attacker_has_attack_mode defender_has_attack_mode;
                (u, g') = np_random g;
                succ = (u < success_prob)
            in case (if succ then success_time_gain attacker_speed defender_speed speed_diff_kmh
                     else Inr 0) of
                 Inl e \<Rightarrow> Inl e
               | Inr tg \<Rightarrow>
                   (let attempt = \<lparr>attacker_id = a_id, defender_id = d_id, success = succ,
                                    speed_differential = speed_diff_kmh, time_gain = tg,
                                    timestamp = ts\<rparr>
                    in Inr (\<lparr>res_success = succ, res_speed_differential_kmh = speed_diff_kmh,
                              res_time_gain = tg, res_slipstream_active = slipstream_active\<rparr>,
                            om\<lparr>overtaking_history := overtaking_history om @ [attempt]\<rparr>,
                            g'))))"

definition can_overtake :: "real \<Rightarrow> real \<Rightarrow> real \<Rightarrow> bool" where
  "can_overtake attacker_speed defender_speed gap_seconds =
     ((attacker_speed - defender_speed) * (36 / 10) \<ge> min_speed_diff \<and> gap_seconds \<le> 2)"

record OvertakingStatistics =
  total_attempts :: nat
  successful_overtakes :: nat
  success_rate :: real
  avg_speed_differential :: real

definition get_overtaking_statistics :: "OvertakingModel \<Rightarrow> OvertakingStatistics" where
  "get_overtaking_statistics om =
     (let h = overtaking_history om
      in if h = []
         then \<lparr>total_attempts = 0, successful_overtakes = 0, success_rate = 0,
               avg_speed_differential = 0\<rparr>
         else
           (let successful = length (filter success h);
                avg_speed_diff = sum_list (map speed_differential h) / real (length h)
            in \<lparr>total_attempts = length h, successful_overtakes = successful,
                 success_rate = real successful / real (length h),
                 avg_speed_differential = avg_speed_diff\<rparr>))"

section \<open>attack_mode.py\<close>

datatype AttackModeState = AVAILABLE | ACTIVATING | ACTIVE | USED

record AttackModeActivation =
  act_car_id :: int
  activation_lap :: int
  activation_time :: real
  duration :: real
  time_loss :: real
  power_boost :: real

record AttackMode =
  am_car_id :: int
  activation_zone_start :: real
  activation_zone_end :: real
  base_power_kw :: real
  attack_mode_power_kw :: real
  max_activations :: int
  activation_duration :: real
  activation_time_loss :: real
  state :: AttackModeState
  activations_remaining :: int
  current_activation_start_time :: "real option"
  current_activation_lap :: "int option"
  activation_history :: "AttackModeActivation list"

text \<open>
  \<open>AttackMode.__init__\<close>. With a seed the constructor reseeds the global generator with
  \<open>random_seed + car_id\<close> before it draws the time loss; \<open>seeded\<close> is numpy's map from a
  seed to the generator it starts.
\<close>

definition AttackMode_init ::
  "int \<Rightarrow> real \<Rightarrow> real \<Rightarrow> real \<Rightarrow> int option \<Rightarrow> (int \<Rightarrow> rng) \<Rightarrow> rng \<Rightarrow> AttackMode \<times> rng" where
  "AttackMode_init cid zone_start zone_end base_power random_seed seeded g =
     (let g1 = (case random_seed of None \<Rightarrow> g | Some sd \<Rightarrow> seeded (sd + cid));
          (loss, g2) = np_uniform (5 / 10) 1 g1
      in (\<lparr>am_car_id = cid, activation_zone_start = zone_start,
            activation_zone_end = zone_end, base_power_kw = base_power,
            attack_mode_power_kw = 250, max_activations = 2, activation_duration = 240,
            activation_time_loss = loss, state = AVAILABLE, activations_remaining = 2,
            current_activation_start_time = None, current_activation_lap = None,
            activation_history = []\<rparr>, g2))"

definition can_activate :: "AttackMode \<Rightarrow> int \<Rightarrow> real \<Rightarrow> real \<Rightarrow> error + (bool \<times> string)" where
  "can_activate am current_lap race_time track_position =
     (if state am = USED then Inr (False, ''All activations used'')
      else if state am = ACTIVE then Inr (False, ''Already active'')
      else if state am = ACTIVATING then Inr (False, ''Currently activating'')
      else
        (let zone_length = activation_zone_end am - activation_zone_start am
         in case py_fmod track_position (zone_length + 1000) of
              Inl e \<Rightarrow> Inl e
            | Inr position_in_zone \<Rightarrow>
                if \<not> (activation_zone_start am \<le> position_in_zone
                       \<and> position_in_zone \<le> activation_zone_end am)
                then Inr (False, ''Not in activation zone'')
                else Inr (True, ''Can activate'')))"

definition activate :: "AttackMode \<Rightarrow> int \<Rightarrow> real \<Rightarrow> real \<Rightarrow> error + (bool \<times> AttackMode)" where
  "activate am current_lap race_time track_position =
     (case can_activate am current_lap race_time track_position of
        Inl e \<Rightarrow> Inl e
      | Inr (ok, reason) \<Rightarrow>
          if \<not> ok then Inr (False, am)
          else
            (let activation = \<lparr>act_car_id = am_car_id am, activation_lap = current_lap,
                               activation_time = race_time, duration = activation_duration am,
                               time_loss = activation_time_loss am,
                               power_boost = attack_mode_power_kw am - base_power_kw am\<rparr>
             in Inr (True,
                     am\<lparr>state := ACTIVE,
                        current_activation_start_time := Some race_time,
                        current_activation_lap := Some current_lap,
                        activations_remaining := activations_remaining am - 1,
                        activation_history := activation_history am @ [activation]\<rparr>)))"

definition update :: "AttackMode \<Rightarrow> real \<Rightarrow> bool \<times> AttackMode" where
  "update am race_time =
     (if state am = ACTIVE
      then (case current_activation_start_time am of
              None \<Rightarrow> (False, am)
            | Some start \<Rightarrow>
                (let elapsed = race_time - start
                 in if elapsed \<ge> activation_duration am
                    then (True,
                          am\<lparr>state := (if activations_remaining am > 0 then AVAILABLE else USED),
                             current_activation_start_time := None\<rparr>)
                    else (False, am)))
      else (False, am))"

definition am_is_active :: "AttackMode \<Rightarrow> bool" where
  "am_is_active am = (state am = ACTIVE)"

definition is_activating :: "AttackMode \<Rightarrow> bool" where
  "is_activating am = (state am = ACTIVATING)"

definition get_power_kw :: "AttackMode \<Rightarrow> real" where
  "get_power_kw am = (if am_is_active am then attack_mode_power_kw am else base_power_kw am)"

definition get_power_boost :: "AttackMode \<Rightarrow> real" where
  "get_power_boost am =
     (if am_is_active am then attack_mode_power_kw am - base_power_kw am else 0)"

definition get_activations_remaining :: "AttackMode \<Rightarrow> int" where
  "get_activations_remaining am = activations_remaining am"

definition get_time_loss :: "AttackMode \<Rightarrow> real" where
  "get_time_loss am = (if state am = ACTIVATING then activation_time_loss am else 0)"

subsection \<open>AttackModeManager\<close>

record AttackModeManager =
  mgr_num_cars :: int
  mgr_track_length :: real
  mgr_activation_zone_start :: real
  mgr_activation_zone_end :: real
  attack_modes :: "(int \<times> AttackMode) list"

text \<open>The constructor's loop over \<open>range(num_cars)\<close>; every \<open>AttackMode\<close> gets the
  default base power of 200 kW.\<close>

fun create_attack_modes ::
  "int list \<Rightarrow> real \<Rightarrow> real \<Rightarrow> int option \<Rightarrow> (int \<Rightarrow> rng) \<Rightarrow> rng
     \<Rightarrow> (int \<times> AttackMode) list \<Rightarrow> (int \<times> AttackMode) list \<times> rng" where
  "create_attack_modes [] zone_start zone_end random_seed seeded g acc = (acc, g)"
| "create_attack_modes (cid # cids) zone_start zone_end random_seed seeded g acc =
     (let (am, g') = AttackMode_init cid zone_start zone_end 200 random_seed seeded g
      in create_attack_modes cids zone_start zone_end random_seed seeded g'
           (AList.update cid am acc))"

definition AttackModeManager_init ::
  "int \<Rightarrow> real \<Rightarrow> real option \<Rightarrow> real option \<Rightarrow> int option \<Rightarrow> (int \<Rightarrow> rng) \<Rightarrow> rng
     \<Rightarrow> AttackModeManager \<times> rng" where
  "AttackModeManager_init n len zone_start zone_end random_seed seeded g =
     (let zs = (case zone_start of None \<Rightarrow> len * (20 / 100) | Some z \<Rightarrow> z);
          ze = (case zone_end of None \<Rightarrow> len * (25 / 100) | Some z \<Rightarrow> z);
          (ams, g') = create_attack_modes [0..n - 1] zs ze random_seed seeded g []
      in (\<lparr>mgr_num_cars = n, mgr_track_length = len, mgr_activation_zone_start = zs,
            mgr_activation_zone_end = ze, attack_modes = ams\<rparr>, g'))"

definition mgr_can_activate ::
  "AttackModeManager \<Rightarrow> int \<Rightarrow> int \<Rightarrow> real \<Rightarrow> real \<Rightarrow> error + (bool \<times> string)" where
  "mgr_can_activate mgr cid current_lap race_time track_position =
     (case map_of (attack_modes mgr) cid of
        None \<Rightarrow> Inr (False, ''Invalid car ID'')
      | Some am \<Rightarrow> can_activate am current_lap race_time track_position)"

definition mgr_activate ::
  "AttackModeManager \<Rightarrow> int \<Rightarrow> int \<Rightarrow> real \<Rightarrow> real \<Rightarrow> error + (bool \<times> AttackModeManager)" where
  "mgr_activate mgr cid current_lap race_time track_position =
     (case map_of (attack_modes mgr) cid of
        None \<Rightarrow> Inr (False, mgr)
      | Some am \<Rightarrow>
          (case activate am current_lap race_time track_position of
             Inl e \<Rightarrow> Inl e
           | Inr (ok, am') \<Rightarrow>
               Inr (ok, mgr\<lparr>attack_modes := AList.update cid am' (attack_modes mgr)\<rparr>)))"

definition update_all :: "AttackModeManager \<Rightarrow> real \<Rightarrow> AttackModeManager" where
  "update_all mgr race_time =
     mgr\<lparr>attack_modes := map (\<lambda>(cid, am). (cid, snd (update am race_time))) (attack_modes mgr)\<rparr>"

definition mgr_is_active :: "AttackModeManager \<Rightarrow> int \<Rightarrow> bool" where
  "mgr_is_active mgr cid =
     (case map_of (attack_modes mgr) cid of None \<Rightarrow> False | Some am \<Rightarrow> am_is_active am)"

definition mgr_get_power_kw :: "AttackModeManager \<Rightarrow> int \<Rightarrow> real" where
  "mgr_get_power_kw mgr cid =
     (case map_of (attack_modes mgr) cid of None \<Rightarrow> 200 | Some am \<Rightarrow> get_power_kw am)"

definition mgr_get_activations_remaining :: "AttackModeManager \<Rightarrow> int \<Rightarrow> int" where
  "mgr_get_activations_remaining mgr cid =
     (case map_of (attack_modes mgr) cid of
        None \<Rightarrow> 0
      | Some am \<Rightarrow> get_activations_remaining am)"

section \<open>race_events.py\<close>

datatype EventType = SAFETY_CAR | CRASH | WEATHER_CHANGE | VIRTUAL_SAFETY_CAR

datatype SafetyCarState = DEPLOYED | STANDING | RETURNING | CLEAR

text \<open>The two f-strings used as descriptions, by the values that fill their holes:
  the deployment lap and the number of laps, and the crashed car.\<close>

datatype description = SafetyCarDeployed int int | CarCrashed int

record RaceEvent =
  event_type :: EventType
  ev_timestamp :: real
  ev_car_id :: "int option"
  ev_description :: description

record RaceEvents =
  re_num_cars :: int
  re_track_length :: real
  safety_car_state :: SafetyCarState
  safety_car_active :: bool
  safety_car_laps_remaining :: int
  safety_car_deployment_lap :: "int option"
  weather_dry :: bool
  mu_weather :: real
  track_temperature :: real
  event_log :: "RaceEvent list"
  crashed_cars :: "int set"
  total_safety_cars :: int
  total_crashes :: int

definition safety_car_speed :: real where
  "safety_car_speed = 80 / (36 / 10)"

definition safety_car_probability :: real where
  "safety_car_probability = 3 / 100"

definition crash_probability_per_car :: real where
  "crash_probability_per_car = 15 / 1000"

definition weather_change_probability :: real where
  "weather_change_probability = 2 / 100"

definition RaceEvents_init :: "int \<Rightarrow> real \<Rightarrow> RaceEvents" where
  "RaceEvents_init n len =
     \<lparr>re_num_cars = n, re_track_length = len, safety_car_state = CLEAR,
      safety_car_active = False, safety_car_laps_remaining = 0,
      safety_car_deployment_lap = None, weather_dry = True, mu_weather = 1,
      track_temperature = 25, event_log = [], crashed_cars = {},
      total_safety_cars = 0, total_crashes = 0\<rparr>"

text \<open>The dictionary \<open>check_lap_events\<close> returns.\<close>

record LapEvents =
  safety_car_deployed :: bool
  crashes :: "int list"
  weather_changed :: bool
  new_mu_weather :: real

definition deploy_safety_car :: "RaceEvents \<Rightarrow> int \<Rightarrow> real \<Rightarrow> rng \<Rightarrow> RaceEvents \<times> rng" where
  "deploy_safety_car ev lp race_time g =
     (let (n, g') = np_randint 3 9 g
      in (ev\<lparr>safety_car_active := True, safety_car_state := DEPLOYED,
             safety_car_deployment_lap := Some lp, safety_car_laps_remaining := n,
             total_safety_cars := total_safety_cars ev + 1,
             event_log := event_log ev @
               [\<lparr>event_type = SAFETY_CAR, ev_timestamp = race_time, ev_car_id = None,
                 ev_description = SafetyCarDeployed lp n\<rparr>]\<rparr>, g'))"

definition register_crash :: "RaceEvents \<Rightarrow> int \<Rightarrow> real \<Rightarrow> RaceEvents" where
  "register_crash ev cid race_time =
     ev\<lparr>crashed_cars := insert cid (crashed_cars ev),
        total_crashes := total_crashes ev + 1,
        event_log := event_log ev @
          [\<lparr>event_type = CRASH, ev_timestamp = race_time, ev_car_id = Some cid,
            ev_description = CarCrashed cid\<rparr>]\<rparr>"

definition change_weather :: "RaceEvents \<Rightarrow> rng \<Rightarrow> RaceEvents \<times> rng" where
  "change_weather ev g =
     (let (ev1, g1) =
            (if weather_dry ev
             then (let (grip_reduction, ga) = np_uniform (15 / 100) (30 / 100) g;
                       (dt, gb) = np_uniform 5 15 ga
                   in (ev\<lparr>weather_dry := False, mu_weather := 1 - grip_reduction,
                          track_temperature := track_temperature ev - dt\<rparr>, gb))
             else (let (u, ga) = np_random g
                   in if u < 3 / 10
                      then (let (mu, gb) = np_uniform (85 / 100) 1 ga;
                                (dt, gc) = np_uniform 2 8 gb
                            in (ev\<lparr>weather_dry := True, mu_weather := mu,
                                   track_temperature := track_temperature ev + dt\<rparr>, gc))
                      else (ev, ga)))
      in (ev1\<lparr>mu_weather := np_clip (mu_weather ev1) (5 / 10) 1,
              track_temperature := np_clip (track_temperature ev1) 10 50\<rparr>, g1))"

text \<open>The loop of \<open>check_lap_events\<close> over the active cars. The accumulator is the list
  of crashes so far, the deployed flag, the event engine and the generator.\<close>

fun crash_loop ::
  "int list \<Rightarrow> int \<Rightarrow> real \<Rightarrow> int list \<times> bool \<times> RaceEvents \<times> rng
     \<Rightarrow> int list \<times> bool \<times> RaceEvents \<times> rng" where
  "crash_loop [] lp race_time acc = acc"
| "crash_loop (cid # cids) lp race_time (crs, deployed, ev, g) =
     (if cid \<notin> crashed_cars ev
      then (let (u, g1) = np_random g
            in if u < crash_probability_per_car
               then (let ev1 = register_crash ev cid race_time;
                         crs1 = crs @ [cid]
                     in if \<not> safety_car_active ev1
                        then (let (u2, g2) = np_random g1
                              in if u2 < 5 / 10
                                 then (let (ev2, g3) = deploy_safety_car ev1 lp race_time g2
                                       in crash_loop cids lp race_time (crs1, True, ev2, g3))
                                 else crash_loop cids lp race_time (crs1, deployed, ev1, g2))
                        else crash_loop cids lp race_time (crs1, deployed, ev1, g1))
               else crash_loop cids lp race_time (crs, deployed, ev, g1))
      else crash_loop cids lp race_time (crs, deployed, ev, g))"

definition check_lap_events ::
  "RaceEvents \<Rightarrow> int \<Rightarrow> real \<Rightarrow> int list \<Rightarrow> rng \<Rightarrow> LapEvents \<times> RaceEvents \<times> rng" where
  "check_lap_events ev current_lap race_time active_cars g =
     (let mu0 = mu_weather ev;
          (deployed1, ev1, g1) =
            (if \<not> safety_car_active ev
             then (let (u, ga) = np_random g
                   in if u < safety_car_probability
                      then (let (evb, gb) = deploy_safety_car ev current_lap race_time ga
                            in (True, evb, gb))
                      else (False, ev, ga))
             else (False, ev, g));
          (crs, deployed2, ev2, g2) =
            crash_loop active_cars current_lap race_time ([], deployed1, ev1, g1);
          (u3, g3) = np_random g2
      in if u3 < weather_change_probability
         then (let (ev4, g4) = change_weather ev2 g3
               in (\<lparr>safety_car_deployed = deployed2, crashes = crs, weather_changed = True,
                     new_mu_weather = mu_weather ev4\<rparr>, ev4, g4))
         else (\<lparr>safety_car_deployed = deployed2, crashes = crs, weather_changed = False,
                new_mu_weather = mu0\<rparr>, ev2, g3))"

definition update_safety_car :: "RaceEvents \<Rightarrow> int \<Rightarrow> bool \<times> RaceEvents" where
  "update_safety_car ev current_lap =
     (if \<not> safety_car_active ev then (False, ev)
      else
        (let ev1 = ev\<lparr>safety_car_laps_remaining := safety_car_laps_remaining ev - 1\<rparr>
         in if safety_car_laps_remaining ev1 \<le> 0
            then (if safety_car_state ev1 = DEPLOYED
                  then (True, ev1\<lparr>safety_car_state := RETURNING,
                                  safety_car_laps_remaining := 1\<rparr>)
                  else if safety_car_state ev1 = RETURNING
                  then (True, ev1\<lparr>safety_car_active := False, safety_car_state := CLEAR,
                                  safety_car_laps_remaining := 0\<rparr>)
                  else (False, ev1))
            else (False, ev1)))"

definition get_safety_car_speed :: "RaceEvents \<Rightarrow> ext_real" where
  "get_safety_car_speed ev = (if safety_car_active ev then Fin safety_car_speed else PInf)"

definition is_car_crashed :: "RaceEvents \<Rightarrow> int \<Rightarrow> bool" where
  "is_car_crashed ev cid = (cid \<in> crashed_cars ev)"

definition get_events_log :: "RaceEvents \<Rightarrow> RaceEvent list" where
  "get_events_log ev = event_log ev"

record EventSummary =
  sum_total_safety_cars :: int
  sum_total_crashes :: int
  sum_crashed_cars :: "int set"
  sum_weather_dry :: bool
  sum_mu_weather :: real
  sum_track_temperature :: real
  sum_event_count :: nat

definition get_event_summary :: "RaceEvents \<Rightarrow> EventSummary" where
  "get_event_summary ev =
     \<lparr>sum_total_safety_cars = total_safety_cars ev, sum_total_crashes = total_crashes ev,
      sum_crashed_cars = crashed_cars ev, sum_weather_dry = weather_dry ev,
      sum_mu_weather = mu_weather ev, sum_track_temperature = track_temperature ev,
      sum_event_count = length (event_log ev)\<rparr>"

section \<open>race_simulator.py\<close>

record CarState =
  car_id :: int
  position :: int
  lap :: int
  track_distance :: real
  track_position_normalized :: real
  speed :: real
  energy_remaining :: real
  cs_race_time :: real
  gap_to_leader :: real
  gap_to_car_ahead :: real
  gap_to_car_behind :: real
  lap_times :: "real list"
  is_active :: bool

record RaceState =
  rs_race_time :: real
  current_lap :: int
  leader_id :: int
  positions :: "(int \<times> int) list"
  rs_safety_car_active :: bool
  rs_weather_dry :: bool
  rs_mu_weather :: real

text \<open>
  The track object and the car objects belong to the lap-time solver, which is outside
  the race engine. The engine reads the track's length, step size and number of points,
  rescales its friction array, and reads each car's mass; these are the fields kept.
\<close>

record Track =
  track_length :: real
  stepsize :: real
  no_points :: int
  mu :: "real list"
  pars_mu_weather :: real

record RaceSimulator =
  num_cars :: int
  time_step :: real
  race_duration_minutes :: real
  track :: Track
  cars :: "(int \<times> real) list"
  car_states :: "(int \<times> CarState) list"
  race_events :: RaceEvents
  overtaking :: OvertakingModel
  attack_mode_manager :: AttackModeManager
  race_state :: RaceState
  race_history :: "RaceState list"
  position_history :: "(int \<times> (real \<times> int) list) list"
  last_lap_checked :: "int option"
  generator :: rng

text \<open>The field \<open>generator\<close> is numpy's global generator as the engine sees it: the
  constructor leaves there the state it has seeded, and the loop draws from it.\<close>

definition bind_err :: "error + 'a \<Rightarrow> ('a \<Rightarrow> error + 'b) \<Rightarrow> error + 'b" where
  "bind_err r f = (case r of Inl e \<Rightarrow> Inl e | Inr x \<Rightarrow> f x)"

text \<open>\<open>d[k]\<close> raises \<open>KeyError\<close> on a missing key.\<close>

definition dict_get :: "('k \<times> 'v) list \<Rightarrow> 'k \<Rightarrow> error + 'v" where
  "dict_get d k = (case map_of d k of None \<Rightarrow> Inl KeyError | Some v \<Rightarrow> Inr v)"

text \<open>\<open>sorted(xs, key=f, reverse=True)\<close>: descending and stable, that is, elements with
  equal keys keep their order.\<close>

definition py_sorted_reverse :: "('a \<Rightarrow> 'k::linorder) \<Rightarrow> 'a list \<Rightarrow> 'a list" where
  "py_sorted_reverse f xs = rev (sort_key f (rev xs))"

definition RaceSimulator_init ::
  "int \<Rightarrow> Track \<Rightarrow> real \<Rightarrow> real \<Rightarrow> int option \<Rightarrow> (int \<Rightarrow> rng) \<Rightarrow> rng \<Rightarrow> RaceSimulator" where
  "RaceSimulator_init n trk duration_minutes dt random_seed seeded g =
     (let g0 = (case random_seed of None \<Rightarrow> g | Some sd \<Rightarrow> seeded sd);
          (mgr, g1) = AttackModeManager_init n (track_length trk) None None random_seed seeded g0
      in \<lparr>num_cars = n, time_step = dt, race_duration_minutes = duration_minutes,
          track = trk, cars = [], car_states = [],
          race_events = RaceEvents_init n (track_length trk),
          overtaking = OvertakingModel_init (track_length trk),
          attack_mode_manager = mgr,
          race_state = \<lparr>rs_race_time = 0, current_lap = 0, leader_id = 0, positions = [],
                          rs_safety_car_active = False, rs_weather_dry = True,
                          rs_mu_weather = 1\<rparr>,
          race_history = [], position_history = [], last_lap_checked = None,
          generator = g1\<rparr>)"

definition initial_car_state :: "int \<Rightarrow> CarState" where
  "initial_car_state cid =
     \<lparr>car_id = cid, position = cid + 1, lap = 0, track_distance = 0,
      track_position_normalized = 0, speed = 0, energy_remaining = 4580000,
      cs_race_time = 0, gap_to_leader = 0, gap_to_car_ahead = 0, gap_to_car_behind = 0,
      lap_times = [], is_active = True\<rparr>"

text \<open>\<open>_initialize_cars\<close>: the mass of the vehicle file, \<open>base_mass\<close>, is scaled by a skill
  factor drawn per car; the efficiency factor is drawn and goes to the solver's car.\<close>

fun initialize_cars_loop :: "int list \<Rightarrow> real \<Rightarrow> RaceSimulator \<Rightarrow> RaceSimulator" where
  "initialize_cars_loop [] base_mass sim = sim"
| "initialize_cars_loop (cid # cids) base_mass sim =
     (let (skill_factor, g1) = np_uniform (98 / 100) (102 / 100) (generator sim);
          (efficiency_factor, g2) = np_uniform (97 / 100) (103 / 100) g1
      in initialize_cars_loop cids base_mass
           (sim\<lparr>cars := AList.update cid (base_mass * skill_factor) (cars sim),
                car_states := AList.update cid (initial_car_state cid) (car_states sim),
                generator := g2\<rparr>))"

definition initialize_cars :: "real \<Rightarrow> RaceSimulator \<Rightarrow> RaceSimulator" where
  "initialize_cars base_mass sim = initialize_cars_loop [0..num_cars sim - 1] base_mass sim"

subsection \<open>Race events\<close>

text \<open>\<open>_update_race_events\<close>. The crashed ids come from the keys of \<open>car_states\<close>, so
  the lookups succeed. The friction array is rescaled by the ratio of the new multiplier
  to the one last set; the latter is 1.0 at construction and is clipped to [0.5, 1]
  afterwards, so the quotient is never taken at zero.\<close>

definition update_race_events :: "RaceSimulator \<Rightarrow> RaceSimulator" where
  "update_race_events sim =
     (let sim1 =
            (case last_lap_checked sim of
               None \<Rightarrow> sim\<lparr>last_lap_checked := Some 0\<rparr>
             | Some checked \<Rightarrow>
                 if current_lap (race_state sim) \<noteq> checked
                 then
                   (let active_cars = map fst (filter (\<lambda>(cid, s). is_active s) (car_states sim));
                        (events, ev, g) =
                          check_lap_events (race_events sim) (current_lap (race_state sim))
                            (rs_race_time (race_state sim)) active_cars (generator sim);
                        cs = fold (\<lambda>crashed_id. AList.map_entry crashed_id
                                                   (\<lambda>s. s\<lparr>is_active := False\<rparr>))
                               (crashes events) (car_states sim);
                        sim' = sim\<lparr>race_events := ev, generator := g, car_states := cs\<rparr>;
                        sim'' =
                          (if weather_changed events
                           then sim'\<lparr>race_state :=
                                       (race_state sim')\<lparr>rs_mu_weather := new_mu_weather events\<rparr>,
                                     track :=
                                       (track sim')\<lparr>mu := map (\<lambda>m. m * (new_mu_weather events
                                                               / pars_mu_weather (track sim')))
                                                            (mu (track sim')),
                                                    pars_mu_weather := new_mu_weather events\<rparr>\<rparr>
                           else sim')
                    in sim''\<lparr>last_lap_checked := Some (current_lap (race_state sim))\<rparr>)
                 else sim);
          (changed, ev') = update_safety_car (race_events sim1) (current_lap (race_state sim1))
      in sim1\<lparr>race_events := ev',
              race_state := (race_state sim1)\<lparr>rs_safety_car_active := safety_car_active ev'\<rparr>\<rparr>)"

subsection \<open>Car update\<close>

text \<open>The body of the loop of \<open>_update_cars\<close> for one entry of \<open>car_states\<close>, in its
  three parts: the speed, the position on the track, the energy.\<close>

definition car_speed :: "RaceSimulator \<Rightarrow> ext_real \<Rightarrow> int \<Rightarrow> CarState \<Rightarrow> error + real" where
  "car_speed sim sc_speed cid s =
     (if rs_safety_car_active (race_state sim)
      then Inr (py_min_ext (speed s) sc_speed)
      else
        bind_err (py_div (track_distance s) (stepsize (track sim))) (\<lambda>q.
        if no_points (track sim) = 0 then Inl ZeroDivisionError
        else
          (let track_idx = py_int q mod no_points (track sim);
               reference_speed = 50
           in bind_err (dict_get (cars sim) cid) (\<lambda>m.
              (let skill_factor = m / 880
               in Inr (reference_speed * (1 + (1 - skill_factor) * (1 / 10))))))))"

definition energy_consumed :: "RaceSimulator \<Rightarrow> int \<Rightarrow> real" where
  "energy_consumed sim cid =
     (let power_kw = mgr_get_power_kw (attack_mode_manager sim) cid
      in (power_kw * 1000 * time_step sim) / (9 / 10))"

definition update_energy :: "RaceSimulator \<Rightarrow> int \<Rightarrow> CarState \<Rightarrow> CarState" where
  "update_energy sim cid s =
     (let s1 = s\<lparr>energy_remaining := energy_remaining s - energy_consumed sim cid\<rparr>
      in if energy_remaining s1 \<le> 0
         then s1\<lparr>is_active := False, energy_remaining := 0\<rparr>
         else s1)"

definition update_car :: "RaceSimulator \<Rightarrow> ext_real \<Rightarrow> int \<Rightarrow> CarState \<Rightarrow> error + CarState" where
  "update_car sim sc_speed cid s =
     (if \<not> is_active s then Inr s
      else
        bind_err (car_speed sim sc_speed cid s) (\<lambda>v.
        bind_err (py_fmod (track_distance s + v * time_step sim) (track_length (track sim)))
          (\<lambda>td.
        bind_err (py_div td (track_length (track sim))) (\<lambda>tpn.
          Inr (update_energy sim cid
                 (s\<lparr>speed := v, track_distance := td,
                    track_position_normalized := tpn\<rparr>))))))"

fun update_cars_loop ::
  "RaceSimulator \<Rightarrow> ext_real \<Rightarrow> (int \<times> CarState) list \<Rightarrow> error + (int \<times> CarState) list" where
  "update_cars_loop sim sc_speed [] = Inr []"
| "update_cars_loop sim sc_speed ((cid, s) # rest) =
     bind_err (update_car sim sc_speed cid s) (\<lambda>s'.
     bind_err (update_cars_loop sim sc_speed rest) (\<lambda>rest'.
       Inr ((cid, s') # rest')))"

definition update_cars :: "RaceSimulator \<Rightarrow> error + RaceSimulator" where
  "update_cars sim =
     (let safety_car_speed = get_safety_car_speed (race_events sim)
      in bind_err (update_cars_loop sim safety_car_speed (car_states sim)) (\<lambda>cs.
           Inr (sim\<lparr>car_states := cs\<rparr>)))"

subsection \<open>Positions and gaps\<close>

definition sort_key_of :: "int \<times> CarState \<Rightarrow> int \<times> real" where
  "sort_key_of x = (lap (snd x), track_distance (snd x))"

text \<open>The loop over \<open>enumerate(sorted_cars, 1)\<close>: the state object of each car and the
  \<open>positions\<close> dictionary of the race state receive the rank.\<close>

fun assign_positions ::
  "int \<Rightarrow> (int \<times> CarState) list \<Rightarrow> (int \<times> CarState) list \<times> (int \<times> int) list
     \<Rightarrow> (int \<times> CarState) list \<times> (int \<times> int) list" where
  "assign_positions p [] acc = acc"
| "assign_positions p ((cid, s0) # rest) (cs, ps) =
     assign_positions (p + 1) rest
       (AList.map_entry cid (\<lambda>s. s\<lparr>position := p\<rparr>) cs, AList.update cid p ps)"

definition calculate_gap :: "RaceSimulator \<Rightarrow> CarState \<Rightarrow> int \<Rightarrow> CarState \<Rightarrow> CarState" where
  "calculate_gap sim leader_state cid s =
     (if \<not> is_active s then s
      else
        (let gl =
               (if cid = leader_id (race_state sim) then 0
                else
                  (let lap_diff = lap leader_state - lap s;
                       dist_diff0 = track_distance leader_state - track_distance s;
                       dist_diff = (if dist_diff0 < 0
                                    then dist_diff0 + track_length (track sim)
                                    else dist_diff0)
                   in if speed s > 0
                      then (of_int lap_diff * track_length (track sim) + dist_diff) / speed s
                      else 999))
         in s\<lparr>gap_to_leader := gl, gap_to_car_ahead := 5 / 10,
               gap_to_car_behind := 5 / 10\<rparr>))"

definition calculate_gaps :: "RaceSimulator \<Rightarrow> error + RaceSimulator" where
  "calculate_gaps sim =
     bind_err (dict_get (car_states sim) (leader_id (race_state sim))) (\<lambda>leader_state.
       Inr (sim\<lparr>car_states :=
                  map (\<lambda>(cid, s). (cid, calculate_gap sim leader_state cid s))
                    (car_states sim)\<rparr>))"

definition update_positions :: "RaceSimulator \<Rightarrow> error + RaceSimulator" where
  "update_positions sim =
     (let sorted_cars = py_sorted_reverse sort_key_of (car_states sim);
          (cs, ps) = assign_positions 1 sorted_cars
                       (car_states sim, positions (race_state sim));
          rs1 = (race_state sim)\<lparr>positions := ps\<rparr>;
          rs2 = (case sorted_cars of [] \<Rightarrow> rs1 | x # xs \<Rightarrow> rs1\<lparr>leader_id := fst x\<rparr>)
      in calculate_gaps (sim\<lparr>car_states := cs, race_state := rs2\<rparr>))"

subsection \<open>Overtaking\<close>

text \<open>\<open>a.position, b.position = b.position, a.position\<close> on the live state objects.
  Both cars are entries of \<open>car_states\<close>, so the lookups succeed.\<close>

definition swap_positions ::
  "int \<Rightarrow> int \<Rightarrow> (int \<times> CarState) list \<Rightarrow> error + (int \<times> CarState) list" where
  "swap_positions a d cs =
     bind_err (dict_get cs d) (\<lambda>sd.
     bind_err (dict_get cs a) (\<lambda>sa.
       (let pd = position sd; pa = position sa
        in Inr (AList.map_entry d (\<lambda>s. s\<lparr>position := pa\<rparr>)
                  (AList.map_entry a (\<lambda>s. s\<lparr>position := pd\<rparr>) cs)))))"

text \<open>The body of the loop of \<open>_check_overtaking\<close> for one pair of neighbours in the
  sorted list of active cars: the car behind attacks the car in front. Speed and
  distance do not change during the loop; positions are read from and written to the
  live states.\<close>

definition overtake_pair ::
  "AttackModeManager \<Rightarrow> real \<Rightarrow> int \<times> CarState \<Rightarrow> int \<times> CarState
     \<Rightarrow> (int \<times> CarState) list \<times> OvertakingModel \<times> rng
     \<Rightarrow> error + ((int \<times> CarState) list \<times> OvertakingModel \<times> rng)" where
  "overtake_pair mgr now defender attacker acc =
     (let (cs, om, g) = acc;
          attacker_id = fst attacker; attacker_state = snd attacker;
          defender_id = fst defender; defender_state = snd defender;
          gap_seconds =
            (if speed attacker_state > 0
             then (track_distance defender_state - track_distance attacker_state)
                    / speed attacker_state
             else 999)
      in if 0 < gap_seconds \<and> gap_seconds < 2
         then
           bind_err
             (attempt_overtake om attacker_id defender_id (speed attacker_state)
                (speed defender_state) gap_seconds
                (track_position_normalized attacker_state)
                (mgr_is_active mgr attacker_id) (mgr_is_active mgr defender_id) now g)
             (\<lambda>(result, om', g').
                if res_success result
                then bind_err (swap_positions attacker_id defender_id cs) (\<lambda>cs'.
                       Inr (cs', om', g'))
                else Inr (cs, om', g'))
         else Inr (cs, om, g))"

fun overtaking_loop ::
  "AttackModeManager \<Rightarrow> real \<Rightarrow> (int \<times> CarState) list
     \<Rightarrow> (int \<times> CarState) list \<times> OvertakingModel \<times> rng
     \<Rightarrow> error + ((int \<times> CarState) list \<times> OvertakingModel \<times> rng)" where
  "overtaking_loop mgr now (defender # attacker # rest) acc =
     bind_err (overtake_pair mgr now defender attacker acc)
       (\<lambda>acc'. overtaking_loop mgr now (attacker # rest) acc')"
| "overtaking_loop mgr now sorted_cars acc = Inr acc"

definition check_overtaking :: "RaceSimulator \<Rightarrow> error + RaceSimulator" where
  "check_overtaking sim =
     (let sorted_cars =
            py_sorted_reverse sort_key_of (filter (\<lambda>(cid, s). is_active s) (car_states sim))
      in bind_err
           (overtaking_loop (attack_mode_manager sim) (rs_race_time (race_state sim))
              sorted_cars (car_states sim, overtaking sim, generator sim))
           (\<lambda>(cs, om, g). Inr (sim\<lparr>car_states := cs, overtaking := om, generator := g\<rparr>)))"

subsection \<open>Attack mode, laps, history\<close>

definition update_attack_modes :: "RaceSimulator \<Rightarrow> RaceSimulator" where
  "update_attack_modes sim =
     sim\<lparr>attack_mode_manager :=
           update_all (attack_mode_manager sim) (rs_race_time (race_state sim))\<rparr>"

text \<open>The body of the loop of \<open>_check_lap_completion\<close> for one car, and the loop, with
  the race's current lap threaded through.\<close>

definition complete_lap :: "real \<Rightarrow> CarState \<Rightarrow> int \<Rightarrow> CarState \<times> int" where
  "complete_lap dt s cur =
     (if \<not> is_active s then (s, cur)
      else if track_distance s < dt * speed s
      then (let s' = s\<lparr>lap := lap s + 1\<rparr>
            in (s', if lap s' > cur then lap s' else cur))
      else (s, cur))"

fun lap_completion_loop ::
  "real \<Rightarrow> (int \<times> CarState) list \<Rightarrow> int \<Rightarrow> (int \<times> CarState) list \<times> int" where
  "lap_completion_loop dt [] cur = ([], cur)"
| "lap_completion_loop dt ((cid, s) # rest) cur =
     (let (s', cur1) = complete_lap dt s cur;
          (rest', cur') = lap_completion_loop dt rest cur1
      in ((cid, s') # rest', cur'))"

definition check_lap_completion :: "RaceSimulator \<Rightarrow> RaceSimulator" where
  "check_lap_completion sim =
     (let (cs, cur) = lap_completion_loop (time_step sim) (car_states sim)
                        (current_lap (race_state sim))
      in sim\<lparr>car_states := cs, race_state := (race_state sim)\<lparr>current_lap := cur\<rparr>\<rparr>)"

text \<open>\<open>position_history\<close> is a \<open>defaultdict(list)\<close>: a missing key starts from the empty
  list.\<close>

definition append_history ::
  "real \<Rightarrow> int \<times> CarState \<Rightarrow> (int \<times> (real \<times> int) list) list
     \<Rightarrow> (int \<times> (real \<times> int) list) list" where
  "append_history now x ph =
     AList.update (fst x)
       ((case map_of ph (fst x) of None \<Rightarrow> [] | Some h \<Rightarrow> h) @ [(now, position (snd x))]) ph"

definition store_history :: "RaceSimulator \<Rightarrow> RaceSimulator" where
  "store_history sim =
     sim\<lparr>race_history := race_history sim @
            [(race_state sim)\<lparr>rs_weather_dry := weather_dry (race_events sim)\<rparr>],
         position_history :=
           fold (append_history (rs_race_time (race_state sim))) (car_states sim)
             (position_history sim)\<rparr>"

subsection \<open>The race loop\<close>

record LoopState =
  sim_of :: RaceSimulator
  race_finished :: bool
  leader_finished :: bool

text \<open>The head of an iteration of the \<open>while not race_finished\<close> loop of \<open>run_race\<close>:
  the clock is advanced and the race events are updated. \<open>_update_cars\<close> runs on the
  result.\<close>

definition iteration_start :: "LoopState \<Rightarrow> RaceSimulator" where
  "iteration_start ls =
     (let sim0 = sim_of ls;
          now = rs_race_time (race_state sim0) + time_step sim0;
          sim1 = sim0\<lparr>race_state := (race_state sim0)\<lparr>rs_race_time := now\<rparr>\<rparr>
      in update_race_events sim1)"

text \<open>One iteration of the loop.\<close>

definition loop_body :: "LoopState \<Rightarrow> error + LoopState" where
  "loop_body ls =
     (let sim0 = sim_of ls;
          max_race_time = race_duration_minutes sim0 * 60;
          now = rs_race_time (race_state sim0) + time_step sim0;
          rf = (if now \<ge> max_race_time \<and> leader_finished ls then True else race_finished ls);
          lf = (if now \<ge> max_race_time \<and> \<not> leader_finished ls then True
                else leader_finished ls);
          sim2 = iteration_start ls
      in bind_err (update_cars sim2) (\<lambda>sim3.
         bind_err (update_positions sim3) (\<lambda>sim4.
         bind_err (check_overtaking sim4) (\<lambda>sim5.
           (let sim6 = update_attack_modes sim5;
                sim7 = check_lap_completion sim6;
                sim8 = (if py_int (rs_race_time (race_state sim7)) mod 5 = 0
                        then store_history sim7 else sim7)
            in Inr \<lparr>sim_of = sim8, race_finished = rf, leader_finished = lf\<rparr>)))))"

text \<open>The loop, run for at most \<open>n\<close> iterations.\<close>

fun run_loop :: "nat \<Rightarrow> LoopState \<Rightarrow> error + LoopState" where
  "run_loop 0 ls = Inr ls"
| "run_loop (Suc n) ls =
     (if race_finished ls then Inr ls
      else bind_err (loop_body ls) (run_loop n))"

subsection \<open>Results and the whole run\<close>

record RaceResults =
  final_positions :: "(int \<times> int) list"
  final_times :: "(int \<times> real) list"
  laps_completed :: "(int \<times> int) list"
  res_event_log :: "RaceEvent list"
  res_position_history :: "(int \<times> (real \<times> int) list) list"
  overtaking_stats :: OvertakingStatistics
  race_events_summary :: EventSummary

text \<open>\<open>_compile_results\<close>. The three dictionaries are built over the cars sorted by
  position (ascending, stable); the keys of \<open>car_states\<close> are distinct, so each
  comprehension is a map over that list.\<close>

definition compile_results :: "RaceSimulator \<Rightarrow> RaceResults" where
  "compile_results sim =
     (let final_order = sort_key (\<lambda>x. position (snd x)) (car_states sim)
      in \<lparr>final_positions = map (\<lambda>(cid, s). (cid, position s)) final_order,
          final_times = map (\<lambda>(cid, s). (cid, cs_race_time s)) final_order,
          laps_completed = map (\<lambda>(cid, s). (cid, lap s)) final_order,
          res_event_log = get_events_log (race_events sim),
          res_position_history = position_history sim,
          overtaking_stats = get_overtaking_statistics (overtaking sim),
          race_events_summary = get_event_summary (race_events sim)\<rparr>)"

text \<open>
  \<open>run_race\<close>, with the loop bounded by \<open>fuel\<close> iterations: the result is \<open>None\<close> when
  the race has not finished within them. \<open>g\<close> is the state of numpy's global generator
  when the method is called; the state it is left in is returned with the results.
  \<open>base_mass\<close> is the mass in the vehicle file. The reference lap time, computed by the
  lap-time solver, is only printed.
\<close>

definition run_race ::
  "real \<Rightarrow> nat \<Rightarrow> RaceSimulator \<Rightarrow> rng \<Rightarrow> (error + RaceResults \<times> rng) option" where
  "run_race base_mass fuel sim g =
     (let sim0 = initialize_cars base_mass (sim\<lparr>generator := g\<rparr>);
          ls0 = \<lparr>sim_of = sim0, race_finished = False, leader_finished = False\<rparr>
      in case run_loop fuel ls0 of
           Inl e \<Rightarrow> Some (Inl e)
         | Inr ls \<Rightarrow>
             if race_finished ls
             then Some (Inr (compile_results (sim_of ls), generator (sim_of ls)))
             else None)"

text \<open>Two simulators are constructed one after the other with the same configuration
  and seed, then run one after the other: the script
  \<open>a = RaceSimulator(..); b = RaceSimulator(..); ra = a.run_race(); rb = b.run_race()\<close>.
  The result is the pair of results, when both runs return results.\<close>

definition construct_two_then_run ::
  "real \<Rightarrow> nat \<Rightarrow> int \<Rightarrow> Track \<Rightarrow> real \<Rightarrow> real \<Rightarrow> int option \<Rightarrow> (int \<Rightarrow> rng) \<Rightarrow> rng
     \<Rightarrow> (RaceResults \<times> RaceResults) option" where
  "construct_two_then_run base_mass fuel n trk duration_minutes dt random_seed seeded g =
     (let a = RaceSimulator_init n trk duration_minutes dt random_seed seeded g;
          b = RaceSimulator_init n trk duration_minutes dt random_seed seeded (generator a)
      in case run_race base_mass fuel a (generator b) of
           Some (Inr (ra, g1)) \<Rightarrow>
             (case run_race base_mass fuel b g1 of
                Some (Inr (rb, g2)) \<Rightarrow> Some (ra, rb)
              | _ \<Rightarrow> None)
         | _ \<Rightarrow> None)"

text \<open>Two simulators with the same configuration and seed, each run directly after its
  own construction: the script
  \<open>a = RaceSimulator(..); ra = a.run_race(); b = RaceSimulator(..); rb = b.run_race()\<close>.
  The second constructor starts from the generator state the first run leaves.\<close>

definition construct_and_run_twice ::
  "real \<Rightarrow> nat \<Rightarrow> int \<Rightarrow> Track \<Rightarrow> real \<Rightarrow> real \<Rightarrow> int option \<Rightarrow> (int \<Rightarrow> rng) \<Rightarrow> rng
     \<Rightarrow> (RaceResults \<times> RaceResults) option" where
  "construct_and_run_twice base_mass fuel n trk duration_minutes dt random_seed seeded g =
     (let a = RaceSimulator_init n trk duration_minutes dt random_seed seeded g
      in case run_race base_mass fuel a (generator a) of
           Some (Inr (ra, g1)) \<Rightarrow>
             (let b = RaceSimulator_init n trk duration_minutes dt random_seed seeded g1
              in case run_race base_mass fuel b (generator b) of
                   Some (Inr (rb, g2)) \<Rightarrow> Some (ra, rb)
                 | _ \<Rightarrow> None)
         | _ \<Rightarrow> None)"

section \<open>Specification predicates\<close>

text \<open>What one operation of the engine may do to a car: a retired car keeps its speed,
  distance, lap and energy and stays retired; an energy that is not negative stays so.\<close>

definition car_step :: "CarState \<Rightarrow> CarState \<Rightarrow> bool" where
  "car_step s s' \<longleftrightarrow>
     (\<not> is_active s \<longrightarrow>
        \<not> is_active s' \<and> speed s' = speed s \<and> track_distance s' = track_distance s
        \<and> lap s' = lap s \<and> energy_remaining s' = energy_remaining s)
     \<and> (0 \<le> energy_remaining s \<longrightarrow> 0 \<le> energy_remaining s')"

text \<open>The same for the dictionary of car states, entry by entry, with the keys kept.\<close>

definition cars_step :: "(int \<times> CarState) list \<Rightarrow> (int \<times> CarState) list \<Rightarrow> bool" where
  "cars_step cs cs' \<longleftrightarrow> list_all2 (\<lambda>x y. fst y = fst x \<and> car_step (snd x) (snd y)) cs cs'"

text \<open>The position ranks of a dictionary of car states, in the order of its entries.\<close>

definition ranks :: "(int \<times> CarState) list \<Rightarrow> int list" where
  "ranks cs = map (\<lambda>x. position (snd x)) cs"

text \<open>What the operations after the car update may do to a car: the speed stays, and a
  retired car stays retired.\<close>

definition car_kept :: "CarState \<Rightarrow> CarState \<Rightarrow> bool" where
  "car_kept s s' \<longleftrightarrow> speed s' = speed s \<and> (is_active s' \<longrightarrow> is_active s)"

definition cars_kept :: "(int \<times> CarState) list \<Rightarrow> (int \<times> CarState) list \<Rightarrow> bool" where
  "cars_kept cs cs' \<longleftrightarrow> list_all2 (\<lambda>x y. fst y = fst x \<and> car_kept (snd x) (snd y)) cs cs'"

text \<open>Every active car moves forward.\<close>

definition speeds_positive :: "(int \<times> CarState) list \<Rightarrow> bool" where
  "speeds_positive cs \<longleftrightarrow> list_all (\<lambda>x. is_active (snd x) \<longrightarrow> 0 < speed (snd x)) cs"

text \<open>The parts of a simulator that the loop never changes.\<close>

definition static_of :: "RaceSimulator \<Rightarrow> real \<times> real \<times> int \<times> (int \<times> real) list \<times> real \<times> real" where
  "static_of sim =
     (track_length (track sim), stepsize (track sim), no_points (track sim), cars sim,
      time_step sim, race_duration_minutes sim)"

text \<open>A simulator on which an iteration of the loop does not raise: the track has a
  length, a step size and points; there is a car; every car has a mass, below 9680 kg,
  so that its racing speed is positive; and either the loop has not started and the
  safety car is not out, or every active car moves forward.\<close>

definition sim_ok :: "RaceSimulator \<Rightarrow> bool" where
  "sim_ok sim \<longleftrightarrow>
     track_length (track sim) \<noteq> 0 \<and> stepsize (track sim) \<noteq> 0 \<and> no_points (track sim) \<noteq> 0
     \<and> car_states sim \<noteq> []
     \<and> list_all (\<lambda>x. case map_of (cars sim) (fst x) of None \<Rightarrow> False | Some mass \<Rightarrow> mass < 9680)
         (car_states sim)
     \<and> ((last_lap_checked sim = None \<and> \<not> safety_car_active (race_events sim))
         \<or> speeds_positive (car_states sim))"

section \<open>Concrete inputs\<close>

text \<open>A generator whose samples are all \<open>u\<close>.\<close>

definition const_rng :: "real \<Rightarrow> rng" where
  "const_rng u = (\<lambda>n. u)"

text \<open>A seeding under which every seed starts the generator of constant sample 0.5.\<close>

definition example_seeding :: "int \<Rightarrow> rng" where
  "example_seeding sd = const_rng (1 / 2)"

text \<open>The controller of the module's own example: car 1, zone from 500 m to 600 m.\<close>

definition example_attack_mode :: AttackMode where
  "example_attack_mode =
     fst (AttackMode_init 1 500 600 200 (Some 42) example_seeding (const_rng (1 / 2)))"

text \<open>A manager for two cars on a track of 2500 m with the zone from 500 m to 600 m.\<close>

definition example_manager :: AttackModeManager where
  "example_manager =
     fst (AttackModeManager_init 2 2500 (Some 500) (Some 600) (Some 42) example_seeding
            (const_rng (1 / 2)))"

text \<open>A track of 2500 m in 500 points of 5 m.\<close>

definition example_track :: Track where
  "example_track = \<lparr>track_length = 2500, stepsize = 5, no_points = 500, mu = [1],
                     pars_mu_weather = 1\<rparr>"

text \<open>Two cars of 880 kg on that track with a step of 0.5 s, 150 s into the race:
  car 1 has crashed at the start of its fourth lap, car 0 runs on its third.\<close>

definition example_sim :: RaceSimulator where
  "example_sim =
     (initialize_cars 880
        (RaceSimulator_init 2 example_track 45 (1 / 2) (Some 42) example_seeding
           (const_rng (1 / 2))))
     \<lparr>car_states :=
        [(0, (initial_car_state 0)\<lparr>position := 2, lap := 2, track_distance := 900,
                                    speed := 50, energy_remaining := 4000000\<rparr>),
         (1, (initial_car_state 1)\<lparr>position := 1, lap := 3, track_distance := 100,
                                    speed := 50, energy_remaining := 4000000,
                                    is_active := False\<rparr>)],
      race_events :=
        (RaceEvents_init 2 2500)
          \<lparr>crashed_cars := {1}, total_crashes := 1,
           event_log := [\<lparr>event_type = CRASH, ev_timestamp = 150, ev_car_id = Some 1,
                           ev_description = CarCrashed 1\<rparr>]\<rparr>,
      race_state :=
        \<lparr>rs_race_time = 150, current_lap = 3, leader_id = 1, positions = [(0, 2), (1, 1)],
         rs_safety_car_active = False, rs_weather_dry = True, rs_mu_weather = 1\<rparr>,
      last_lap_checked := Some 3\<rparr>"

definition example_loop_state :: LoopState where
  "example_loop_state = \<lparr>sim_of = example_sim, race_finished = False, leader_finished = False\<rparr>"

text \<open>The same with 100 kJ left in car 0, less than one step at 200 kW consumes.\<close>

definition low_energy_loop_state :: LoopState where
  "low_energy_loop_state =
     example_loop_state
       \<lparr>sim_of := example_sim
          \<lparr>car_states :=
             [(0, (initial_car_state 0)\<lparr>position := 2, lap := 2, track_distance := 900,
                                         speed := 50, energy_remaining := 100000\<rparr>),
              (1, (initial_car_state 1)\<lparr>position := 1, lap := 3, track_distance := 100,
                                         speed := 50, energy_remaining := 4000000,
                                         is_active := False\<rparr>)]\<rparr>\<rparr>"

text \<open>A generator that replays a list of samples and then repeats \<open>d\<close>, and a seeding
  under which every seed starts the same replay.\<close>

definition list_rng :: "real list \<Rightarrow> real \<Rightarrow> rng" where
  "list_rng xs d = (\<lambda>n. if n < length xs then xs ! n else d)"

definition replay_seeding :: "int \<Rightarrow> rng" where
  "replay_seeding sd =
     list_rng [1 / 2, 1 / 4, 1 / 2, 3 / 4, 1 / 2, 3 / 4, 1 / 2, 1 / 4, 1 / 2] (1 / 2)"

section \<open>Properties of the overtaking model\<close>

lemma rng_tail_const: "rng_tail (const_rng u) = const_rng u"
  by (simp add: rng_tail_def const_rng_def)

lemma rng_ok_const: "0 \<le> u \<Longrightarrow> u < 1 \<Longrightarrow> rng_ok (const_rng u)"
  by (simp add: rng_ok_def const_rng_def)

lemma adjusted_speed_diff_eq:
  "adjusted_speed_diff d a b = d + (if a then 8 else 0) - (if b then 8 else 0)"
  by (simp add: adjusted_speed_diff_def attack_mode_speed_advantage_def Let_def)

lemma probability_buckets:
  "get_overtaking_success_probability d a b =
     (let adj = d + (if a then 8 else 0) - (if b then 8 else 0)
      in if adj < 5 then 0 else if adj < 10 then 20 / 100
         else if adj < 15 then 50 / 100 else 80 / 100)"
  by (simp add: get_overtaking_success_probability_def success_probabilities_def
      min_speed_diff_def adjusted_speed_diff_eq Let_def)

lemma find_probability_default:
  "(\<forall>row \<in> set rows. \<not> (fst row \<le> d \<and> lt_ext d (fst (snd row))))
     \<Longrightarrow> find_probability rows d = 95 / 100"
  by (induction rows d rule: find_probability.induct) auto

lemma attempt_below_threshold_fails:
  assumes adj: "va * (36 / 10) - vd * (36 / 10) + (if a then 8 else 0) - (if b then 8 else 0) < 5"
    and u: "0 \<le> g 0"
  shows "\<exists>r om' g'. attempt_overtake om ai di va vd gap tp a b ts g = Inr (r, om', g')
           \<and> \<not> res_success r \<and> res_time_gain r = 0"
proof (cases "va * (36 / 10) - vd * (36 / 10) < 5")
  case True
  then show ?thesis
    by (simp add: attempt_overtake_def min_speed_diff_def Let_def)
next
  case False
  show ?thesis
    using False u adj
    by (simp add: attempt_overtake_def min_speed_diff_def Let_def probability_buckets
        np_random_def)
qed

text \<open>
  C5. The success probability is a step function of the boost-adjusted differential
  (the raw differential plus 8 when the attacker has attack mode, minus 8 when the
  defender has it): 0 below 5, 0.20 on [5,10), 0.50 on [10,15), 0.80 from 15 on. The
  lookup falls back to 0.95 when no row of the table holds the differential. An attempt
  whose adjusted differential is below 5 returns failure with zero time gain.
\<close>

theorem overtaking_probability_is_step_function:
  "get_overtaking_success_probability d a b =
     (let adj = d + (if a then 8 else 0) - (if b then 8 else 0)
      in if adj < 5 then 0 else if adj < 10 then 20 / 100
         else if adj < 15 then 50 / 100 else 80 / 100)
   \<and> ((\<forall>row \<in> set rows. \<not> (fst row \<le> d \<and> lt_ext d (fst (snd row))))
        \<longrightarrow> find_probability rows d = 95 / 100)
   \<and> (va * (36 / 10) - vd * (36 / 10) + (if a then 8 else 0) - (if b then 8 else 0) < 5
        \<and> 0 \<le> g 0
        \<longrightarrow> (\<exists>r om' g'. attempt_overtake om ai di va vd gap tp a b ts g = Inr (r, om', g')
                \<and> \<not> res_success r \<and> res_time_gain r = 0))"
  using probability_buckets find_probability_default attempt_below_threshold_fails
  by blast

theorem overtaking_probability_is_step_function_witness:
  "get_overtaking_success_probability 12 False True = 0
   \<and> find_probability [] 12 = 95 / 100
   \<and> (\<exists>r om' g'. attempt_overtake (OvertakingModel_init 2500) 1 0 (160 / 3) 50 (8 / 10)
                     (1 / 2) False True 0 (const_rng (1 / 4)) = Inr (r, om', g')
          \<and> \<not> res_success r \<and> res_time_gain r = 0)"
  using overtaking_probability_is_step_function
          [of 12 False True "[]" "160 / 3" 50 "const_rng (1 / 4)" "OvertakingModel_init 2500"
              1 0 "8 / 10" "1 / 2" 0]
  by (simp add: const_rng_def)

text \<open>The time gain of a successful attempt is zero whenever the defender moves forward:
  the attacker is the faster car, so its traversal time is the smaller one and the
  difference is clamped from below.\<close>

lemma success_time_gain_zero:
  assumes "0 < vd" and "5 \<le> va * (36 / 10) - vd * (36 / 10)"
  shows "success_time_gain va vd (va * (36 / 10) - vd * (36 / 10)) = Inr 0"
proof -
  let ?w = "va + (va * (36 / 10) - vd * (36 / 10)) / (36 / 10) / 2"
  have w: "vd < ?w" using assms by (simp add: field_simps)
  then have "250 / ?w \<le> 250 / vd"
    using assms(1) by (intro divide_left_mono) (auto intro: mult_pos_pos)
  moreover have "?w \<noteq> 0" "vd \<noteq> 0" using w assms(1) by linarith+
  ultimately show ?thesis
    by (simp add: success_time_gain_def py_div_def Let_def max_def)
qed

text \<open>
  C4 (as the code has it). A call that returns appends exactly one record when the raw
  differential is at least 5 km/h; below the threshold it returns failure with zero
  time gain and leaves the history as it was. The earlier records stay in place.
\<close>

theorem attempt_overtake_history:
  assumes "attempt_overtake om ai di va vd gap tp a b ts g = Inr (r, om', g')"
  shows "if va * (36 / 10) - vd * (36 / 10) < 5
         then overtaking_history om' = overtaking_history om
              \<and> \<not> res_success r \<and> res_time_gain r = 0
         else overtaking_history om' = overtaking_history om @
                [\<lparr>attacker_id = ai, defender_id = di, success = res_success r,
                  speed_differential = va * (36 / 10) - vd * (36 / 10),
                  time_gain = res_time_gain r, timestamp = ts\<rparr>]"
  using assms
  by (auto simp: attempt_overtake_def min_speed_diff_def Let_def np_random_def
      split: if_splits sum.splits)

theorem attempt_overtake_history_witness:
  "attempt_overtake (OvertakingModel_init 2500) 2 1 (185 / (36 / 10)) (175 / (36 / 10)) (6 / 10)
     (1 / 2) False False 10 (const_rng (3 / 4))
   = Inr (\<lparr>res_success = False, res_speed_differential_kmh = 10, res_time_gain = 0,
            res_slipstream_active = True\<rparr>,
          \<lparr>om_track_length = 2500,
            overtaking_history = [\<lparr>attacker_id = 2, defender_id = 1, success = False,
              speed_differential = 10, time_gain = 0, timestamp = 10\<rparr>]\<rparr>,
          const_rng (3 / 4))
   \<and> overtaking_history (OvertakingModel_init 2500) @
        [\<lparr>attacker_id = 2, defender_id = 1, success = False, speed_differential = 10,
          time_gain = 0, timestamp = 10\<rparr>]
      = [\<lparr>attacker_id = 2, defender_id = 1, success = False, speed_differential = 10,
          time_gain = 0, timestamp = 10\<rparr>]"
proof -
  have e: "attempt_overtake (OvertakingModel_init 2500) 2 1 (185 / (36 / 10)) (175 / (36 / 10))
      (6 / 10) (1 / 2) False False 10 (const_rng (3 / 4))
    = Inr (\<lparr>res_success = False, res_speed_differential_kmh = 10, res_time_gain = 0,
            res_slipstream_active = True\<rparr>,
          \<lparr>om_track_length = 2500,
            overtaking_history = [\<lparr>attacker_id = 2, defender_id = 1, success = False,
              speed_differential = 10, time_gain = 0, timestamp = 10\<rparr>]\<rparr>,
          const_rng (3 / 4))"
    by (simp add: attempt_overtake_def Let_def min_speed_diff_def OvertakingModel_init_def
        probability_buckets np_random_def rng_tail_const slipstream_distance_def)
      (simp add: const_rng_def)
  from attempt_overtake_history [OF e] e show ?thesis
    by (simp add: OvertakingModel_init_def)
qed

text \<open>The call the claim fails on: equal speeds, so a differential of 0 km/h. The call
  returns failure and the history is still empty.\<close>

theorem attempt_overtake_history_counterexample:
  "attempt_overtake (OvertakingModel_init 2500) 2 1 50 50 (8 / 10) (1 / 2) False False 0
     (const_rng 0)
   = Inr (\<lparr>res_success = False, res_speed_differential_kmh = 0, res_time_gain = 0,
            res_slipstream_active = True\<rparr>, OvertakingModel_init 2500, const_rng 0)
   \<and> overtaking_history (OvertakingModel_init 2500) = []"
  by (simp add: attempt_overtake_def Let_def min_speed_diff_def OvertakingModel_init_def
      slipstream_distance_def)

text \<open>
  C6. An attacker at 192 km/h behind a defender at 180 km/h (a differential of 12 km/h),
  0.8 s back, no attack mode, with a sample of 0.25: the probability is the 0.50 of the
  [10,15) bucket and the attempt succeeds, but the time gain reported is 0, not a
  positive value.
\<close>

theorem overtake_time_gain_at_12_kmh:
  "get_overtaking_success_probability 12 False False = 50 / 100
   \<and> attempt_overtake (OvertakingModel_init 2500) 1 0 (160 / 3) 50 (8 / 10) (1 / 2) False False 0
       (const_rng (1 / 4))
     = Inr (\<lparr>res_success = True, res_speed_differential_kmh = 12, res_time_gain = 0,
              res_slipstream_active = True\<rparr>,
            \<lparr>om_track_length = 2500,
              overtaking_history = [\<lparr>attacker_id = 1, defender_id = 0, success = True,
                speed_differential = 12, time_gain = 0, timestamp = 0\<rparr>]\<rparr>,
            const_rng (1 / 4))"
  by (simp add: attempt_overtake_def Let_def min_speed_diff_def OvertakingModel_init_def
      probability_buckets np_random_def rng_tail_const success_time_gain_def py_div_def
      slipstream_distance_def)
    (simp add: const_rng_def)

section \<open>Properties of the attack-mode controller and its manager\<close>

lemma example_attack_mode_eq:
  "example_attack_mode =
     \<lparr>am_car_id = 1, activation_zone_start = 500, activation_zone_end = 600,
      base_power_kw = 200, attack_mode_power_kw = 250, max_activations = 2,
      activation_duration = 240, activation_time_loss = 3 / 4, state = AVAILABLE,
      activations_remaining = 2, current_activation_start_time = None,
      current_activation_lap = None, activation_history = []\<rparr>"
  by (simp add: example_attack_mode_def AttackMode_init_def np_uniform_def example_seeding_def
      const_rng_def Let_def)

lemma example_manager_eq:
  "example_manager =
     \<lparr>mgr_num_cars = 2, mgr_track_length = 2500, mgr_activation_zone_start = 500,
      mgr_activation_zone_end = 600,
      attack_modes =
        [(0, \<lparr>am_car_id = 0, activation_zone_start = 500, activation_zone_end = 600,
              base_power_kw = 200, attack_mode_power_kw = 250, max_activations = 2,
              activation_duration = 240, activation_time_loss = 3 / 4, state = AVAILABLE,
              activations_remaining = 2, current_activation_start_time = None,
              current_activation_lap = None, activation_history = []\<rparr>),
         (1, \<lparr>am_car_id = 1, activation_zone_start = 500, activation_zone_end = 600,
              base_power_kw = 200, attack_mode_power_kw = 250, max_activations = 2,
              activation_duration = 240, activation_time_loss = 3 / 4, state = AVAILABLE,
              activations_remaining = 2, current_activation_start_time = None,
              current_activation_lap = None, activation_history = []\<rparr>)]\<rparr>"
proof -
  have u: "[0..2 - 1] = [0, 1::int]"
    by (simp add: upto.simps)
  show ?thesis
    unfolding example_manager_def AttackModeManager_init_def u
    by (simp add: AttackMode_init_def np_uniform_def example_seeding_def const_rng_def Let_def)
qed

lemma py_fmod_small: "0 \<le> p \<Longrightarrow> p < m \<Longrightarrow> py_fmod p m = Inr p"
proof -
  assume a: "0 \<le> p" "p < m"
  then have "\<lfloor>p / m\<rfloor> = 0" by (simp add: floor_eq_iff)
  with a show ?thesis by (simp add: py_fmod_def)
qed

text \<open>
  C3 (as the code has it). For a track position \<open>p\<close> with \<open>0 \<le> p < zone length + 1000\<close>
  that lies outside the zone interval, \<open>can_activate\<close> returns false in every state of
  the controller; the reason is "Not in activation zone" when the state is AVAILABLE, and
  the reason of the state otherwise.
\<close>

theorem can_activate_outside_zone:
  assumes "0 \<le> p"
    and "p < activation_zone_end am - activation_zone_start am + 1000"
    and "\<not> (activation_zone_start am \<le> p \<and> p \<le> activation_zone_end am)"
  shows "can_activate am lp t p =
           Inr (False, case state am of
                         USED \<Rightarrow> ''All activations used''
                       | ACTIVE \<Rightarrow> ''Already active''
                       | ACTIVATING \<Rightarrow> ''Currently activating''
                       | AVAILABLE \<Rightarrow> ''Not in activation zone'')"
proof (cases "state am")
  case AVAILABLE
  with assms show ?thesis
    by (simp add: can_activate_def Let_def py_fmod_small)
qed (simp_all add: can_activate_def)

theorem can_activate_outside_zone_witness:
  "can_activate example_attack_mode 5 600 700 = Inr (False, ''Not in activation zone'')"
  using can_activate_outside_zone [of 700 example_attack_mode 5 600]
  by (simp add: example_attack_mode_eq)

text \<open>Where the claim fails: a controller that has used its activations answers with its
  own reason at 700 m, outside the zone; and an available controller at 1650 m, outside
  the zone from 500 m to 600 m of every lap of a 2500 m track, is allowed to activate,
  because the position is reduced modulo the zone length plus 1000.\<close>

theorem can_activate_outside_zone_counterexample:
  "can_activate (example_attack_mode\<lparr>state := USED\<rparr>) 5 600 700
     = Inr (False, ''All activations used'')
   \<and> mgr_track_length example_manager = 2500
   \<and> mgr_can_activate example_manager 0 5 600 1650 = Inr (True, ''Can activate'')"
proof -
  have "\<lfloor>(1650::real) / 1100\<rfloor> = 1" by (simp add: floor_eq_iff)
  then show ?thesis
    by (simp add: example_attack_mode_eq example_manager_eq can_activate_def
        mgr_can_activate_def py_fmod_def Let_def)
qed

lemma can_activate_reason_not_invalid:
  "can_activate am lp t p = Inr (ok, reason) \<Longrightarrow> reason \<noteq> ''Invalid car ID''"
  by (auto simp: can_activate_def Let_def split: if_splits sum.splits)

text \<open>
  C8 (as the code has it). For a car id that is not in the manager's mapping,
  \<open>can_activate\<close> returns false with the reason "Invalid car ID", which no controller
  gives; \<open>activate\<close> returns false and leaves the manager as it was; the power query
  returns 200, the activations-remaining query returns 0 and the is-active query
  returns false. None of them raises.
\<close>

theorem manager_unknown_car:
  assumes "map_of (attack_modes mgr) cid = None"
  shows "mgr_can_activate mgr cid lp t p = Inr (False, ''Invalid car ID'')
         \<and> (\<forall>am lp' t' p' ok reason.
               can_activate am lp' t' p' = Inr (ok, reason) \<longrightarrow> reason \<noteq> ''Invalid car ID'')
         \<and> mgr_activate mgr cid lp t p = Inr (False, mgr)
         \<and> mgr_get_power_kw mgr cid = 200
         \<and> mgr_get_activations_remaining mgr cid = 0
         \<and> \<not> mgr_is_active mgr cid"
  using assms can_activate_reason_not_invalid
  by (simp add: mgr_can_activate_def mgr_activate_def mgr_get_power_kw_def
      mgr_get_activations_remaining_def mgr_is_active_def)

theorem manager_unknown_car_witness:
  "mgr_can_activate example_manager 7 5 600 550 = Inr (False, ''Invalid car ID'')
   \<and> mgr_activate example_manager 7 5 600 550 = Inr (False, example_manager)
   \<and> mgr_get_power_kw example_manager 7 = 200
   \<and> mgr_get_activations_remaining example_manager 7 = 0
   \<and> \<not> mgr_is_active example_manager 7"
proof -
  have "map_of (attack_modes example_manager) 7 = None"
    by (simp add: example_manager_eq)
  from manager_unknown_car [OF this] show ?thesis by simp
qed

text \<open>Where the claim fails: the power query for the unknown car 7 returns the value it
  returns for the known car 0, and \<open>activate\<close> for car 7 returns what it returns for
  car 0 outside the zone.\<close>

theorem manager_unknown_car_counterexample:
  "map_of (attack_modes example_manager) 7 = None
   \<and> mgr_get_power_kw example_manager 7 = 200
   \<and> mgr_get_power_kw example_manager 0 = 200
   \<and> mgr_get_activations_remaining example_manager 7 = 0
   \<and> mgr_activate example_manager 7 5 600 700 = Inr (False, example_manager)
   \<and> mgr_activate example_manager 0 5 600 700 = Inr (False, example_manager)"
  by (simp add: example_manager_eq mgr_get_power_kw_def mgr_get_activations_remaining_def
      mgr_activate_def activate_def can_activate_def py_fmod_small get_power_kw_def
      am_is_active_def Let_def)

section \<open>Properties of the safety-car state machine\<close>

lemma np_randint_range:
  assumes "rng_ok g" and "lo < hi"
  shows "lo \<le> fst (np_randint lo hi g) \<and> fst (np_randint lo hi g) < hi"
proof -
  from assms(1) have u: "0 \<le> g 0" "g 0 < 1" by (simp_all add: rng_ok_def)
  let ?w = "of_int (hi - lo) :: real"
  have w: "0 < ?w" using assms(2) by simp
  have "0 \<le> ?w * g 0" using u w by simp
  then have lo: "0 \<le> \<lfloor>?w * g 0\<rfloor>" by simp
  have "?w * g 0 < ?w" using u w by simp
  then have "\<lfloor>?w * g 0\<rfloor> < hi - lo" by (simp add: floor_less_iff)
  with lo show ?thesis by (simp add: np_randint_def)
qed

lemma updates_when_inactive:
  "\<not> safety_car_active e \<Longrightarrow> fold (\<lambda>l e. snd (update_safety_car e l)) laps e = e"
  by (induction laps) (simp_all add: update_safety_car_def)

lemma updates_when_returning:
  assumes "safety_car_state e = RETURNING" "safety_car_active e"
    "safety_car_laps_remaining e = 1" "laps \<noteq> []"
  shows "safety_car_state (fold (\<lambda>l e. snd (update_safety_car e l)) laps e) = CLEAR
         \<and> \<not> safety_car_active (fold (\<lambda>l e. snd (update_safety_car e l)) laps e)"
proof (cases laps)
  case Nil
  with assms(4) show ?thesis by simp
next
  case (Cons l rest)
  let ?e1 = "snd (update_safety_car e l)"
  have e1: "safety_car_state ?e1 = CLEAR" "\<not> safety_car_active ?e1"
    using assms(1-3) by (simp_all add: update_safety_car_def Let_def)
  then show ?thesis
    using Cons by (simp add: updates_when_inactive)
qed

lemma updates_when_deployed:
  assumes "safety_car_state e = DEPLOYED" "safety_car_active e"
    "safety_car_laps_remaining e = m" "1 \<le> m"
  shows "let e' = fold (\<lambda>l e. snd (update_safety_car e l)) laps e
         in safety_car_state e' =
              (if int (length laps) < m then DEPLOYED
               else if int (length laps) = m then RETURNING else CLEAR)
            \<and> safety_car_active e' = (int (length laps) \<le> m)"
  using assms
proof (induction laps arbitrary: e m)
  case Nil
  then show ?case by simp
next
  case (Cons l rest)
  let ?e1 = "snd (update_safety_car e l)"
  show ?case
  proof (cases "m = 1")
    case True
    have e1: "safety_car_state ?e1 = RETURNING" "safety_car_active ?e1"
      "safety_car_laps_remaining ?e1 = 1"
      using Cons.prems True by (simp_all add: update_safety_car_def Let_def)
    show ?thesis
    proof (cases "rest = []")
      case True
      with e1 \<open>m = 1\<close> show ?thesis by simp
    next
      case False
      then have "0 < length rest" by simp
      with updates_when_returning [OF e1 False] \<open>m = 1\<close> show ?thesis
        by (simp add: Let_def)
    qed
  next
    case False
    with Cons.prems have m: "2 \<le> m" by simp
    have e1: "safety_car_state ?e1 = DEPLOYED" "safety_car_active ?e1"
      "safety_car_laps_remaining ?e1 = m - 1"
      using Cons.prems m by (simp_all add: update_safety_car_def Let_def)
    from m have "1 \<le> m - 1" by simp
    from Cons.IH [OF e1 this] show ?thesis
      by (auto simp: Let_def)
  qed
qed

lemma randint_attains:
  assumes "3 \<le> v" and "v \<le> 8"
  shows "rng_ok (const_rng (of_int (v - 3) / 6))
         \<and> fst (np_randint 3 9 (const_rng (of_int (v - 3) / 6))) = v"
proof -
  have "(0::real) \<le> of_int (v - 3) / 6" using assms(1) by simp
  moreover have "of_int (v - 3) / 6 < (1::real)" using assms(2) by simp
  ultimately have "rng_ok (const_rng (of_int (v - 3) / 6))"
    by (rule rng_ok_const)
  moreover have "fst (np_randint 3 9 (const_rng (of_int (v - 3) / 6))) = v"
  proof -
    have "of_int (9 - 3) * (of_int (v - 3) / 6) = (of_int (v - 3) :: real)" by simp
    then have "\<lfloor>of_int (9 - 3) * (of_int (v - 3) / 6 :: real)\<rfloor> = v - 3"
      by (simp only: floor_of_int)
    then show ?thesis
      by (simp only: np_randint_def const_rng_def fst_conv)
  qed
  ultimately show ?thesis ..
qed

text \<open>
  C7. The event engine starts CLEAR and inactive. Deployment moves it to DEPLOYED with a
  duration \<open>n\<close> that is the value of \<open>randint(3, 9)\<close> on the generator, one draw, so
  an integer from 3 to 8, each of which some sample gives. Counting the calls of
  \<open>update_safety_car\<close> after the deployment, with whatever lap numbers: the state is
  DEPLOYED before the \<open>n\<close>-th call, RETURNING after the \<open>n\<close>-th, and CLEAR after one
  more and from then on. All along, \<open>safety_car_active\<close> holds exactly in DEPLOYED and
  RETURNING, and \<open>get_safety_car_speed\<close> is 80 km/h in m/s when active and \<open>np.inf\<close>
  otherwise.
\<close>

theorem safety_car_lifecycle:
  assumes "rng_ok g"
  shows "safety_car_state (RaceEvents_init k len) = CLEAR
         \<and> \<not> safety_car_active (RaceEvents_init k len)
         \<and> (let ev1 = fst (deploy_safety_car ev lp t g);
                 n = safety_car_laps_remaining ev1
             in 3 \<le> n \<and> n \<le> 8
                \<and> safety_car_state ev1 = DEPLOYED
                \<and> (\<forall>laps.
                      let e = fold (\<lambda>l e. snd (update_safety_car e l)) laps ev1
                      in safety_car_state e =
                           (if int (length laps) < n then DEPLOYED
                            else if int (length laps) = n then RETURNING else CLEAR)
                         \<and> safety_car_active e =
                             (safety_car_state e = DEPLOYED \<or> safety_car_state e = RETURNING)
                         \<and> get_safety_car_speed e =
                             (if safety_car_active e then Fin (80 / (36 / 10)) else PInf)))
         \<and> safety_car_laps_remaining (fst (deploy_safety_car ev lp t g))
             = fst (np_randint 3 9 g)
         \<and> fst (np_randint 3 9 g) = 3 + \<lfloor>6 * g 0\<rfloor>
         \<and> snd (deploy_safety_car ev lp t g) = rng_tail g
         \<and> (\<forall>v. 3 \<le> v \<and> v \<le> 8
                \<longrightarrow> (\<exists>g'. rng_ok g'
                       \<and> safety_car_laps_remaining (fst (deploy_safety_car ev lp t g')) = v))"
proof -
  let ?ev1 = "fst (deploy_safety_car ev lp t g)"
  let ?n = "safety_car_laps_remaining ?ev1"
  have n: "safety_car_laps_remaining (fst (deploy_safety_car ev lp t h)) = fst (np_randint 3 9 h)"
    for h
    by (simp add: deploy_safety_car_def split_beta)
  have range: "3 \<le> ?n" "?n \<le> 8"
    using np_randint_range [OF assms, of 3 9] n by simp_all
  have d: "safety_car_state ?ev1 = DEPLOYED" "safety_car_active ?ev1"
    by (simp_all add: deploy_safety_car_def split_beta)
  from range have one: "1 \<le> ?n" by simp
  have steps: "(let e = fold (\<lambda>l e. snd (update_safety_car e l)) laps ?ev1
               in safety_car_state e =
                 (if int (length laps) < ?n then DEPLOYED
                  else if int (length laps) = ?n then RETURNING else CLEAR)
               \<and> safety_car_active e =
                   (safety_car_state e = DEPLOYED \<or> safety_car_state e = RETURNING)
               \<and> get_safety_car_speed e =
                   (if safety_car_active e then Fin (80 / (36 / 10)) else PInf))" for laps
    using updates_when_deployed [OF d refl one, of laps]
    by (auto simp: Let_def get_safety_car_speed_def safety_car_speed_def)
  have init: "safety_car_state (RaceEvents_init k len) = CLEAR"
    "\<not> safety_car_active (RaceEvents_init k len)"
    by (simp_all add: RaceEvents_init_def)
  have draw: "fst (np_randint 3 9 g) = 3 + \<lfloor>6 * g 0\<rfloor>"
    by (simp add: np_randint_def)
  have rest: "snd (deploy_safety_car ev lp t g) = rng_tail g"
    by (simp add: deploy_safety_car_def np_randint_def split_beta)
  have attained: "\<forall>v. 3 \<le> v \<and> v \<le> 8
                \<longrightarrow> (\<exists>g'. rng_ok g'
                       \<and> safety_car_laps_remaining (fst (deploy_safety_car ev lp t g')) = v)"
    using randint_attains n by metis
  have life: "(let ev1 = fst (deploy_safety_car ev lp t g);
                 n = safety_car_laps_remaining ev1
             in 3 \<le> n \<and> n \<le> 8
                \<and> safety_car_state ev1 = DEPLOYED
                \<and> (\<forall>laps.
                      let e = fold (\<lambda>l e. snd (update_safety_car e l)) laps ev1
                      in safety_car_state e =
                           (if int (length laps) < n then DEPLOYED
                            else if int (length laps) = n then RETURNING else CLEAR)
                         \<and> safety_car_active e =
                             (safety_car_state e = DEPLOYED \<or> safety_car_state e = RETURNING)
                         \<and> get_safety_car_speed e =
                             (if safety_car_active e then Fin (80 / (36 / 10)) else PInf)))"
    unfolding Let_def
    using range d(1) steps [unfolded Let_def] by blast
  from init life n [of g] draw rest attained show ?thesis
    by (intro conjI)
qed

theorem safety_car_lifecycle_witness:
  "rng_ok (const_rng (1 / 2))
   \<and> safety_car_laps_remaining
        (fst (deploy_safety_car (RaceEvents_init 2 2500) 4 300 (const_rng (1 / 2)))) = 6
   \<and> safety_car_state
        (fold (\<lambda>l e. snd (update_safety_car e l)) [4, 4, 4, 4, 4]
           (fst (deploy_safety_car (RaceEvents_init 2 2500) 4 300 (const_rng (1 / 2)))))
      = DEPLOYED
   \<and> safety_car_state
        (fold (\<lambda>l e. snd (update_safety_car e l)) [4, 4, 4, 4, 4, 4]
           (fst (deploy_safety_car (RaceEvents_init 2 2500) 4 300 (const_rng (1 / 2)))))
      = RETURNING
   \<and> safety_car_state
        (fold (\<lambda>l e. snd (update_safety_car e l)) [4, 4, 4, 4, 4, 4, 5]
           (fst (deploy_safety_car (RaceEvents_init 2 2500) 4 300 (const_rng (1 / 2)))))
      = CLEAR
   \<and> (\<exists>g'. rng_ok g'
         \<and> safety_car_laps_remaining
              (fst (deploy_safety_car (RaceEvents_init 2 2500) 4 300 g')) = 3)
   \<and> (\<exists>g'. rng_ok g'
         \<and> safety_car_laps_remaining
              (fst (deploy_safety_car (RaceEvents_init 2 2500) 4 300 g')) = 8)"
proof -
  have ok: "rng_ok (const_rng (1 / 2))" by (simp add: rng_ok_const)
  have n: "safety_car_laps_remaining
        (fst (deploy_safety_car (RaceEvents_init 2 2500) 4 300 (const_rng (1 / 2)))) = 6"
    by (simp add: deploy_safety_car_def np_randint_def const_rng_def split_beta)
  note t = safety_car_lifecycle [OF ok, of 2 2500 "RaceEvents_init 2 2500" 4 300]
  note a = t [THEN conjunct2, THEN conjunct2, THEN conjunct1, unfolded Let_def,
      THEN conjunct2, THEN conjunct2, THEN conjunct2, THEN spec, THEN conjunct1, unfolded n]
  note att = t [THEN conjunct2, THEN conjunct2, THEN conjunct2, THEN conjunct2,
      THEN conjunct2, THEN conjunct2]
  have three: "\<exists>g'. rng_ok g'
         \<and> safety_car_laps_remaining
              (fst (deploy_safety_car (RaceEvents_init 2 2500) 4 300 g')) = 3"
    using att [THEN spec, of 3] by simp
  have eight: "\<exists>g'. rng_ok g'
         \<and> safety_car_laps_remaining
              (fst (deploy_safety_car (RaceEvents_init 2 2500) 4 300 g')) = 8"
    using att [THEN spec, of 8] by simp
  have "length [4, 4, 4, 4, 4 :: int] = 5" "length [4, 4, 4, 4, 4, 4 :: int] = 6"
    "length [4, 4, 4, 4, 4, 4, 5 :: int] = 7" by simp_all
  then have "safety_car_state
        (fold (\<lambda>l e. snd (update_safety_car e l)) [4, 4, 4, 4, 4]
           (fst (deploy_safety_car (RaceEvents_init 2 2500) 4 300 (const_rng (1 / 2)))))
      = DEPLOYED
   \<and> safety_car_state
        (fold (\<lambda>l e. snd (update_safety_car e l)) [4, 4, 4, 4, 4, 4]
           (fst (deploy_safety_car (RaceEvents_init 2 2500) 4 300 (const_rng (1 / 2)))))
      = RETURNING
   \<and> safety_car_state
        (fold (\<lambda>l e. snd (update_safety_car e l)) [4, 4, 4, 4, 4, 4, 5]
           (fst (deploy_safety_car (RaceEvents_init 2 2500) 4 300 (const_rng (1 / 2)))))
      = CLEAR"
    using a [of "[4, 4, 4, 4, 4]"] a [of "[4, 4, 4, 4, 4, 4]"]
      a [of "[4, 4, 4, 4, 4, 4, 5]"]
    by (simp only: of_nat_numeral) simp
  with ok n three eight show ?thesis by (intro conjI) blast+
qed

section \<open>Retired cars and energy through the race loop\<close>

lemma bind_err_Inr:
  "bind_err r f = Inr y \<longleftrightarrow> (\<exists>x. r = Inr x \<and> f x = Inr y)"
  by (cases r) (simp_all add: bind_err_def)

lemma car_step_refl: "car_step s s"
  by (simp add: car_step_def)

lemma car_step_trans: "car_step s s' \<Longrightarrow> car_step s' s'' \<Longrightarrow> car_step s s''"
  by (auto simp: car_step_def)

lemma cars_step_refl: "cars_step cs cs"
  by (simp add: cars_step_def list_all2_refl car_step_refl)

lemma cars_step_trans: "cars_step cs cs' \<Longrightarrow> cars_step cs' cs'' \<Longrightarrow> cars_step cs cs''"
  unfolding cars_step_def
  using list_all2_trans
    [of "\<lambda>x y. fst y = fst x \<and> car_step (snd x) (snd y)"
        "\<lambda>x y. fst y = fst x \<and> car_step (snd x) (snd y)"
        "\<lambda>x y. fst y = fst x \<and> car_step (snd x) (snd y)" cs cs' cs'']
  by (auto intro: car_step_trans)

lemma cars_step_keys: "cars_step cs cs' \<Longrightarrow> map fst cs' = map fst cs"
  unfolding cars_step_def by (induction rule: list_all2_induct) auto

lemma cars_step_map_of:
  "cars_step cs cs' \<Longrightarrow> map_of cs k = Some s \<Longrightarrow> \<exists>s'. map_of cs' k = Some s' \<and> car_step s s'"
  unfolding cars_step_def
  by (induction arbitrary: s rule: list_all2_induct) (auto split: if_splits)

lemma cars_step_map_entry:
  "(\<And>s. car_step s (f s)) \<Longrightarrow> cars_step cs (AList.map_entry k f cs)"
  by (induction cs) (auto simp: cars_step_def car_step_refl list_all2_refl)

lemma cars_step_map:
  "(\<And>k s. car_step s (f k s)) \<Longrightarrow> cars_step cs (map (\<lambda>(k, s). (k, f k s)) cs)"
  by (induction cs) (auto simp: cars_step_def)

lemma cars_step_crashes:
  "cars_step cs (fold (\<lambda>crashed_id. AList.map_entry crashed_id (\<lambda>s. s\<lparr>is_active := False\<rparr>))
                   xs cs)"
proof (induction xs arbitrary: cs)
  case Nil
  show ?case by (simp add: cars_step_refl)
next
  case (Cons x xs)
  have "cars_step cs (AList.map_entry x (\<lambda>s. s\<lparr>is_active := False\<rparr>) cs)"
    by (rule cars_step_map_entry) (simp add: car_step_def)
  with Cons show ?case
    by (auto intro: cars_step_trans)
qed

lemma update_race_events_cars:
  "cars_step (car_states sim) (car_states (update_race_events sim))"
  by (auto simp: update_race_events_def Let_def split_beta cars_step_refl cars_step_crashes
      split: option.splits)

lemma update_race_events_manager:
  "attack_mode_manager (update_race_events sim) = attack_mode_manager sim"
  by (auto simp: update_race_events_def Let_def split_beta split: option.splits)

lemma iteration_start_cars:
  "cars_step (car_states (sim_of ls)) (car_states (iteration_start ls))"
  using update_race_events_cars
    [of "(sim_of ls)\<lparr>race_state := (race_state (sim_of ls))
           \<lparr>rs_race_time := rs_race_time (race_state (sim_of ls)) + time_step (sim_of ls)\<rparr>\<rparr>"]
  by (simp add: iteration_start_def Let_def)

lemma iteration_start_manager:
  "attack_mode_manager (iteration_start ls) = attack_mode_manager (sim_of ls)"
  by (simp add: iteration_start_def Let_def update_race_events_manager)

lemma update_car_inactive: "\<not> is_active s \<Longrightarrow> update_car sim sc cid s = Inr s"
  by (simp add: update_car_def)

lemma update_car_active:
  assumes "update_car sim sc cid s = Inr s'" and "is_active s"
  shows "\<exists>v td tpn. s' = update_energy sim cid
                             (s\<lparr>speed := v, track_distance := td,
                                track_position_normalized := tpn\<rparr>)"
  using assms by (auto simp: update_car_def bind_err_Inr)

lemma update_car_step: "update_car sim sc cid s = Inr s' \<Longrightarrow> car_step s s'"
proof (cases "is_active s")
  case True
  assume "update_car sim sc cid s = Inr s'"
  from update_car_active [OF this True] True show ?thesis
    by (auto simp: car_step_def update_energy_def Let_def)
next
  case False
  assume "update_car sim sc cid s = Inr s'"
  with False show ?thesis by (simp add: update_car_inactive car_step_refl)
qed

lemma update_cars_loop_step: "update_cars_loop sim sc cs = Inr cs' \<Longrightarrow> cars_step cs cs'"
proof (induction cs arbitrary: cs')
  case Nil
  then show ?case by (simp add: cars_step_def)
next
  case (Cons x cs)
  obtain cid s where x: "x = (cid, s)" by (cases x)
  from Cons.prems obtain s' rest' where
    s': "update_car sim sc cid s = Inr s'" and
    rest: "update_cars_loop sim sc cs = Inr rest'" and
    cs': "cs' = (cid, s') # rest'"
    by (auto simp: x bind_err_Inr)
  from Cons.IH [OF rest] update_car_step [OF s'] show ?case
    by (simp add: cars_step_def x cs')
qed

lemma update_cars_loop_map_of:
  "update_cars_loop sim sc cs = Inr cs' \<Longrightarrow> map_of cs k = Some s
     \<Longrightarrow> \<exists>s'. map_of cs' k = Some s' \<and> update_car sim sc k s = Inr s'"
proof (induction cs arbitrary: cs')
  case Nil
  then show ?case by simp
next
  case (Cons x cs)
  obtain cid s0 where x: "x = (cid, s0)" by (cases x)
  from Cons.prems(1) obtain s0' rest' where
    s': "update_car sim sc cid s0 = Inr s0'" and
    rest: "update_cars_loop sim sc cs = Inr rest'" and
    cs': "cs' = (cid, s0') # rest'"
    by (auto simp: x bind_err_Inr)
  show ?case
  proof (cases "k = cid")
    case True
    with Cons.prems(2) s' show ?thesis by (simp add: x cs')
  next
    case False
    with Cons.prems(2) have "map_of cs k = Some s" by (simp add: x)
    from Cons.IH [OF rest this] False show ?thesis by (simp add: cs')
  qed
qed

lemma update_cars_step: "update_cars sim = Inr sim' \<Longrightarrow> cars_step (car_states sim) (car_states sim')"
  by (auto simp: update_cars_def bind_err_Inr Let_def dest: update_cars_loop_step)

lemma update_cars_manager:
  "update_cars sim = Inr sim' \<Longrightarrow> attack_mode_manager sim' = attack_mode_manager sim"
  by (auto simp: update_cars_def bind_err_Inr Let_def)

lemma assign_positions_step: "cars_step cs (fst (assign_positions p xs (cs, ps)))"
proof (induction xs arbitrary: p cs ps)
  case Nil
  show ?case by (simp add: cars_step_refl)
next
  case (Cons x xs)
  obtain cid s0 where x: "x = (cid, s0)" by (cases x)
  have "cars_step cs (AList.map_entry cid (\<lambda>s. s\<lparr>position := p\<rparr>) cs)"
    by (rule cars_step_map_entry) (simp add: car_step_def)
  from cars_step_trans [OF this Cons.IH] show ?case
    by (simp add: x)
qed

lemma calculate_gap_step: "car_step s (calculate_gap sim leader_state cid s)"
  by (simp add: calculate_gap_def car_step_def Let_def)

lemma calculate_gaps_step:
  "calculate_gaps sim = Inr sim' \<Longrightarrow> cars_step (car_states sim) (car_states sim')"
  using cars_step_map [of "\<lambda>k s. calculate_gap sim ldr k s" for ldr, OF calculate_gap_step]
  by (auto simp: calculate_gaps_def bind_err_Inr)

lemma calculate_gaps_manager:
  "calculate_gaps sim = Inr sim' \<Longrightarrow> attack_mode_manager sim' = attack_mode_manager sim"
  by (auto simp: calculate_gaps_def bind_err_Inr)

lemma update_positions_step:
  assumes "update_positions sim = Inr sim'"
  shows "cars_step (car_states sim) (car_states sim')"
proof -
  let ?xs = "py_sorted_reverse sort_key_of (car_states sim)"
  let ?r = "assign_positions 1 ?xs (car_states sim, positions (race_state sim))"
  let ?rs1 = "(race_state sim)\<lparr>positions := snd ?r\<rparr>"
  let ?mid = "sim\<lparr>car_states := fst ?r,
                   race_state := (case ?xs of [] \<Rightarrow> ?rs1 | x # xs \<Rightarrow> ?rs1\<lparr>leader_id := fst x\<rparr>)\<rparr>"
  have g: "calculate_gaps ?mid = Inr sim'"
    using assms by (simp add: update_positions_def Let_def split_beta)
  have mid: "car_states ?mid = fst ?r" by simp
  define mid where "mid = ?mid"
  note g = g [folded mid_def] and mid = mid [folded mid_def]
  have "cars_step (car_states sim) (car_states mid)"
    unfolding mid by (rule assign_positions_step)
  from cars_step_trans [OF this calculate_gaps_step [OF g]] show ?thesis .
qed

lemma update_positions_manager:
  "update_positions sim = Inr sim' \<Longrightarrow> attack_mode_manager sim' = attack_mode_manager sim"
  by (auto simp: update_positions_def Let_def split_beta dest!: calculate_gaps_manager)

lemma swap_positions_step: "swap_positions a d cs = Inr cs' \<Longrightarrow> cars_step cs cs'"
proof -
  assume "swap_positions a d cs = Inr cs'"
  then obtain pa pd where
    cs': "cs' = AList.map_entry d (\<lambda>s. s\<lparr>position := pa\<rparr>)
                  (AList.map_entry a (\<lambda>s. s\<lparr>position := pd\<rparr>) cs)"
    by (auto simp: swap_positions_def bind_err_Inr Let_def)
  have "cars_step cs (AList.map_entry a (\<lambda>s. s\<lparr>position := pd\<rparr>) cs)"
    by (rule cars_step_map_entry) (simp add: car_step_def)
  moreover have "cars_step (AList.map_entry a (\<lambda>s. s\<lparr>position := pd\<rparr>) cs) cs'"
    unfolding cs' by (rule cars_step_map_entry) (simp add: car_step_def)
  ultimately show ?thesis by (rule cars_step_trans)
qed

lemma overtake_pair_step:
  "overtake_pair mgr now d a (cs, om, g) = Inr (cs', om', g') \<Longrightarrow> cars_step cs cs'"
  by (auto simp: overtake_pair_def Let_def bind_err_Inr cars_step_refl
      split: if_splits dest: swap_positions_step)

lemma overtaking_loop_step:
  "overtaking_loop mgr now xs acc = Inr acc' \<Longrightarrow> cars_step (fst acc) (fst acc')"
proof (induction mgr now xs acc arbitrary: acc' rule: overtaking_loop.induct)
  case (1 mgr now defender attacker rest acc)
  from "1.prems" obtain mid where
    p: "overtake_pair mgr now defender attacker acc = Inr mid" and
    r: "overtaking_loop mgr now (attacker # rest) mid = Inr acc'"
    by (auto simp: bind_err_Inr)
  have "cars_step (fst acc) (fst mid)"
    using overtake_pair_step [of mgr now defender attacker "fst acc" "fst (snd acc)"
        "snd (snd acc)" "fst mid" "fst (snd mid)" "snd (snd mid)"] p
    by simp
  from cars_step_trans [OF this "1.IH" [OF r]] show ?case .
qed (simp_all add: cars_step_refl)

lemma check_overtaking_step:
  "check_overtaking sim = Inr sim' \<Longrightarrow> cars_step (car_states sim) (car_states sim')"
  by (auto simp: check_overtaking_def Let_def bind_err_Inr dest!: overtaking_loop_step)

lemma check_overtaking_manager:
  "check_overtaking sim = Inr sim' \<Longrightarrow> attack_mode_manager sim' = attack_mode_manager sim"
  by (auto simp: check_overtaking_def Let_def bind_err_Inr)

lemma complete_lap_step: "car_step s (fst (complete_lap dt s cur))"
  by (simp add: complete_lap_def car_step_def Let_def)

lemma lap_completion_loop_step: "cars_step cs (fst (lap_completion_loop dt cs cur))"
proof (induction cs arbitrary: cur)
  case Nil
  show ?case by (simp add: cars_step_def)
next
  case (Cons x cs)
  obtain cid s where x: "x = (cid, s)" by (cases x)
  from Cons [of "snd (complete_lap dt s cur)"] complete_lap_step [of s dt cur]
  show ?case
    by (simp add: x cars_step_def split_beta)
qed

lemma check_lap_completion_step:
  "cars_step (car_states sim) (car_states (check_lap_completion sim))"
  by (simp add: check_lap_completion_def split_beta lap_completion_loop_step)

lemma loop_body_steps:
  assumes "loop_body ls = Inr ls'"
  obtains sim3 sim4 sim5 where
    "update_cars (iteration_start ls) = Inr sim3"
    "update_positions sim3 = Inr sim4"
    "check_overtaking sim4 = Inr sim5"
    "car_states (sim_of ls') = car_states (check_lap_completion (update_attack_modes sim5))"
    "attack_mode_manager (sim_of ls') = attack_mode_manager (update_attack_modes sim5)"
  using assms
  by (auto simp: loop_body_def Let_def bind_err_Inr store_history_def
      check_lap_completion_def split_beta split: if_splits)

lemma loop_body_cars:
  assumes "loop_body ls = Inr ls'"
  shows "cars_step (car_states (sim_of ls)) (car_states (sim_of ls'))"
proof -
  from assms obtain sim3 sim4 sim5 where
    s3: "update_cars (iteration_start ls) = Inr sim3" and
    s4: "update_positions sim3 = Inr sim4" and
    s5: "check_overtaking sim4 = Inr sim5" and
    fin: "car_states (sim_of ls') = car_states (check_lap_completion (update_attack_modes sim5))"
    by (rule loop_body_steps)
  have "cars_step (car_states sim5) (car_states (sim_of ls'))"
    using check_lap_completion_step [of "update_attack_modes sim5"]
    by (simp add: fin update_attack_modes_def)
  with iteration_start_cars [of ls] update_cars_step [OF s3] update_positions_step [OF s4]
    check_overtaking_step [OF s5]
  show ?thesis
    by (blast intro: cars_step_trans)
qed

lemma run_loop_cars:
  "run_loop n ls = Inr ls' \<Longrightarrow> cars_step (car_states (sim_of ls)) (car_states (sim_of ls'))"
proof (induction n arbitrary: ls)
  case 0
  then show ?case by (simp add: cars_step_refl)
next
  case (Suc n)
  show ?case
  proof (cases "race_finished ls")
    case True
    with Suc.prems show ?thesis by (simp add: cars_step_refl)
  next
    case False
    with Suc.prems obtain mid where
      b: "loop_body ls = Inr mid" and r: "run_loop n mid = Inr ls'"
      by (auto simp: bind_err_Inr)
    from cars_step_trans [OF loop_body_cars [OF b] Suc.IH [OF r]] show ?thesis .
  qed
qed

lemma update_energy_depleted:
  "energy_remaining s \<le> energy_consumed sim cid
     \<Longrightarrow> \<not> is_active (update_energy sim cid s) \<and> energy_remaining (update_energy sim cid s) = 0"
  by (simp add: update_energy_def Let_def)

lemma update_cars_map_of:
  "update_cars sim = Inr sim' \<Longrightarrow> map_of (car_states sim) k = Some s
     \<Longrightarrow> \<exists>s'. map_of (car_states sim') k = Some s'
              \<and> update_car sim (get_safety_car_speed (race_events sim)) k s = Inr s'"
  by (auto simp: update_cars_def bind_err_Inr Let_def dest: update_cars_loop_map_of)

lemma depleted_car_is_retired:
  assumes body: "loop_body ls = Inr ls1"
    and car: "map_of (car_states (iteration_start ls)) cid = Some s"
    and active: "is_active s"
    and depleted: "energy_remaining s \<le> energy_consumed (iteration_start ls) cid"
    and later: "run_loop n ls1 = Inr ls2"
  shows "\<exists>s1 s2. map_of (car_states (sim_of ls1)) cid = Some s1
            \<and> \<not> is_active s1 \<and> energy_remaining s1 = 0
            \<and> map_of (car_states (sim_of ls2)) cid = Some s2
            \<and> \<not> is_active s2 \<and> energy_remaining s2 = 0
            \<and> speed s2 = speed s1 \<and> track_distance s2 = track_distance s1
            \<and> lap s2 = lap s1"
proof -
  from body obtain sim3 sim4 sim5 where
    s3: "update_cars (iteration_start ls) = Inr sim3" and
    s4: "update_positions sim3 = Inr sim4" and
    s5: "check_overtaking sim4 = Inr sim5" and
    fin: "car_states (sim_of ls1) = car_states (check_lap_completion (update_attack_modes sim5))"
    by (rule loop_body_steps)
  from update_cars_map_of [OF s3 car] obtain s3' where
    m3: "map_of (car_states sim3) cid = Some s3'" and
    u: "update_car (iteration_start ls) (get_safety_car_speed (race_events (iteration_start ls)))
          cid s = Inr s3'"
    by blast
  from update_car_active [OF u active] depleted have r3: "\<not> is_active s3'" "energy_remaining s3' = 0"
    by (auto simp: update_energy_def Let_def)
  have "cars_step (car_states sim5) (car_states (sim_of ls1))"
    using check_lap_completion_step [of "update_attack_modes sim5"]
    by (simp add: fin update_attack_modes_def)
  with update_positions_step [OF s4] check_overtaking_step [OF s5]
  have "cars_step (car_states sim3) (car_states (sim_of ls1))"
    by (blast intro: cars_step_trans)
  from cars_step_map_of [OF this m3] obtain s1 where
    m1: "map_of (car_states (sim_of ls1)) cid = Some s1" and c1: "car_step s3' s1"
    by blast
  from c1 r3 have r1: "\<not> is_active s1" "energy_remaining s1 = 0"
    by (simp_all add: car_step_def)
  from cars_step_map_of [OF run_loop_cars [OF later] m1] obtain s2 where
    m2: "map_of (car_states (sim_of ls2)) cid = Some s2" and c2: "car_step s1 s2"
    by blast
  from c2 r1 have "\<not> is_active s2" "energy_remaining s2 = 0" "speed s2 = speed s1"
    "track_distance s2 = track_distance s1" "lap s2 = lap s1"
    by (simp_all add: car_step_def)
  with m1 r1 m2
  show "\<exists>s1 s2. map_of (car_states (sim_of ls1)) cid = Some s1
            \<and> \<not> is_active s1 \<and> energy_remaining s1 = 0
            \<and> map_of (car_states (sim_of ls2)) cid = Some s2
            \<and> \<not> is_active s2 \<and> energy_remaining s2 = 0
            \<and> speed s2 = speed s1 \<and> track_distance s2 = track_distance s1
            \<and> lap s2 = lap s1"
    by blast
qed

lemma set_alist_update: "set (AList.update k v al) \<subseteq> insert (k, v) (set al)"
  by (induction al) auto

lemma cars_step_energy:
  assumes "cars_step cs cs'" and "\<forall>x \<in> set cs. 0 \<le> energy_remaining (snd x)"
  shows "\<forall>x \<in> set cs'. 0 \<le> energy_remaining (snd x)"
proof -
  from assms(1)
  have "list_all2 (\<lambda>x y. 0 \<le> energy_remaining (snd x) \<longrightarrow> 0 \<le> energy_remaining (snd y)) cs cs'"
    unfolding cars_step_def by (rule list_all2_mono) (simp add: car_step_def)
  then have "(\<forall>x \<in> set cs. 0 \<le> energy_remaining (snd x))
              \<longrightarrow> (\<forall>x \<in> set cs'. 0 \<le> energy_remaining (snd x))"
    by (induction rule: list_all2_induct) auto
  with assms(2) show ?thesis by blast
qed

lemma initialize_cars_loop_energy:
  "\<forall>x \<in> set (car_states sim). 0 \<le> energy_remaining (snd x)
     \<Longrightarrow> \<forall>x \<in> set (car_states (initialize_cars_loop cids m sim)). 0 \<le> energy_remaining (snd x)"
proof (induction cids arbitrary: sim)
  case Nil
  then show ?case by simp
next
  case (Cons c cids)
  let ?cs1 = "AList.update c (initial_car_state c) (car_states sim)"
  let ?sim1 = "sim\<lparr>cars := AList.update c
                              (m * fst (np_uniform (98 / 100) (102 / 100) (generator sim)))
                              (cars sim),
                    car_states := ?cs1,
                    generator := snd (np_uniform (97 / 100) (103 / 100)
                                        (snd (np_uniform (98 / 100) (102 / 100) (generator sim))))\<rparr>"
  have "\<forall>x \<in> set ?cs1. 0 \<le> energy_remaining (snd x)"
    using Cons.prems set_alist_update [of c "initial_car_state c" "car_states sim"]
    by (auto simp: initial_car_state_def)
  then have "\<forall>x \<in> set (car_states ?sim1). 0 \<le> energy_remaining (snd x)"
    by simp
  from Cons.IH [OF this] show ?case
    by (simp add: split_beta)
qed

lemma initial_energy:
  "\<forall>x \<in> set (car_states (initialize_cars m (RaceSimulator_init n trk dur dt sd seeded g))).
     0 \<le> energy_remaining (snd x)"
proof -
  have "car_states (RaceSimulator_init n trk dur dt sd seeded g) = []"
    by (simp add: RaceSimulator_init_def Let_def split_beta)
  then show ?thesis
    unfolding initialize_cars_def by (intro initialize_cars_loop_energy) simp
qed

text \<open>
  C2 (as the code has it). Take an iteration of the race loop in which a car enters the
  car update active and with no more energy than the step consumes. At the end of that
  iteration the car is inactive and its energy is 0; the code records no retirement
  reason. After any number of further iterations the car is still inactive with energy
  0 and has the speed, the distance and the lap it had at the end of that iteration.
  Apart from that, for every iteration and every number of iterations: if no car has a
  negative energy before, none has afterwards; and from the state in which \<open>run_race\<close>
  enters the loop, no car ever has a negative energy.
\<close>

theorem energy_depletion_retires_car:
  "(loop_body ls = Inr ls1
      \<and> map_of (car_states (iteration_start ls)) cid = Some s
      \<and> is_active s
      \<and> energy_remaining s \<le> energy_consumed (iteration_start ls) cid
      \<and> run_loop n ls1 = Inr ls2
    \<longrightarrow> (\<exists>s1 s2. map_of (car_states (sim_of ls1)) cid = Some s1
            \<and> \<not> is_active s1 \<and> energy_remaining s1 = 0
            \<and> map_of (car_states (sim_of ls2)) cid = Some s2
            \<and> \<not> is_active s2 \<and> energy_remaining s2 = 0
            \<and> speed s2 = speed s1 \<and> track_distance s2 = track_distance s1
            \<and> lap s2 = lap s1))
   \<and> (loop_body la = Inr lb
        \<and> (\<forall>x \<in> set (car_states (sim_of la)). 0 \<le> energy_remaining (snd x))
      \<longrightarrow> (\<forall>x \<in> set (car_states (sim_of lb)). 0 \<le> energy_remaining (snd x)))
   \<and> (run_loop k la = Inr lc
        \<and> (\<forall>x \<in> set (car_states (sim_of la)). 0 \<le> energy_remaining (snd x))
      \<longrightarrow> (\<forall>x \<in> set (car_states (sim_of lc)). 0 \<le> energy_remaining (snd x)))
   \<and> (sim_of l0 = initialize_cars m (RaceSimulator_init nc trk dur dt sd seeded g)
        \<and> run_loop k0 l0 = Inr l1
      \<longrightarrow> (\<forall>x \<in> set (car_states (sim_of l1)). 0 \<le> energy_remaining (snd x)))"
proof (intro conjI impI)
  assume "loop_body ls = Inr ls1
      \<and> map_of (car_states (iteration_start ls)) cid = Some s
      \<and> is_active s
      \<and> energy_remaining s \<le> energy_consumed (iteration_start ls) cid
      \<and> run_loop n ls1 = Inr ls2"
  then show "\<exists>s1 s2. map_of (car_states (sim_of ls1)) cid = Some s1
            \<and> \<not> is_active s1 \<and> energy_remaining s1 = 0
            \<and> map_of (car_states (sim_of ls2)) cid = Some s2
            \<and> \<not> is_active s2 \<and> energy_remaining s2 = 0
            \<and> speed s2 = speed s1 \<and> track_distance s2 = track_distance s1
            \<and> lap s2 = lap s1"
    using depleted_car_is_retired [of ls ls1 cid s n ls2] by blast
next
  assume "loop_body la = Inr lb
        \<and> (\<forall>x \<in> set (car_states (sim_of la)). 0 \<le> energy_remaining (snd x))"
  then show "\<forall>x \<in> set (car_states (sim_of lb)). 0 \<le> energy_remaining (snd x)"
    using cars_step_energy [OF loop_body_cars] by blast
next
  assume "run_loop k la = Inr lc
        \<and> (\<forall>x \<in> set (car_states (sim_of la)). 0 \<le> energy_remaining (snd x))"
  then show "\<forall>x \<in> set (car_states (sim_of lc)). 0 \<le> energy_remaining (snd x)"
    using cars_step_energy [OF run_loop_cars] by blast
next
  assume a: "sim_of l0 = initialize_cars m (RaceSimulator_init nc trk dur dt sd seeded g)
        \<and> run_loop k0 l0 = Inr l1"
  then have "\<forall>x \<in> set (car_states (sim_of l0)). 0 \<le> energy_remaining (snd x)"
    using initial_energy [of m nc trk dur dt sd seeded g] by simp
  with a show "\<forall>x \<in> set (car_states (sim_of l1)). 0 \<le> energy_remaining (snd x)"
    using cars_step_energy [OF run_loop_cars] by blast
qed

section \<open>The attack-mode manager through the race loop\<close>

lemma update_not_active: "state am \<noteq> ACTIVE \<Longrightarrow> update am t = (False, am)"
  by (simp add: update_def)

lemma update_all_not_active:
  assumes "\<forall>x \<in> set (attack_modes mgr). state (snd x) \<noteq> ACTIVE"
  shows "update_all mgr t = mgr"
proof -
  have "map (\<lambda>(cid, am). (cid, snd (update am t))) (attack_modes mgr) = attack_modes mgr"
    using assms by (intro map_idI) (auto simp: update_not_active)
  then show ?thesis by (simp add: update_all_def)
qed

lemma loop_body_manager:
  assumes "loop_body ls = Inr ls'"
    and "\<forall>x \<in> set (attack_modes (attack_mode_manager (sim_of ls))). state (snd x) \<noteq> ACTIVE"
  shows "attack_mode_manager (sim_of ls') = attack_mode_manager (sim_of ls)"
proof -
  from assms(1) obtain sim3 sim4 sim5 where
    s3: "update_cars (iteration_start ls) = Inr sim3" and
    s4: "update_positions sim3 = Inr sim4" and
    s5: "check_overtaking sim4 = Inr sim5" and
    fin: "attack_mode_manager (sim_of ls') = attack_mode_manager (update_attack_modes sim5)"
    by (rule loop_body_steps)
  have m5: "attack_mode_manager sim5 = attack_mode_manager (sim_of ls)"
    using update_cars_manager [OF s3] update_positions_manager [OF s4]
      check_overtaking_manager [OF s5] iteration_start_manager [of ls]
    by simp
  with assms(2) show ?thesis
    by (simp add: fin update_attack_modes_def update_all_not_active)
qed

lemma run_loop_manager:
  "run_loop n ls = Inr ls'
     \<Longrightarrow> \<forall>x \<in> set (attack_modes (attack_mode_manager (sim_of ls))). state (snd x) \<noteq> ACTIVE
     \<Longrightarrow> attack_mode_manager (sim_of ls') = attack_mode_manager (sim_of ls)"
proof (induction n arbitrary: ls)
  case 0
  then show ?case by simp
next
  case (Suc n)
  show ?case
  proof (cases "race_finished ls")
    case True
    with Suc.prems show ?thesis by simp
  next
    case False
    with Suc.prems obtain mid where
      b: "loop_body ls = Inr mid" and r: "run_loop n mid = Inr ls'"
      by (auto simp: bind_err_Inr)
    from loop_body_manager [OF b Suc.prems(2)]
    have m: "attack_mode_manager (sim_of mid) = attack_mode_manager (sim_of ls)" .
    with Suc.IH [OF r] Suc.prems(2) show ?thesis by simp
  qed
qed

lemma create_attack_modes_fresh:
  assumes "\<forall>x \<in> set acc. state (snd x) = AVAILABLE \<and> activation_history (snd x) = []
                          \<and> base_power_kw (snd x) = 200"
  shows "\<forall>x \<in> set (fst (create_attack_modes cids zs ze sd seeded g acc)).
           state (snd x) = AVAILABLE \<and> activation_history (snd x) = []
           \<and> base_power_kw (snd x) = 200"
  using assms
proof (induction cids arbitrary: g acc)
  case Nil
  then show ?case by simp
next
  case (Cons cid cids)
  let ?am = "fst (AttackMode_init cid zs ze 200 sd seeded g)"
  have am: "state ?am = AVAILABLE \<and> activation_history ?am = [] \<and> base_power_kw ?am = 200"
    by (simp add: AttackMode_init_def Let_def split_beta)
  have "\<forall>x \<in> set (AList.update cid ?am acc). state (snd x) = AVAILABLE
          \<and> activation_history (snd x) = [] \<and> base_power_kw (snd x) = 200"
    using Cons.prems am set_alist_update [of cid ?am acc] by auto
  from Cons.IH [OF this] show ?case
    by (simp add: split_beta)
qed

lemma manager_init_fresh:
  "\<forall>x \<in> set (attack_modes (fst (AttackModeManager_init n len zs ze sd seeded g))).
     state (snd x) = AVAILABLE \<and> activation_history (snd x) = [] \<and> base_power_kw (snd x) = 200"
  using create_attack_modes_fresh [of "[]"]
  by (simp add: AttackModeManager_init_def Let_def split_beta)

lemma simulator_init_manager:
  "attack_mode_manager (RaceSimulator_init n trk dur dt sd seeded g) =
     fst (AttackModeManager_init n (track_length trk) None None sd seeded
            (case sd of None \<Rightarrow> g | Some x \<Rightarrow> seeded x))"
  by (simp add: RaceSimulator_init_def Let_def split_beta)

lemma initialize_cars_loop_manager:
  "attack_mode_manager (initialize_cars_loop cids m sim) = attack_mode_manager sim"
  by (induction cids arbitrary: sim) (simp_all add: split_beta)

lemma initialize_cars_manager:
  "attack_mode_manager (initialize_cars m sim) = attack_mode_manager sim"
  by (simp add: initialize_cars_def initialize_cars_loop_manager)

lemma fresh_power:
  assumes "\<forall>x \<in> set (attack_modes mgr). state (snd x) = AVAILABLE \<and> base_power_kw (snd x) = 200"
  shows "mgr_get_power_kw mgr cid = 200"
proof (cases "map_of (attack_modes mgr) cid")
  case None
  then show ?thesis by (simp add: mgr_get_power_kw_def)
next
  case (Some am)
  then have "(cid, am) \<in> set (attack_modes mgr)" by (rule map_of_SomeD)
  with assms have "state am = AVAILABLE" "base_power_kw am = 200" by auto
  with Some show ?thesis
    by (simp add: mgr_get_power_kw_def get_power_kw_def am_is_active_def)
qed

text \<open>
  C10. The body of the race loop calls the manager's \<open>get_power_kw\<close>, \<open>is_active\<close> and
  \<open>update_all\<close> and nothing else of it. Starting from the manager the simulator's
  constructor builds, after any number of iterations the manager is what it was: every
  controller is AVAILABLE, every activation history is empty, and \<open>get_power_kw\<close>
  returns 200 for every car.
\<close>

theorem attack_mode_never_activated:
  assumes "attack_mode_manager (sim_of ls) =
             attack_mode_manager (RaceSimulator_init n trk dur dt sd seeded g)"
    and "run_loop k ls = Inr ls'"
  shows "attack_mode_manager (sim_of ls') = attack_mode_manager (sim_of ls)
         \<and> list_all (\<lambda>x. state (snd x) = AVAILABLE \<and> activation_history (snd x) = [])
             (attack_modes (attack_mode_manager (sim_of ls')))
         \<and> (\<forall>cid. mgr_get_power_kw (attack_mode_manager (sim_of ls')) cid = 200)"
proof -
  have fresh: "\<forall>x \<in> set (attack_modes (attack_mode_manager (sim_of ls))).
                 state (snd x) = AVAILABLE \<and> activation_history (snd x) = []
                 \<and> base_power_kw (snd x) = 200"
    unfolding assms(1) simulator_init_manager by (rule manager_init_fresh)
  then have "\<forall>x \<in> set (attack_modes (attack_mode_manager (sim_of ls))). state (snd x) \<noteq> ACTIVE"
    by simp
  from run_loop_manager [OF assms(2) this]
  have same: "attack_mode_manager (sim_of ls') = attack_mode_manager (sim_of ls)" .
  from fresh have "\<forall>cid. mgr_get_power_kw (attack_mode_manager (sim_of ls)) cid = 200"
    by (intro allI fresh_power) simp
  with same fresh show ?thesis
    by (simp add: list_all_iff)
qed

section \<open>Position ranks\<close>

lemma ranks_map_entry:
  "map_of cs k = Some s
     \<Longrightarrow> mset (ranks (AList.map_entry k (\<lambda>s. s\<lparr>position := v\<rparr>) cs)) + {#position s#}
         = mset (ranks cs) + {#v#}"
  by (induction cs) (auto simp: ranks_def)

lemma map_of_map_entry_other:
  "k' \<noteq> k \<Longrightarrow> map_of (AList.map_entry k f cs) k' = map_of cs k'"
  by (induction cs) auto

lemma map_of_map_entry_same:
  "map_of (AList.map_entry k f cs) k = map_option f (map_of cs k)"
  by (induction cs) auto

lemma keys_map_entry: "map fst (AList.map_entry k f cs) = map fst cs"
  by (induction cs) auto

text \<open>The ranks before the loop of the cars still to be assigned, plus the ranks after
  it, are the ranks before it plus the new ranks \<open>p, p + 1, \<dots>\<close>.\<close>

lemma assign_positions_ranks:
  assumes "distinct (map fst xs)" and "\<forall>k \<in> set (map fst xs). map_of cs k \<noteq> None"
  shows "mset (ranks (fst (assign_positions p xs (cs, ps))))
           + mset (map (\<lambda>k. position (the (map_of cs k))) (map fst xs))
         = mset (ranks cs) + mset (map (\<lambda>i. p + int i) [0..<length xs])"
  using assms
proof (induction xs arbitrary: p cs ps)
  case Nil
  then show ?case by simp
next
  case (Cons x xs)
  obtain c s0 where x: "x = (c, s0)" by (cases x)
  let ?cs1 = "AList.map_entry c (\<lambda>s. s\<lparr>position := p\<rparr>) cs"
  from Cons.prems obtain s where s: "map_of cs c = Some s" by (auto simp: x)
  have notin: "c \<notin> set (map fst xs)" and d: "distinct (map fst xs)"
    using Cons.prems(1) by (simp_all add: x)
  have dom: "\<forall>k \<in> set (map fst xs). map_of ?cs1 k \<noteq> None"
  proof
    fix k assume k: "k \<in> set (map fst xs)"
    with notin have "k \<noteq> c" by auto
    then have "map_of ?cs1 k = map_of cs k" by (rule map_of_map_entry_other)
    moreover from k Cons.prems(2) have "map_of cs k \<noteq> None" by (auto simp: x)
    ultimately show "map_of ?cs1 k \<noteq> None" by simp
  qed
  have old: "map (\<lambda>k. position (the (map_of ?cs1 k))) (map fst xs)
             = map (\<lambda>k. position (the (map_of cs k))) (map fst xs)"
  proof (rule map_cong [OF refl])
    fix k assume "k \<in> set (map fst xs)"
    with notin have "k \<noteq> c" by auto
    then show "position (the (map_of ?cs1 k)) = position (the (map_of cs k))"
      by (simp add: map_of_map_entry_other)
  qed
  define A where "A = mset (ranks (fst (assign_positions (p + 1) xs (?cs1, AList.update c p ps))))"
  define B where "B = mset (map (\<lambda>k. position (the (map_of cs k))) (map fst xs))"
  define C where "C = mset (map (\<lambda>i. p + 1 + int i) [0..<length xs])"
  have ih: "A + B = mset (ranks ?cs1) + C"
    using Cons.IH [OF d dom, of "p + 1" "AList.update c p ps"]
    unfolding old A_def B_def C_def .
  have new: "mset (map (\<lambda>i. p + int i) [0..<length (x # xs)]) = {#p#} + C"
    unfolding C_def by (simp add: map_upt_Suc add.assoc del: upt_Suc)
  have lhs: "mset (map (\<lambda>k. position (the (map_of cs k))) (map fst (x # xs)))
             = {#position s#} + B"
    unfolding B_def by (simp add: x s)
  have res: "mset (ranks (fst (assign_positions p (x # xs) (cs, ps)))) = A"
    unfolding A_def by (simp add: x)
  from ranks_map_entry [OF s, of p]
  have one: "mset (ranks ?cs1) + {#position s#} = mset (ranks cs) + {#p#}" .
  have "A + ({#position s#} + B) = (A + B) + {#position s#}"
    by (simp add: ac_simps)
  also have "\<dots> = (mset (ranks ?cs1) + {#position s#}) + C"
    unfolding ih by (simp add: ac_simps)
  also have "\<dots> = mset (ranks cs) + ({#p#} + C)"
    unfolding one by (simp add: ac_simps)
  finally show ?case
    unfolding res lhs new .
qed

lemma ranks_by_lookup:
  "distinct (map fst cs) \<Longrightarrow> map (\<lambda>k. position (the (map_of cs k))) (map fst cs) = ranks cs"
proof (induction cs)
  case Nil
  show ?case by (simp add: ranks_def)
next
  case (Cons x cs)
  obtain c s where x: "x = (c, s)" by (cases x)
  from Cons.prems have notin: "c \<notin> set (map fst cs)" and d: "distinct (map fst cs)"
    by (simp_all add: x)
  have "map (\<lambda>k. position (the (map_of (x # cs) k))) (map fst cs)
        = map (\<lambda>k. position (the (map_of cs k))) (map fst cs)"
  proof (rule map_cong [OF refl])
    fix k assume "k \<in> set (map fst cs)"
    with notin have "k \<noteq> c" by auto
    then show "position (the (map_of (x # cs) k)) = position (the (map_of cs k))"
      by (simp add: x)
  qed
  with Cons.IH [OF d] show ?case
    by (simp add: x ranks_def)
qed

lemma keys_assign_positions: "map fst (fst (assign_positions p xs (cs, ps))) = map fst cs"
  by (induction xs arbitrary: p cs ps) (auto simp: keys_map_entry)

lemma mset_py_sorted_reverse: "mset (py_sorted_reverse f xs) = mset xs"
  by (simp add: py_sorted_reverse_def)

text \<open>After the assignment over the sorted dictionary, the ranks are a permutation of
  \<open>1, \<dots>, N\<close>.\<close>

lemma assign_sorted_ranks:
  assumes "distinct (map fst cs)"
  shows "mset (ranks (fst (assign_positions 1 (py_sorted_reverse f cs) (cs, ps))))
         = mset (map (\<lambda>i. 1 + int i) [0..<length cs])"
proof -
  let ?xs = "py_sorted_reverse f cs"
  have perm: "mset (map fst ?xs) = mset (map fst cs)"
    by (simp add: mset_py_sorted_reverse)
  then have d: "distinct (map fst ?xs)"
    using assms by (metis mset_eq_imp_distinct_iff)
  have keys: "set (map fst ?xs) = set (map fst cs)"
    using perm by (rule mset_eq_setD)
  have dom: "\<forall>k \<in> set (map fst ?xs). map_of cs k \<noteq> None"
    unfolding keys by (auto simp: map_of_eq_None_iff)
  have len: "length ?xs = length cs"
    using perm by (metis length_map size_mset)
  have "mset (map (\<lambda>k. position (the (map_of cs k))) (map fst ?xs))
        = image_mset (\<lambda>k. position (the (map_of cs k))) (mset (map fst ?xs))"
    by (simp only: mset_map)
  also have "\<dots> = mset (map (\<lambda>k. position (the (map_of cs k))) (map fst cs))"
    unfolding perm by (simp only: mset_map)
  also have "\<dots> = mset (ranks cs)"
    by (simp only: ranks_by_lookup [OF assms])
  finally have old: "mset (map (\<lambda>k. position (the (map_of cs k))) (map fst ?xs)) = mset (ranks cs)" .
  from assign_positions_ranks [OF d dom, of 1 ps]
  have "mset (ranks (fst (assign_positions 1 ?xs (cs, ps)))) + mset (ranks cs)
        = mset (ranks cs) + mset (map (\<lambda>i. 1 + int i) [0..<length cs])"
    unfolding old len .
  then show ?thesis
    by (metis add.commute add_right_cancel)
qed

lemma ranks_permutation:
  assumes "mset (ranks cs) = mset (map (\<lambda>i. 1 + int i) [0..<length cs])"
  shows "distinct (ranks cs) \<and> set (ranks cs) = {1..int (length cs)}"
proof -
  have "distinct (map (\<lambda>i. 1 + int i) [0..<length cs])"
    by (simp add: distinct_map inj_on_def)
  then have d: "distinct (ranks cs)"
    using assms by (metis mset_eq_imp_distinct_iff)
  have "set (ranks cs) = set (map (\<lambda>i. 1 + int i) [0..<length cs])"
    using assms by (rule mset_eq_setD)
  also have "\<dots> = {1..int (length cs)}"
  proof (rule set_eqI)
    fix r :: int
    show "r \<in> set (map (\<lambda>i. 1 + int i) [0..<length cs]) \<longleftrightarrow> r \<in> {1..int (length cs)}"
    proof
      assume "r \<in> set (map (\<lambda>i. 1 + int i) [0..<length cs])"
      then show "r \<in> {1..int (length cs)}" by auto
    next
      assume r: "r \<in> {1..int (length cs)}"
      then have "nat (r - 1) < length cs" "r = 1 + int (nat (r - 1))" by auto
      then show "r \<in> set (map (\<lambda>i. 1 + int i) [0..<length cs])"
        by (metis (mono_tags, lifting) atLeast0LessThan imageI lessThan_iff set_map set_upt)
    qed
  qed
  finally show ?thesis using d by simp
qed

lemma calculate_gaps_ranks:
  "calculate_gaps sim = Inr sim' \<Longrightarrow> ranks (car_states sim') = ranks (car_states sim)"
  by (auto simp: calculate_gaps_def bind_err_Inr ranks_def calculate_gap_def Let_def)

lemma update_positions_ranks:
  assumes "distinct (map fst (car_states sim))" and "update_positions sim = Inr sim'"
  shows "mset (ranks (car_states sim'))
         = mset (map (\<lambda>i. 1 + int i) [0..<length (car_states sim')])"
proof -
  let ?xs = "py_sorted_reverse sort_key_of (car_states sim)"
  let ?r = "assign_positions 1 ?xs (car_states sim, positions (race_state sim))"
  let ?rs1 = "(race_state sim)\<lparr>positions := snd ?r\<rparr>"
  let ?mid = "sim\<lparr>car_states := fst ?r,
                   race_state := (case ?xs of [] \<Rightarrow> ?rs1 | x # xs \<Rightarrow> ?rs1\<lparr>leader_id := fst x\<rparr>)\<rparr>"
  have g: "calculate_gaps ?mid = Inr sim'"
    using assms(2) by (simp add: update_positions_def Let_def split_beta)
  have "ranks (car_states sim') = ranks (fst ?r)"
    using calculate_gaps_ranks [OF g] by simp
  moreover have "length (car_states sim') = length (car_states sim)"
    using cars_step_keys [OF update_positions_step [OF assms(2)]] by (metis length_map)
  ultimately show ?thesis
    using assign_sorted_ranks [OF assms(1), of sort_key_of "positions (race_state sim)"]
    by simp
qed

lemma swap_positions_ranks:
  assumes "swap_positions a d cs = Inr cs'"
  shows "mset (ranks cs') = mset (ranks cs)"
proof -
  from assms obtain sd sa where
    sd: "map_of cs d = Some sd" and sa: "map_of cs a = Some sa" and
    cs': "cs' = AList.map_entry d (\<lambda>s. s\<lparr>position := position sa\<rparr>)
                  (AList.map_entry a (\<lambda>s. s\<lparr>position := position sd\<rparr>) cs)"
    by (auto simp: swap_positions_def bind_err_Inr dict_get_def Let_def split: option.splits)
  let ?cs1 = "AList.map_entry a (\<lambda>s. s\<lparr>position := position sd\<rparr>) cs"
  have one: "mset (ranks ?cs1) + {#position sa#} = mset (ranks cs) + {#position sd#}"
    by (rule ranks_map_entry [OF sa])
  obtain sd1 where sd1: "map_of ?cs1 d = Some sd1" and p1: "position sd1 = position sd"
  proof (cases "d = a")
    case True
    with sa have "map_of ?cs1 d = Some (sa\<lparr>position := position sd\<rparr>)"
      by (simp add: map_of_map_entry_same)
    then show ?thesis by (rule that) simp
  next
    case False
    with sd have "map_of ?cs1 d = Some sd"
      by (simp add: map_of_map_entry_other)
    then show ?thesis by (rule that) simp
  qed
  have two: "mset (ranks cs') + {#position sd#} = mset (ranks ?cs1) + {#position sa#}"
    unfolding cs' using ranks_map_entry [OF sd1, of "position sa"] by (simp add: p1)
  from two one show ?thesis
    by (metis add_right_cancel)
qed

lemma overtake_pair_ranks:
  "overtake_pair mgr now d a (cs, om, g) = Inr (cs', om', g') \<Longrightarrow> mset (ranks cs') = mset (ranks cs)"
  by (auto simp: overtake_pair_def Let_def bind_err_Inr split: if_splits
      dest: swap_positions_ranks)

lemma overtaking_loop_ranks:
  "overtaking_loop mgr now xs acc = Inr acc' \<Longrightarrow> mset (ranks (fst acc')) = mset (ranks (fst acc))"
proof (induction mgr now xs acc arbitrary: acc' rule: overtaking_loop.induct)
  case (1 mgr now defender attacker rest acc)
  from "1.prems" obtain mid where
    p: "overtake_pair mgr now defender attacker acc = Inr mid" and
    r: "overtaking_loop mgr now (attacker # rest) mid = Inr acc'"
    by (auto simp: bind_err_Inr)
  have "mset (ranks (fst mid)) = mset (ranks (fst acc))"
    using overtake_pair_ranks [of mgr now defender attacker "fst acc" "fst (snd acc)"
        "snd (snd acc)" "fst mid" "fst (snd mid)" "snd (snd mid)"] p
    by simp
  with "1.IH" [OF r] show ?case by simp
qed simp_all

lemma check_overtaking_ranks:
  "check_overtaking sim = Inr sim' \<Longrightarrow> mset (ranks (car_states sim')) = mset (ranks (car_states sim))"
  by (auto simp: check_overtaking_def Let_def bind_err_Inr dest!: overtaking_loop_ranks)

lemma lap_completion_loop_ranks: "ranks (fst (lap_completion_loop dt cs cur)) = ranks cs"
  by (induction cs arbitrary: cur) (auto simp: ranks_def split_beta complete_lap_def Let_def)

lemma check_lap_completion_ranks:
  "ranks (car_states (check_lap_completion sim)) = ranks (car_states sim)"
  by (simp add: check_lap_completion_def split_beta lap_completion_loop_ranks)

lemma active_ranks:
  assumes "distinct (ranks cs)" and "set (ranks cs) = {1..int (length cs)}"
  shows "distinct (ranks (filter (\<lambda>x. is_active (snd x)) cs))
         \<and> set (ranks (filter (\<lambda>x. is_active (snd x)) cs)) \<subseteq> {1..int (length cs)}"
proof -
  have "distinct (map (\<lambda>x. position (snd x)) (filter (\<lambda>x. is_active (snd x)) cs))"
    using assms(1) unfolding ranks_def by (rule distinct_map_filter)
  moreover have "set (ranks (filter (\<lambda>x. is_active (snd x)) cs)) \<subseteq> set (ranks cs)"
    by (auto simp: ranks_def)
  ultimately show ?thesis
    using assms(2) by (simp add: ranks_def)
qed

text \<open>
  C1 (as the code has it). In every iteration of the race loop that returns, right after
  the positions are recomputed and again at the end of the iteration, after the
  overtaking swaps, the ranks of all cars, active or retired, are exactly the set
  \<open>{1..N}\<close> for the \<open>N\<close> cars, with no rank given twice. The ranks of the active cars
  are therefore distinct members of \<open>{1..N}\<close>.
\<close>

theorem position_ranks_are_a_permutation:
  assumes "distinct (map fst (car_states (sim_of ls)))" and "loop_body ls = Inr ls'"
  shows "\<exists>sim3 sim4.
           update_cars (iteration_start ls) = Inr sim3 \<and> update_positions sim3 = Inr sim4
           \<and> distinct (ranks (car_states sim4))
           \<and> set (ranks (car_states sim4)) = {1..int (length (car_states sim4))}
           \<and> map fst (car_states (sim_of ls')) = map fst (car_states (sim_of ls))
           \<and> distinct (ranks (car_states (sim_of ls')))
           \<and> set (ranks (car_states (sim_of ls'))) = {1..int (length (car_states (sim_of ls')))}
           \<and> distinct (ranks (filter (\<lambda>x. is_active (snd x)) (car_states (sim_of ls'))))
           \<and> set (ranks (filter (\<lambda>x. is_active (snd x)) (car_states (sim_of ls'))))
               \<subseteq> {1..int (length (car_states (sim_of ls')))}"
proof -
  from assms(2) obtain sim3 sim4 sim5 where
    s3: "update_cars (iteration_start ls) = Inr sim3" and
    s4: "update_positions sim3 = Inr sim4" and
    s5: "check_overtaking sim4 = Inr sim5" and
    fin: "car_states (sim_of ls') = car_states (check_lap_completion (update_attack_modes sim5))"
    by (rule loop_body_steps)
  have k3: "map fst (car_states sim3) = map fst (car_states (sim_of ls))"
    using cars_step_keys [OF iteration_start_cars [of ls]] cars_step_keys [OF update_cars_step [OF s3]]
    by simp
  with assms(1) have d3: "distinct (map fst (car_states sim3))" by simp
  have r4: "mset (ranks (car_states sim4))
            = mset (map (\<lambda>i. 1 + int i) [0..<length (car_states sim4)])"
    by (rule update_positions_ranks [OF d3 s4])
  have k4: "map fst (car_states sim4) = map fst (car_states sim3)"
    by (rule cars_step_keys [OF update_positions_step [OF s4]])
  have k5: "map fst (car_states sim5) = map fst (car_states sim4)"
    by (rule cars_step_keys [OF check_overtaking_step [OF s5]])
  have kf: "map fst (car_states (sim_of ls')) = map fst (car_states sim5)"
    using cars_step_keys [OF check_lap_completion_step [of "update_attack_modes sim5"]]
    by (simp add: fin update_attack_modes_def)
  have keys: "map fst (car_states (sim_of ls')) = map fst (car_states (sim_of ls))"
    using kf k5 k4 k3 by simp
  have len: "length (car_states (sim_of ls')) = length (car_states sim4)"
    using kf k5 by (metis length_map)
  have "ranks (car_states (sim_of ls')) = ranks (car_states sim5)"
    using check_lap_completion_ranks [of "update_attack_modes sim5"]
    by (simp add: fin update_attack_modes_def)
  with check_overtaking_ranks [OF s5] r4
  have rf: "mset (ranks (car_states (sim_of ls')))
            = mset (map (\<lambda>i. 1 + int i) [0..<length (car_states (sim_of ls'))])"
    by (simp add: len)
  note p4 = ranks_permutation [OF r4] and pf = ranks_permutation [OF rf]
  from active_ranks [of "car_states (sim_of ls')"] pf
  have act: "distinct (ranks (filter (\<lambda>x. is_active (snd x)) (car_states (sim_of ls'))))
             \<and> set (ranks (filter (\<lambda>x. is_active (snd x)) (car_states (sim_of ls'))))
                 \<subseteq> {1..int (length (car_states (sim_of ls')))}"
    by blast
  from s3 s4 p4 keys pf act show ?thesis
    by blast
qed

section \<open>The keys of the car dictionary\<close>

lemma alist_update_fresh: "k \<notin> fst ` set al \<Longrightarrow> AList.update k v al = al @ [(k, v)]"
  by (induction al) auto

lemma initialize_cars_loop_keys:
  "distinct cids \<Longrightarrow> set cids \<inter> fst ` set (car_states sim) = {}
     \<Longrightarrow> map fst (car_states (initialize_cars_loop cids m sim))
         = map fst (car_states sim) @ cids"
proof (induction cids arbitrary: sim)
  case Nil
  then show ?case by simp
next
  case (Cons c cids)
  let ?g2 = "snd (np_uniform (97 / 100) (103 / 100) (snd (np_uniform (98 / 100) (102 / 100) (generator sim))))"
  let ?sim1 = "sim\<lparr>cars := AList.update c (m * fst (np_uniform (98 / 100) (102 / 100) (generator sim)))
                              (cars sim),
                    car_states := AList.update c (initial_car_state c) (car_states sim),
                    generator := ?g2\<rparr>"
  from Cons.prems have fresh: "c \<notin> fst ` set (car_states sim)" by auto
  then have cs1: "car_states ?sim1 = car_states sim @ [(c, initial_car_state c)]"
    by (simp add: alist_update_fresh)
  have d: "distinct cids" using Cons.prems(1) by simp
  have disj: "set cids \<inter> fst ` set (car_states ?sim1) = {}"
    using Cons.prems unfolding cs1 by auto
  from Cons.IH [OF d disj] show ?case
    unfolding cs1 by (simp add: split_beta)
qed

lemma initial_keys:
  "map fst (car_states (initialize_cars m (RaceSimulator_init n trk dur dt sd seeded g)))
     = [0..n - 1]"
proof -
  have "car_states (RaceSimulator_init n trk dur dt sd seeded g) = []"
    by (simp add: RaceSimulator_init_def Let_def split_beta)
  moreover have "num_cars (RaceSimulator_init n trk dur dt sd seeded g) = n"
    by (simp add: RaceSimulator_init_def Let_def split_beta)
  ultimately show ?thesis
    using initialize_cars_loop_keys
      [of "[0..n - 1]" "RaceSimulator_init n trk dur dt sd seeded g" m]
    by (simp add: initialize_cars_def)
qed

lemma run_loop_keys:
  "run_loop k ls = Inr ls'
     \<Longrightarrow> map fst (car_states (sim_of ls')) = map fst (car_states (sim_of ls))"
  by (rule cars_step_keys [OF run_loop_cars])

text \<open>From the state \<open>run_race\<close> starts the loop in, the keys of the car dictionary are
  \<open>0, \<dots>, n - 1\<close> at every iteration: distinct, as the rank theorem asks.\<close>

lemma keys_during_race:
  assumes "sim_of ls = initialize_cars m (RaceSimulator_init n trk dur dt sd seeded g)"
    and "run_loop k ls = Inr ls'"
  shows "map fst (car_states (sim_of ls')) = [0..n - 1]
         \<and> distinct (map fst (car_states (sim_of ls')))"
  using run_loop_keys [OF assms(2)] initial_keys [of m n trk dur dt sd seeded g]
  by (simp add: assms(1))

section \<open>The loop on concrete states\<close>

lemma const_rng_apply: "const_rng u n = u"
  by (simp add: const_rng_def)

lemma example_sim_init:
  "initialize_cars 880
     (RaceSimulator_init 2 example_track 45 (1 / 2) (Some 42) example_seeding (const_rng (1 / 2)))
   = \<lparr>num_cars = 2, time_step = 1 / 2, race_duration_minutes = 45,
      track = \<lparr>track_length = 2500, stepsize = 5, no_points = 500, mu = [1],
                pars_mu_weather = 1\<rparr>,
      cars = [(0, 880), (1, 880)],
      car_states = [(0, initial_car_state 0), (1, initial_car_state 1)],
      race_events = RaceEvents_init 2 2500,
      overtaking = OvertakingModel_init 2500,
      attack_mode_manager =
        \<lparr>mgr_num_cars = 2, mgr_track_length = 2500, mgr_activation_zone_start = 500,
         mgr_activation_zone_end = 625,
         attack_modes =
           [(0, \<lparr>am_car_id = 0, activation_zone_start = 500, activation_zone_end = 625,
                 base_power_kw = 200, attack_mode_power_kw = 250, max_activations = 2,
                 activation_duration = 240, activation_time_loss = 3 / 4, state = AVAILABLE,
                 activations_remaining = 2, current_activation_start_time = None,
                 current_activation_lap = None, activation_history = []\<rparr>),
            (1, \<lparr>am_car_id = 1, activation_zone_start = 500, activation_zone_end = 625,
                 base_power_kw = 200, attack_mode_power_kw = 250, max_activations = 2,
                 activation_duration = 240, activation_time_loss = 3 / 4, state = AVAILABLE,
                 activations_remaining = 2, current_activation_start_time = None,
                 current_activation_lap = None, activation_history = []\<rparr>)]\<rparr>,
      race_state = \<lparr>rs_race_time = 0, current_lap = 0, leader_id = 0, positions = [],
                      rs_safety_car_active = False, rs_weather_dry = True, rs_mu_weather = 1\<rparr>,
      race_history = [], position_history = [], last_lap_checked = None,
      generator = const_rng (1 / 2)\<rparr>"
  unfolding initialize_cars_def RaceSimulator_init_def AttackModeManager_init_def
  by (simp add: upto.simps Let_def AttackMode_init_def np_uniform_def example_seeding_def
      rng_tail_const example_track_def const_rng_apply)

lemmas loop_eval =
  loop_body_def iteration_start_def update_race_events_def update_safety_car_def
  update_cars_def update_car_def car_speed_def update_energy_def energy_consumed_def
  get_safety_car_speed_def bind_err_def py_div_def py_fmod_def py_int_def dict_get_def
  mgr_get_power_kw_def get_power_kw_def am_is_active_def
  update_positions_def py_sorted_reverse_def sort_key_of_def calculate_gaps_def calculate_gap_def
  check_overtaking_def overtake_pair_def update_attack_modes_def update_all_def update_def
  check_lap_completion_def complete_lap_def store_history_def append_history_def
  RaceEvents_init_def OvertakingModel_init_def initial_car_state_def Let_def

lemma example_iteration:
  "\<exists>ls'. loop_body example_loop_state = Inr ls'
         \<and> map (\<lambda>x. (fst x, is_active (snd x), position (snd x))) (car_states (sim_of ls'))
             = [(0, True, 2), (1, False, 1)]
         \<and> ranks (filter (\<lambda>x. is_active (snd x)) (car_states (sim_of ls'))) = [2]"
  by (simp add: example_loop_state_def example_sim_def example_sim_init loop_eval ranks_def)

lemma low_energy_iterations:
  "\<exists>ls1 ls2. loop_body low_energy_loop_state = Inr ls1 \<and> run_loop (Suc 0) ls1 = Inr ls2"
  by (simp add: low_energy_loop_state_def example_loop_state_def example_sim_def
      example_sim_init loop_eval)

lemma low_energy_start:
  "map_of (car_states (iteration_start low_energy_loop_state)) 0
     = Some ((initial_car_state 0)\<lparr>position := 2, lap := 2, track_distance := 900,
                                    speed := 50, energy_remaining := 100000\<rparr>)
   \<and> energy_consumed (iteration_start low_energy_loop_state) 0 = 1000000 / 9"
  by (simp add: low_energy_loop_state_def example_loop_state_def example_sim_def
      example_sim_init loop_eval)

theorem position_ranks_are_a_permutation_witness:
  "distinct (map fst (car_states (sim_of example_loop_state)))
   \<and> (\<exists>ls'. loop_body example_loop_state = Inr ls'
          \<and> map fst (car_states (sim_of ls')) = [0, 1]
          \<and> distinct (ranks (car_states (sim_of ls')))
          \<and> set (ranks (car_states (sim_of ls'))) = {1..2})"
proof -
  have k: "map fst (car_states (sim_of example_loop_state)) = [0, 1]"
    by (simp add: example_loop_state_def example_sim_def)
  then have d: "distinct (map fst (car_states (sim_of example_loop_state)))"
    by simp
  from example_iteration obtain ls' where b: "loop_body example_loop_state = Inr ls'"
    by blast
  from position_ranks_are_a_permutation [OF d b] have
    keys: "map fst (car_states (sim_of ls')) = [0, 1]" and
    dist: "distinct (ranks (car_states (sim_of ls')))" and
    rng: "set (ranks (car_states (sim_of ls'))) = {1..int (length (car_states (sim_of ls')))}"
    unfolding k by blast+
  from keys have "length (car_states (sim_of ls')) = 2"
    by (metis length_map length_Cons list.size(3) numeral_2_eq_2)
  with rng have "set (ranks (car_states (sim_of ls'))) = {1..2}" by simp
  with b keys dist have "\<exists>ls'. loop_body example_loop_state = Inr ls'
          \<and> map fst (car_states (sim_of ls')) = [0, 1]
          \<and> distinct (ranks (car_states (sim_of ls')))
          \<and> set (ranks (car_states (sim_of ls'))) = {1..2}"
    by (intro exI [of _ ls']) simp
  with d show ?thesis by (rule conjI)
qed

text \<open>Where the claim fails: after an iteration from the example state the only active
  car, car 0, has rank 2; rank 1 belongs to the retired car 1, which is further along.
  The positions are recomputed over all cars, not over the active ones.\<close>

theorem position_ranks_are_a_permutation_counterexample:
  "map_sum id (\<lambda>ls'. ranks (filter (\<lambda>x. is_active (snd x)) (car_states (sim_of ls'))))
     (loop_body example_loop_state) = Inr [2]"
proof -
  from example_iteration obtain ls' where
    "loop_body example_loop_state = Inr ls'"
    "ranks (filter (\<lambda>x. is_active (snd x)) (car_states (sim_of ls'))) = [2]"
    by blast
  then show ?thesis by simp
qed

theorem energy_depletion_retires_car_witness:
  "(\<exists>ls1 ls2 s1 s2.
      loop_body low_energy_loop_state = Inr ls1 \<and> run_loop (Suc 0) ls1 = Inr ls2
      \<and> map_of (car_states (sim_of ls1)) 0 = Some s1
      \<and> \<not> is_active s1 \<and> energy_remaining s1 = 0
      \<and> map_of (car_states (sim_of ls2)) 0 = Some s2
      \<and> \<not> is_active s2 \<and> energy_remaining s2 = 0
      \<and> speed s2 = speed s1 \<and> track_distance s2 = track_distance s1 \<and> lap s2 = lap s1
      \<and> list_all (\<lambda>x. 0 \<le> energy_remaining (snd x)) (car_states (sim_of ls1))
      \<and> list_all (\<lambda>x. 0 \<le> energy_remaining (snd x)) (car_states (sim_of ls2)))
   \<and> (\<exists>l1. run_loop (Suc 0) example_loop_state = Inr l1
         \<and> list_all (\<lambda>x. 0 \<le> energy_remaining (snd x)) (car_states (sim_of l1)))"
proof -
  from low_energy_iterations obtain ls1 ls2 where
    b: "loop_body low_energy_loop_state = Inr ls1" and l: "run_loop (Suc 0) ls1 = Inr ls2"
    by blast
  let ?s = "(initial_car_state 0)\<lparr>position := 2, lap := 2, track_distance := 900,
                                    speed := 50, energy_remaining := 100000\<rparr>"
  from low_energy_start have
    car: "map_of (car_states (iteration_start low_energy_loop_state)) 0 = Some ?s" and
    e: "energy_consumed (iteration_start low_energy_loop_state) 0 = 1000000 / 9"
    by blast+
  have active: "is_active ?s" by (simp add: initial_car_state_def)
  have depleted: "energy_remaining ?s \<le> energy_consumed (iteration_start low_energy_loop_state) 0"
    by (simp add: e)
  have nonneg: "\<forall>x \<in> set (car_states (sim_of low_energy_loop_state)). 0 \<le> energy_remaining (snd x)"
    by (simp add: low_energy_loop_state_def initial_car_state_def)
  note t = energy_depletion_retires_car
    [of low_energy_loop_state ls1 0 ?s "Suc 0" ls2 low_energy_loop_state ls1 "Suc 0" ls2]
  from t b car active depleted l
  have first: "\<exists>s1 s2. map_of (car_states (sim_of ls1)) 0 = Some s1
            \<and> \<not> is_active s1 \<and> energy_remaining s1 = 0
            \<and> map_of (car_states (sim_of ls2)) 0 = Some s2
            \<and> \<not> is_active s2 \<and> energy_remaining s2 = 0
            \<and> speed s2 = speed s1 \<and> track_distance s2 = track_distance s1
            \<and> lap s2 = lap s1"
    by blast
  from t b nonneg
  have n1: "list_all (\<lambda>x. 0 \<le> energy_remaining (snd x)) (car_states (sim_of ls1))"
    unfolding list_all_iff by blast
  have "\<not> race_finished low_energy_loop_state"
    by (simp add: low_energy_loop_state_def example_loop_state_def)
  with b l have r2: "run_loop (Suc (Suc 0)) low_energy_loop_state = Inr ls2"
    by (simp add: bind_err_def)
  from energy_depletion_retires_car
    [of low_energy_loop_state ls1 0 ?s "Suc 0" ls2 low_energy_loop_state ls1 "Suc (Suc 0)"
        ls2] r2 nonneg
  have n2: "list_all (\<lambda>x. 0 \<le> energy_remaining (snd x)) (car_states (sim_of ls2))"
    unfolding list_all_iff by blast
  from example_iteration obtain l1 where b1: "loop_body example_loop_state = Inr l1"
    by blast
  have "\<not> race_finished example_loop_state"
    by (simp add: example_loop_state_def)
  with b1 have r1: "run_loop (Suc 0) example_loop_state = Inr l1"
    by (simp add: bind_err_def)
  have nonneg1: "\<forall>x \<in> set (car_states (sim_of example_loop_state)).
                   0 \<le> energy_remaining (snd x)"
    by (simp add: example_loop_state_def example_sim_def initial_car_state_def)
  from energy_depletion_retires_car
    [of low_energy_loop_state ls1 0 ?s "Suc 0" ls2 example_loop_state l1 "Suc 0" l1] r1 nonneg1
  have n3: "list_all (\<lambda>x. 0 \<le> energy_remaining (snd x)) (car_states (sim_of l1))"
    unfolding list_all_iff by blast
  from first b l n1 n2 r1 n3 show ?thesis
    by blast
qed

text \<open>Where the claim fails: the car state after the update of the car that runs dry.
  It is inactive with energy 0 and a new speed and distance; a car state has no field
  for a retirement reason, and nothing else of it has changed.\<close>

theorem energy_depletion_retires_car_counterexample:
  "update_car (sim_of low_energy_loop_state) PInf 0
     \<lparr>car_id = 0, position = 2, lap = 2, track_distance = 900, track_position_normalized = 0,
      speed = 50, energy_remaining = 100000, cs_race_time = 0, gap_to_leader = 0,
      gap_to_car_ahead = 0, gap_to_car_behind = 0, lap_times = [], is_active = True\<rparr>
   = Inr \<lparr>car_id = 0, position = 2, lap = 2, track_distance = 925,
           track_position_normalized = 37 / 100, speed = 50, energy_remaining = 0,
           cs_race_time = 0, gap_to_leader = 0, gap_to_car_ahead = 0, gap_to_car_behind = 0,
           lap_times = [], is_active = False\<rparr>"
  by (simp add: low_energy_loop_state_def example_loop_state_def example_sim_def
      example_sim_init loop_eval)

theorem attack_mode_never_activated_witness:
  "attack_mode_manager (sim_of example_loop_state)
     = attack_mode_manager (RaceSimulator_init 2 example_track 45 (1 / 2) (Some 42)
                              example_seeding (const_rng (1 / 2)))
   \<and> (\<exists>ls'. run_loop (Suc 0) example_loop_state = Inr ls'
          \<and> attack_mode_manager (sim_of ls') = attack_mode_manager (sim_of example_loop_state)
          \<and> list_all (\<lambda>x. state (snd x) = AVAILABLE \<and> activation_history (snd x) = [])
              (attack_modes (attack_mode_manager (sim_of ls')))
          \<and> mgr_get_power_kw (attack_mode_manager (sim_of ls')) 0 = 200
          \<and> mgr_get_power_kw (attack_mode_manager (sim_of ls')) 1 = 200)"
proof -
  have m: "attack_mode_manager (sim_of example_loop_state)
     = attack_mode_manager (RaceSimulator_init 2 example_track 45 (1 / 2) (Some 42)
                              example_seeding (const_rng (1 / 2)))"
    by (simp add: example_loop_state_def example_sim_def initialize_cars_manager)
  from example_iteration obtain ls' where b: "loop_body example_loop_state = Inr ls'"
    by blast
  have "\<not> race_finished example_loop_state"
    by (simp add: example_loop_state_def)
  with b have r: "run_loop (Suc 0) example_loop_state = Inr ls'"
    by (simp add: bind_err_def)
  from attack_mode_never_activated [OF m r] m r show ?thesis
    by blast
qed

section \<open>The race loop returns\<close>

text \<open>On a simulator that is \<open>sim_ok\<close> no division and no lookup of an iteration
  fails, and the iteration leaves such a simulator again.\<close>

lemma car_kept_refl: "car_kept s s"
  by (simp add: car_kept_def)

lemma car_kept_trans: "car_kept s s' \<Longrightarrow> car_kept s' s'' \<Longrightarrow> car_kept s s''"
  by (auto simp: car_kept_def)

lemma cars_kept_refl: "cars_kept cs cs"
  by (simp add: cars_kept_def list_all2_refl car_kept_refl)

lemma cars_kept_trans: "cars_kept cs cs' \<Longrightarrow> cars_kept cs' cs'' \<Longrightarrow> cars_kept cs cs''"
  unfolding cars_kept_def
  using list_all2_trans
    [of "\<lambda>x y. fst y = fst x \<and> car_kept (snd x) (snd y)"
        "\<lambda>x y. fst y = fst x \<and> car_kept (snd x) (snd y)"
        "\<lambda>x y. fst y = fst x \<and> car_kept (snd x) (snd y)" cs cs' cs'']
  by (auto intro: car_kept_trans)

lemma cars_kept_keys: "cars_kept cs cs' \<Longrightarrow> map fst cs' = map fst cs"
  unfolding cars_kept_def by (induction rule: list_all2_induct) auto

lemma cars_kept_speeds: "cars_kept cs cs' \<Longrightarrow> speeds_positive cs \<Longrightarrow> speeds_positive cs'"
  unfolding cars_kept_def speeds_positive_def
  by (induction rule: list_all2_induct) (auto simp: car_kept_def)

lemma cars_kept_map_entry:
  "(\<And>s. car_kept s (f s)) \<Longrightarrow> cars_kept cs (AList.map_entry k f cs)"
  by (induction cs) (auto simp: cars_kept_def car_kept_refl list_all2_refl)

lemma cars_kept_map:
  "(\<And>k s. car_kept s (f k s)) \<Longrightarrow> cars_kept cs (map (\<lambda>(k, s). (k, f k s)) cs)"
  by (induction cs) (auto simp: cars_kept_def)

lemma cars_kept_crashes:
  "cars_kept cs (fold (\<lambda>crashed_id. AList.map_entry crashed_id (\<lambda>s. s\<lparr>is_active := False\<rparr>))
                   xs cs)"
proof (induction xs arbitrary: cs)
  case Nil
  show ?case by (simp add: cars_kept_refl)
next
  case (Cons x xs)
  have "cars_kept cs (AList.map_entry x (\<lambda>s. s\<lparr>is_active := False\<rparr>) cs)"
    by (rule cars_kept_map_entry) (simp add: car_kept_def)
  with Cons show ?case
    by (auto intro: cars_kept_trans)
qed

subsection \<open>Race events\<close>

lemma update_race_events_kept:
  "cars_kept (car_states sim) (car_states (update_race_events sim))"
  by (auto simp: update_race_events_def Let_def split_beta cars_kept_refl cars_kept_crashes
      split: option.splits)

lemma update_race_events_static: "static_of (update_race_events sim) = static_of sim"
  by (auto simp: update_race_events_def static_of_def Let_def split_beta split: option.splits)

lemma update_race_events_time:
  "rs_race_time (race_state (update_race_events sim)) = rs_race_time (race_state sim)"
  by (auto simp: update_race_events_def Let_def split_beta split: option.splits)

lemma update_race_events_flag:
  "rs_safety_car_active (race_state (update_race_events sim))
     = safety_car_active (race_events (update_race_events sim))"
  by (auto simp: update_race_events_def Let_def split_beta split: option.splits)

lemma update_race_events_checked: "last_lap_checked (update_race_events sim) \<noteq> None"
  by (auto simp: update_race_events_def Let_def split_beta split: option.splits)

lemma update_safety_car_inactive:
  "\<not> safety_car_active ev \<Longrightarrow> \<not> safety_car_active (snd (update_safety_car ev l))"
  by (simp add: update_safety_car_def)

lemma update_race_events_first:
  "last_lap_checked sim = None \<Longrightarrow> \<not> safety_car_active (race_events sim)
     \<Longrightarrow> \<not> safety_car_active (race_events (update_race_events sim))"
  by (simp add: update_race_events_def Let_def split_beta update_safety_car_def)

subsection \<open>Car update\<close>

lemma py_min_ext_positive:
  "0 < a \<Longrightarrow> (case sc of PInf \<Rightarrow> True | Fin c \<Rightarrow> 0 < c) \<Longrightarrow> 0 < py_min_ext a sc"
  by (cases sc) auto

lemma racing_speed_positive:
  assumes "mass < 9680"
  shows "(0::real) < 50 * (1 + (1 - mass / 880) * (1 / 10))"
proof -
  have "(1 - mass / 880) * (1 / 10) > - 1" using assms by simp
  then have "0 < 1 + (1 - mass / 880) * (1 / 10)" by linarith
  then show ?thesis by (simp only: zero_less_mult_iff) simp
qed

lemma car_speed_returns:
  assumes "stepsize (track sim) \<noteq> 0" and "no_points (track sim) \<noteq> 0"
    and "map_of (cars sim) cid = Some mass"
  shows "car_speed sim sc cid s =
           Inr (if rs_safety_car_active (race_state sim) then py_min_ext (speed s) sc
                else 50 * (1 + (1 - mass / 880) * (1 / 10)))"
  using assms by (simp add: car_speed_def bind_err_def py_div_def dict_get_def Let_def)

lemma update_energy_speed: "speed (update_energy sim cid s) = speed s"
  by (simp add: update_energy_def Let_def)

lemma update_car_returns:
  assumes wf: "track_length (track sim) \<noteq> 0" "stepsize (track sim) \<noteq> 0"
      "no_points (track sim) \<noteq> 0"
    and mass: "map_of (cars sim) cid = Some mass" "mass < 9680"
    and sc: "rs_safety_car_active (race_state sim)
               \<longrightarrow> (is_active s \<longrightarrow> 0 < speed s)
                   \<and> (case sc of PInf \<Rightarrow> True | Fin c \<Rightarrow> 0 < c)"
  shows "\<exists>s'. update_car sim sc cid s = Inr s' \<and> (is_active s' \<longrightarrow> 0 < speed s')"
proof (cases "is_active s")
  case False
  then show ?thesis by (simp add: update_car_def)
next
  case True
  let ?v = "if rs_safety_car_active (race_state sim) then py_min_ext (speed s) sc
            else 50 * (1 + (1 - mass / 880) * (1 / 10))"
  have v: "0 < ?v"
    using sc True racing_speed_positive [OF mass(2)] by (simp add: py_min_ext_positive)
  let ?d = "track_distance s + ?v * time_step sim"
  let ?td = "?d - track_length (track sim) * of_int \<lfloor>?d / track_length (track sim)\<rfloor>"
  have "update_car sim sc cid s =
          Inr (update_energy sim cid
                 (s\<lparr>speed := ?v, track_distance := ?td,
                    track_position_normalized := ?td / track_length (track sim)\<rparr>))"
    using True wf(1)
    by (simp add: update_car_def car_speed_returns [OF wf(2,3) mass(1)] bind_err_def
        py_fmod_def py_div_def)
  then obtain td tpn where
    "update_car sim sc cid s =
       Inr (update_energy sim cid
              (s\<lparr>speed := ?v, track_distance := td, track_position_normalized := tpn\<rparr>))"
    by blast
  with v show ?thesis
    by (simp add: update_energy_speed)
qed

lemma update_cars_loop_returns:
  assumes wf: "track_length (track sim) \<noteq> 0" "stepsize (track sim) \<noteq> 0"
      "no_points (track sim) \<noteq> 0"
    and sc: "rs_safety_car_active (race_state sim)
               \<longrightarrow> (case sc of PInf \<Rightarrow> True | Fin c \<Rightarrow> 0 < c)"
  shows "list_all (\<lambda>x. case map_of (cars sim) (fst x) of None \<Rightarrow> False
                       | Some mass \<Rightarrow> mass < 9680) cs
         \<Longrightarrow> (rs_safety_car_active (race_state sim) \<longrightarrow> speeds_positive cs)
         \<Longrightarrow> \<exists>cs'. update_cars_loop sim sc cs = Inr cs' \<and> speeds_positive cs'"
proof (induction cs)
  case Nil
  show ?case by (simp add: speeds_positive_def)
next
  case (Cons x cs)
  obtain cid s where x: "x = (cid, s)" by (cases x)
  from Cons.prems(1) obtain mass where
    mass: "map_of (cars sim) cid = Some mass" "mass < 9680"
    by (auto simp: x split: option.splits)
  have "rs_safety_car_active (race_state sim)
          \<longrightarrow> (is_active s \<longrightarrow> 0 < speed s) \<and> (case sc of PInf \<Rightarrow> True | Fin c \<Rightarrow> 0 < c)"
    using Cons.prems(2) sc by (simp add: x speeds_positive_def)
  from update_car_returns [OF wf mass this] obtain s' where
    s': "update_car sim sc cid s = Inr s'" "is_active s' \<longrightarrow> 0 < speed s'"
    by blast
  have "\<exists>cs'. update_cars_loop sim sc cs = Inr cs' \<and> speeds_positive cs'"
    using Cons.prems by (intro Cons.IH) (simp_all add: speeds_positive_def)
  then obtain cs' where cs': "update_cars_loop sim sc cs = Inr cs'" "speeds_positive cs'"
    by blast
  from s' cs' show ?case
    by (simp add: x bind_err_def speeds_positive_def)
qed

lemma update_cars_returns:
  assumes wf: "track_length (track sim) \<noteq> 0" "stepsize (track sim) \<noteq> 0"
      "no_points (track sim) \<noteq> 0"
    and masses: "list_all (\<lambda>x. case map_of (cars sim) (fst x) of None \<Rightarrow> False
                              | Some mass \<Rightarrow> mass < 9680) (car_states sim)"
    and sc: "rs_safety_car_active (race_state sim) \<longrightarrow> speeds_positive (car_states sim)"
  shows "\<exists>sim'. update_cars sim = Inr sim' \<and> speeds_positive (car_states sim')
                \<and> sim' = sim\<lparr>car_states := car_states sim'\<rparr>"
proof -
  have "rs_safety_car_active (race_state sim)
          \<longrightarrow> (case get_safety_car_speed (race_events sim) of PInf \<Rightarrow> True | Fin c \<Rightarrow> 0 < c)"
    by (simp add: get_safety_car_speed_def safety_car_speed_def)
  from update_cars_loop_returns [OF wf this masses sc] obtain cs' where
    "update_cars_loop sim (get_safety_car_speed (race_events sim)) (car_states sim) = Inr cs'"
    "speeds_positive cs'"
    by blast
  then show ?thesis
    by (simp add: update_cars_def bind_err_def Let_def)
qed

subsection \<open>Positions\<close>

lemma assign_positions_kept: "cars_kept cs (fst (assign_positions p xs (cs, ps)))"
proof (induction xs arbitrary: p cs ps)
  case Nil
  show ?case by (simp add: cars_kept_refl)
next
  case (Cons x xs)
  obtain cid s0 where x: "x = (cid, s0)" by (cases x)
  have "cars_kept cs (AList.map_entry cid (\<lambda>s. s\<lparr>position := p\<rparr>) cs)"
    by (rule cars_kept_map_entry) (simp add: car_kept_def)
  from cars_kept_trans [OF this Cons.IH] show ?case
    by (simp add: x)
qed

lemma calculate_gap_kept: "car_kept s (calculate_gap sim leader_state cid s)"
  by (simp add: calculate_gap_def car_kept_def Let_def)

lemma update_positions_returns:
  assumes "car_states sim \<noteq> []"
  shows "\<exists>sim'. update_positions sim = Inr sim'
           \<and> cars_kept (car_states sim) (car_states sim')
           \<and> static_of sim' = static_of sim
           \<and> rs_race_time (race_state sim') = rs_race_time (race_state sim)"
proof -
  let ?xs = "py_sorted_reverse sort_key_of (car_states sim)"
  let ?r = "assign_positions 1 ?xs (car_states sim, positions (race_state sim))"
  have m: "mset ?xs = mset (car_states sim)" by (rule mset_py_sorted_reverse)
  then have "set ?xs = set (car_states sim)" by (rule mset_eq_setD)
  with assms obtain x rest where xs: "?xs = x # rest" and x: "x \<in> set (car_states sim)"
    by (cases ?xs) auto
  let ?mid = "sim\<lparr>car_states := fst ?r,
                   race_state := (race_state sim)\<lparr>positions := snd ?r, leader_id := fst x\<rparr>\<rparr>"
  have up: "update_positions sim = calculate_gaps ?mid"
    by (simp add: update_positions_def Let_def split_beta xs)
  have "fst x \<in> set (map fst (fst ?r))"
    using x by (simp add: keys_assign_positions)
  then obtain ldr where ldr: "map_of (fst ?r) (fst x) = Some ldr"
    by (cases "map_of (fst ?r) (fst x)") (auto simp: map_of_eq_None_iff)
  let ?cs' = "map (\<lambda>(cid, s). (cid, calculate_gap ?mid ldr cid s)) (fst ?r)"
  have res: "update_positions sim = Inr (?mid\<lparr>car_states := ?cs'\<rparr>)"
    unfolding up by (simp add: calculate_gaps_def bind_err_def dict_get_def ldr)
  have "cars_kept (fst ?r) ?cs'"
    using cars_kept_map [of "\<lambda>k s. calculate_gap ?mid ldr k s", OF calculate_gap_kept] .
  with assign_positions_kept [of "car_states sim" 1 ?xs "positions (race_state sim)"]
  have "cars_kept (car_states sim) ?cs'"
    by (rule cars_kept_trans)
  with res show ?thesis
    by (simp add: static_of_def)
qed

subsection \<open>Overtaking\<close>

lemma attempt_overtake_returns:
  assumes "0 < va" and "vd \<noteq> 0"
  shows "\<exists>r. attempt_overtake om ai di va vd gap tp a b ts g = Inr r"
proof (cases "va * (36 / 10) - vd * (36 / 10) < 5")
  case True
  then show ?thesis by (simp add: attempt_overtake_def min_speed_diff_def Let_def)
next
  case False
  then have "0 < (va * (36 / 10) - vd * (36 / 10)) / (36 / 10) / 2" by simp
  with assms(1) have "va + (va * (36 / 10) - vd * (36 / 10)) / (36 / 10) / 2 \<noteq> 0"
    by linarith
  with assms(2) have "\<exists>tg. success_time_gain va vd (va * (36 / 10) - vd * (36 / 10)) = Inr tg"
    by (simp add: success_time_gain_def py_div_def Let_def)
  then obtain tg where tg: "success_time_gain va vd (va * (36 / 10) - vd * (36 / 10)) = Inr tg"
    by blast
  show ?thesis
    using False tg
    by (cases "g 0 < get_overtaking_success_probability (va * (36 / 10) - vd * (36 / 10)) a b")
      (simp_all add: attempt_overtake_def min_speed_diff_def Let_def np_random_def)
qed

lemma swap_positions_kept: "swap_positions a d cs = Inr cs' \<Longrightarrow> cars_kept cs cs'"
proof -
  assume "swap_positions a d cs = Inr cs'"
  then obtain pa pd where
    cs': "cs' = AList.map_entry d (\<lambda>s. s\<lparr>position := pa\<rparr>)
                  (AList.map_entry a (\<lambda>s. s\<lparr>position := pd\<rparr>) cs)"
    by (auto simp: swap_positions_def bind_err_Inr Let_def)
  have "cars_kept cs (AList.map_entry a (\<lambda>s. s\<lparr>position := pd\<rparr>) cs)"
    by (rule cars_kept_map_entry) (simp add: car_kept_def)
  moreover have "cars_kept (AList.map_entry a (\<lambda>s. s\<lparr>position := pd\<rparr>) cs) cs'"
    unfolding cs' by (rule cars_kept_map_entry) (simp add: car_kept_def)
  ultimately show ?thesis by (rule cars_kept_trans)
qed

lemma swap_positions_returns:
  assumes "a \<in> fst ` set cs" and "d \<in> fst ` set cs"
  shows "\<exists>cs'. swap_positions a d cs = Inr cs'"
proof -
  from assms obtain sa sd where "map_of cs a = Some sa" "map_of cs d = Some sd"
    by (metis map_of_eq_None_iff not_None_eq)
  then show ?thesis
    by (simp add: swap_positions_def bind_err_def dict_get_def Let_def)
qed

lemma overtake_pair_returns:
  assumes "0 < speed (snd d)" and "fst a \<in> fst ` set cs" and "fst d \<in> fst ` set cs"
  shows "\<exists>cs' om' g'. overtake_pair mgr now d a (cs, om, g) = Inr (cs', om', g')
           \<and> cars_kept cs cs'"
proof -
  let ?gap = "if speed (snd a) > 0
              then (track_distance (snd d) - track_distance (snd a)) / speed (snd a)
              else 999"
  show ?thesis
  proof (cases "0 < ?gap \<and> ?gap < 2")
    case False
    then show ?thesis
      by (auto simp: overtake_pair_def Let_def cars_kept_refl)
  next
    case True
    then have pos: "0 < speed (snd a)" by (auto split: if_splits)
    from assms(1) have "speed (snd d) \<noteq> 0" by simp
    from attempt_overtake_returns [OF pos this] obtain r om' g' where
      att: "attempt_overtake om (fst a) (fst d) (speed (snd a)) (speed (snd d)) ?gap
              (track_position_normalized (snd a)) (mgr_is_active mgr (fst a))
              (mgr_is_active mgr (fst d)) now g = Inr (r, om', g')"
      by (metis prod_cases3)
    from swap_positions_returns [OF assms(2,3)] obtain cs' where
      sw: "swap_positions (fst a) (fst d) cs = Inr cs'"
      by blast
    have pair: "overtake_pair mgr now d a (cs, om, g)
                = (if res_success r then Inr (cs', om', g') else Inr (cs, om', g'))"
      using True att sw by (simp add: overtake_pair_def Let_def bind_err_def)
    show ?thesis
      using pair swap_positions_kept [OF sw] by (auto simp: cars_kept_refl)
  qed
qed

lemma overtaking_loop_returns:
  "\<forall>x \<in> set xs. 0 < speed (snd x) \<and> fst x \<in> fst ` set (fst acc)
     \<Longrightarrow> \<exists>acc'. overtaking_loop mgr now xs acc = Inr acc' \<and> cars_kept (fst acc) (fst acc')"
proof (induction mgr now xs acc rule: overtaking_loop.induct)
  case (1 mgr now defender attacker rest acc)
  obtain cs om g where acc: "acc = (cs, om, g)" by (cases acc)
  from "1.prems" have "0 < speed (snd defender)" "fst attacker \<in> fst ` set cs"
    "fst defender \<in> fst ` set cs"
    by (simp_all add: acc)
  from overtake_pair_returns [OF this, of mgr now om g] obtain cs1 om1 g1 where
    p: "overtake_pair mgr now defender attacker acc = Inr (cs1, om1, g1)" and
    k: "cars_kept cs cs1"
    by (auto simp: acc)
  from cars_kept_keys [OF k] have "fst ` set cs1 = fst ` set cs"
    by (metis set_map)
  with "1.prems" have "\<forall>x \<in> set (attacker # rest).
      0 < speed (snd x) \<and> fst x \<in> fst ` set (fst (cs1, om1, g1))"
    by (simp add: acc)
  from "1.IH" [OF this] obtain acc' where
    r: "overtaking_loop mgr now (attacker # rest) (cs1, om1, g1) = Inr acc'" and
    k': "cars_kept cs1 (fst acc')"
    by auto
  from p r cars_kept_trans [OF k k'] show ?case
    by (simp add: bind_err_def acc)
qed (simp_all add: cars_kept_refl)

lemma check_overtaking_returns:
  assumes "speeds_positive (car_states sim)"
  shows "\<exists>sim'. check_overtaking sim = Inr sim'
           \<and> cars_kept (car_states sim) (car_states sim')
           \<and> static_of sim' = static_of sim
           \<and> rs_race_time (race_state sim') = rs_race_time (race_state sim)"
proof -
  let ?xs = "py_sorted_reverse sort_key_of (filter (\<lambda>(cid, s). is_active s) (car_states sim))"
  have "set ?xs = set (filter (\<lambda>(cid, s). is_active s) (car_states sim))"
    using mset_py_sorted_reverse by (rule mset_eq_setD)
  then have "\<forall>x \<in> set ?xs. 0 < speed (snd x)
               \<and> fst x \<in> fst ` set (fst (car_states sim, overtaking sim, generator sim))"
    using assms by (auto simp: speeds_positive_def list_all_iff)
  from overtaking_loop_returns [OF this, of "attack_mode_manager sim" "rs_race_time (race_state sim)"]
  obtain acc' where
    "overtaking_loop (attack_mode_manager sim) (rs_race_time (race_state sim)) ?xs
       (car_states sim, overtaking sim, generator sim) = Inr acc'"
    "cars_kept (car_states sim) (fst acc')"
    unfolding fst_conv by blast
  then show ?thesis
    by (cases acc') (simp add: check_overtaking_def Let_def bind_err_def static_of_def)
qed

subsection \<open>Laps, and the iteration\<close>

lemma lap_completion_loop_kept: "cars_kept cs (fst (lap_completion_loop dt cs cur))"
proof (induction cs arbitrary: cur)
  case Nil
  show ?case by (simp add: cars_kept_def)
next
  case (Cons x cs)
  obtain cid s where x: "x = (cid, s)" by (cases x)
  have "car_kept s (fst (complete_lap dt s cur))"
    by (simp add: complete_lap_def car_kept_def Let_def)
  with Cons [of "snd (complete_lap dt s cur)"] show ?case
    by (simp add: x cars_kept_def split_beta)
qed

lemma static_of_parts:
  "static_of a = static_of b \<Longrightarrow>
     track_length (track a) = track_length (track b) \<and> stepsize (track a) = stepsize (track b)
     \<and> no_points (track a) = no_points (track b) \<and> cars a = cars b
     \<and> time_step a = time_step b \<and> race_duration_minutes a = race_duration_minutes b"
  by (simp add: static_of_def)

lemma keys_pred:
  "map fst cs' = map fst cs \<Longrightarrow> list_all (\<lambda>x. Q (fst x)) cs' = list_all (\<lambda>x. Q (fst x)) cs"
proof -
  assume "map fst cs' = map fst cs"
  then have "list_all Q (map fst cs') = list_all Q (map fst cs)" by simp
  then show ?thesis by (simp add: list.pred_map comp_def)
qed

lemma after_overtaking:
  "cars_kept (car_states sim)
     (car_states (let sim6 = update_attack_modes sim;
                      sim7 = check_lap_completion sim6
                  in if py_int (rs_race_time (race_state sim7)) mod 5 = 0
                     then store_history sim7 else sim7))
   \<and> static_of (let sim6 = update_attack_modes sim;
                      sim7 = check_lap_completion sim6
                  in if py_int (rs_race_time (race_state sim7)) mod 5 = 0
                     then store_history sim7 else sim7) = static_of sim
   \<and> rs_race_time (race_state (let sim6 = update_attack_modes sim;
                      sim7 = check_lap_completion sim6
                  in if py_int (rs_race_time (race_state sim7)) mod 5 = 0
                     then store_history sim7 else sim7)) = rs_race_time (race_state sim)"
  using lap_completion_loop_kept [of "car_states sim" "time_step sim" "current_lap (race_state sim)"]
  by (simp add: Let_def update_attack_modes_def check_lap_completion_def store_history_def
      split_beta static_of_def)

lemma iteration_start_facts:
  "cars_kept (car_states (sim_of ls)) (car_states (iteration_start ls))
   \<and> static_of (iteration_start ls) = static_of (sim_of ls)
   \<and> rs_race_time (race_state (iteration_start ls))
       = rs_race_time (race_state (sim_of ls)) + time_step (sim_of ls)
   \<and> rs_safety_car_active (race_state (iteration_start ls))
       = safety_car_active (race_events (iteration_start ls))
   \<and> (last_lap_checked (sim_of ls) = None \<and> \<not> safety_car_active (race_events (sim_of ls))
        \<longrightarrow> \<not> safety_car_active (race_events (iteration_start ls)))"
proof -
  let ?sim1 = "(sim_of ls)\<lparr>race_state := (race_state (sim_of ls))\<lparr>rs_race_time :=
                 rs_race_time (race_state (sim_of ls)) + time_step (sim_of ls)\<rparr>\<rparr>"
  have it: "iteration_start ls = update_race_events ?sim1"
    by (simp add: iteration_start_def Let_def)
  show ?thesis
    unfolding it
    using update_race_events_kept [of ?sim1] update_race_events_static [of ?sim1]
      update_race_events_time [of ?sim1] update_race_events_flag [of ?sim1]
      update_race_events_first [of ?sim1]
    by (simp add: static_of_def)
qed

lemma loop_body_returns:
  assumes ok: "sim_ok (sim_of ls)"
  shows "\<exists>ls'. loop_body ls = Inr ls' \<and> sim_ok (sim_of ls')
           \<and> static_of (sim_of ls') = static_of (sim_of ls)
           \<and> rs_race_time (race_state (sim_of ls'))
               = rs_race_time (race_state (sim_of ls)) + time_step (sim_of ls)
           \<and> race_finished ls'
               = (if rs_race_time (race_state (sim_of ls)) + time_step (sim_of ls)
                       \<ge> race_duration_minutes (sim_of ls) * 60 \<and> leader_finished ls
                  then True else race_finished ls)
           \<and> leader_finished ls'
               = (if rs_race_time (race_state (sim_of ls)) + time_step (sim_of ls)
                       \<ge> race_duration_minutes (sim_of ls) * 60 \<and> \<not> leader_finished ls
                  then True else leader_finished ls)"
proof -
  let ?sim2 = "iteration_start ls"
  let ?Q = "\<lambda>k. case map_of (cars (sim_of ls)) k of None \<Rightarrow> False | Some mass \<Rightarrow> mass < 9680"
  note st = iteration_start_facts [of ls]
  from st have k2: "cars_kept (car_states (sim_of ls)) (car_states ?sim2)"
    and s2: "static_of ?sim2 = static_of (sim_of ls)"
    and t2: "rs_race_time (race_state ?sim2)
             = rs_race_time (race_state (sim_of ls)) + time_step (sim_of ls)"
    by simp_all
  note p2 = static_of_parts [OF s2]
  from ok have wf: "track_length (track (sim_of ls)) \<noteq> 0" "stepsize (track (sim_of ls)) \<noteq> 0"
    "no_points (track (sim_of ls)) \<noteq> 0" and ne: "car_states (sim_of ls) \<noteq> []"
    and masses: "list_all (\<lambda>x. ?Q (fst x)) (car_states (sim_of ls))"
    by (simp_all add: sim_ok_def)
  have wf2: "track_length (track ?sim2) \<noteq> 0" "stepsize (track ?sim2) \<noteq> 0"
    "no_points (track ?sim2) \<noteq> 0"
    using wf p2 by simp_all
  have m2: "list_all (\<lambda>x. case map_of (cars ?sim2) (fst x) of None \<Rightarrow> False
                           | Some mass \<Rightarrow> mass < 9680) (car_states ?sim2)"
    using masses keys_pred [OF cars_kept_keys [OF k2], of ?Q] p2 by simp
  have sc2: "rs_safety_car_active (race_state ?sim2) \<longrightarrow> speeds_positive (car_states ?sim2)"
  proof
    assume a: "rs_safety_car_active (race_state ?sim2)"
    with st have "\<not> (last_lap_checked (sim_of ls) = None
                      \<and> \<not> safety_car_active (race_events (sim_of ls)))"
      by blast
    with ok have "speeds_positive (car_states (sim_of ls))"
      by (auto simp: sim_ok_def)
    with k2 show "speeds_positive (car_states ?sim2)" by (rule cars_kept_speeds)
  qed
  from update_cars_returns [OF wf2 m2 sc2] obtain sim3 where
    u3: "update_cars ?sim2 = Inr sim3" and sp3: "speeds_positive (car_states sim3)"
    and e3: "sim3 = ?sim2\<lparr>car_states := car_states sim3\<rparr>"
    by blast
  have k3: "map fst (car_states sim3) = map fst (car_states ?sim2)"
    using cars_step_keys [OF update_cars_step [OF u3]] .
  have s3: "static_of sim3 = static_of ?sim2"
    by (subst e3) (simp add: static_of_def)
  have t3: "rs_race_time (race_state sim3) = rs_race_time (race_state ?sim2)"
    by (subst e3) simp
  have ne3: "car_states sim3 \<noteq> []"
    using k3 cars_kept_keys [OF k2] ne by (metis map_is_Nil_conv)
  from update_positions_returns [OF ne3] obtain sim4 where
    u4: "update_positions sim3 = Inr sim4"
    and k4: "cars_kept (car_states sim3) (car_states sim4)"
    and s4: "static_of sim4 = static_of sim3"
    and t4: "rs_race_time (race_state sim4) = rs_race_time (race_state sim3)"
    by blast
  from check_overtaking_returns [OF cars_kept_speeds [OF k4 sp3]] obtain sim5 where
    u5: "check_overtaking sim4 = Inr sim5"
    and k5: "cars_kept (car_states sim4) (car_states sim5)"
    and s5: "static_of sim5 = static_of sim4"
    and t5: "rs_race_time (race_state sim5) = rs_race_time (race_state sim4)"
    by blast
  define sim8 where "sim8 = (let sim6 = update_attack_modes sim5;
                      sim7 = check_lap_completion sim6
                  in if py_int (rs_race_time (race_state sim7)) mod 5 = 0
                     then store_history sim7 else sim7)"
  from after_overtaking [of sim5] have
    k8: "cars_kept (car_states sim5) (car_states sim8)"
    and s8: "static_of sim8 = static_of sim5"
    and t8: "rs_race_time (race_state sim8) = rs_race_time (race_state sim5)"
    by (simp_all add: sim8_def)
  define rf where "rf = (if rs_race_time (race_state (sim_of ls)) + time_step (sim_of ls)
                       \<ge> race_duration_minutes (sim_of ls) * 60 \<and> leader_finished ls
                  then True else race_finished ls)"
  define lf where "lf = (if rs_race_time (race_state (sim_of ls)) + time_step (sim_of ls)
                       \<ge> race_duration_minutes (sim_of ls) * 60 \<and> \<not> leader_finished ls
                  then True else leader_finished ls)"
  have body: "loop_body ls = Inr \<lparr>sim_of = sim8, race_finished = rf, leader_finished = lf\<rparr>"
    using u3 u4 u5
    by (simp add: loop_body_def Let_def bind_err_def sim8_def rf_def lf_def)
  have s: "static_of sim8 = static_of (sim_of ls)"
    using s8 s5 s4 s3 s2 by simp
  note p = static_of_parts [OF s]
  have t: "rs_race_time (race_state sim8)
           = rs_race_time (race_state (sim_of ls)) + time_step (sim_of ls)"
    using t8 t5 t4 t3 t2 by simp
  have k45: "cars_kept (car_states sim3) (car_states sim8)"
    using cars_kept_trans [OF k4 cars_kept_trans [OF k5 k8]] .
  have keys: "map fst (car_states sim8) = map fst (car_states (sim_of ls))"
    using cars_kept_keys [OF k45] k3 cars_kept_keys [OF k2] by simp
  have sp8: "speeds_positive (car_states sim8)"
    using cars_kept_speeds [OF k45 sp3] .
  have ne8: "car_states sim8 \<noteq> []"
    using keys ne by (metis map_is_Nil_conv)
  have m8: "list_all (\<lambda>x. case map_of (cars sim8) (fst x) of None \<Rightarrow> False
                           | Some mass \<Rightarrow> mass < 9680) (car_states sim8)"
    using masses keys_pred [OF keys, of ?Q] p by simp
  have "sim_ok sim8"
    using wf p ne8 m8 sp8 by (simp add: sim_ok_def)
  with body s t show ?thesis
    by (simp add: rf_def lf_def)
qed

subsection \<open>The loop ends\<close>

lemma run_loop_finishes:
  "sim_ok (sim_of ls) \<Longrightarrow> time_step (sim_of ls) = dt
     \<Longrightarrow> race_duration_minutes (sim_of ls) * 60 = mx \<Longrightarrow> 0 < dt
     \<Longrightarrow> race_finished ls
         \<or> (leader_finished ls \<and> 1 \<le> fuel
              \<and> mx \<le> rs_race_time (race_state (sim_of ls)) + real fuel * dt)
         \<or> (2 \<le> fuel \<and> mx \<le> rs_race_time (race_state (sim_of ls)) + real (fuel - 1) * dt)
     \<Longrightarrow> \<exists>ls'. run_loop fuel ls = Inr ls' \<and> race_finished ls'"
proof (induction fuel arbitrary: ls)
  case 0
  then show ?case by simp
next
  case (Suc n)
  show ?case
  proof (cases "race_finished ls")
    case True
    then show ?thesis by simp
  next
    case False
    let ?T = "rs_race_time (race_state (sim_of ls))"
    from loop_body_returns [OF Suc.prems(1)] obtain ls1 where
      body: "loop_body ls = Inr ls1" and ok1: "sim_ok (sim_of ls1)"
      and s1: "static_of (sim_of ls1) = static_of (sim_of ls)"
      and t1: "rs_race_time (race_state (sim_of ls1)) = ?T + dt"
      and rf1: "race_finished ls1 = (if ?T + dt \<ge> mx \<and> leader_finished ls
                                     then True else race_finished ls)"
      and lf1: "leader_finished ls1 = (if ?T + dt \<ge> mx \<and> \<not> leader_finished ls
                                       then True else leader_finished ls)"
      using Suc.prems(2,3) by auto
    from static_of_parts [OF s1] Suc.prems(2,3) have
      dt1: "time_step (sim_of ls1) = dt" and mx1: "race_duration_minutes (sim_of ls1) * 60 = mx"
      by simp_all
    have pos: "0 \<le> real n * dt" using Suc.prems(4) by simp
    have suc: "real (Suc n) * dt = real n * dt + dt" by (simp add: algebra_simps)
    from Suc.prems(5) False have
      disj: "(leader_finished ls \<and> mx \<le> ?T + real (Suc n) * dt)
             \<or> (1 \<le> n \<and> mx \<le> ?T + real n * dt)"
      by auto
    have cond: "race_finished ls1
         \<or> (leader_finished ls1 \<and> 1 \<le> n
              \<and> mx \<le> rs_race_time (race_state (sim_of ls1)) + real n * dt)
         \<or> (2 \<le> n \<and> mx \<le> rs_race_time (race_state (sim_of ls1)) + real (n - 1) * dt)"
    proof (cases "?T + dt \<ge> mx")
      case True
      show ?thesis
      proof (cases "leader_finished ls")
        case True
        with \<open>?T + dt \<ge> mx\<close> rf1 show ?thesis by simp
      next
        case False
        with disj have "1 \<le> n" by simp
        moreover from False True lf1 have "leader_finished ls1" by simp
        moreover from True pos have "mx \<le> ?T + dt + real n * dt" by linarith
        ultimately show ?thesis by (simp add: t1)
      qed
    next
      case late: False
      have n0: "n \<noteq> 0"
      proof
        assume "n = 0"
        with disj late show False by simp
      qed
      show ?thesis
      proof (cases "leader_finished ls")
        case True
        with late lf1 have "leader_finished ls1" by simp
        moreover from n0 have "1 \<le> n" by simp
        moreover have "mx \<le> ?T + dt + real n * dt"
          using disj suc pos Suc.prems(4) by linarith
        ultimately show ?thesis by (simp add: t1)
      next
        case False
        with disj have le: "mx \<le> ?T + real n * dt" and "1 \<le> n" by simp_all
        have "n \<noteq> 1"
        proof
          assume "n = 1"
          with le late show False by simp
        qed
        with \<open>1 \<le> n\<close> have "2 \<le> n" by simp
        moreover have "real (n - 1) * dt = real n * dt - dt"
          using \<open>1 \<le> n\<close> by (simp add: of_nat_diff algebra_simps)
        with le have "mx \<le> ?T + dt + real (n - 1) * dt" by simp
        ultimately show ?thesis by (simp add: t1)
      qed
    qed
    from Suc.IH [OF ok1 dt1 mx1 Suc.prems(4) cond] obtain ls' where
      "run_loop n ls1 = Inr ls'" "race_finished ls'"
      by blast
    with body False show ?thesis
      by (simp add: bind_err_def)
  qed
qed

subsection \<open>The simulator before the loop\<close>

lemma rng_ok_tail: "rng_ok g \<Longrightarrow> rng_ok (rng_tail g)"
  by (simp add: rng_ok_def rng_tail_def)

lemma create_attack_modes_rng:
  "rng_ok g \<Longrightarrow> \<forall>x. rng_ok (seeded x)
     \<Longrightarrow> rng_ok (snd (create_attack_modes cids zs ze random_seed seeded g acc))"
proof (induction cids arbitrary: g acc)
  case Nil
  then show ?case by simp
next
  case (Cons cid cids)
  have "rng_ok (snd (AttackMode_init cid zs ze 200 random_seed seeded g))"
    using Cons.prems
    by (cases random_seed) (simp_all add: AttackMode_init_def np_uniform_def Let_def rng_ok_tail)
  from Cons.IH [OF this Cons.prems(2)] show ?case
    by (simp add: split_beta)
qed

lemma constructor_rng:
  "\<forall>x. rng_ok (seeded x)
     \<Longrightarrow> rng_ok (generator (RaceSimulator_init n trk dur dt (Some sd) seeded g))"
  by (simp add: RaceSimulator_init_def AttackModeManager_init_def Let_def split_beta
      create_attack_modes_rng)

lemma initialize_cars_loop_facts:
  assumes "0 < m" and "m \<le> 9000"
  shows "rng_ok (generator sim)
     \<Longrightarrow> list_all (\<lambda>k. case map_of (cars sim) k of None \<Rightarrow> False | Some mass \<Rightarrow> mass < 9680) ks
     \<Longrightarrow> list_all (\<lambda>k. case map_of (cars (initialize_cars_loop cids m sim)) k of
                         None \<Rightarrow> False | Some mass \<Rightarrow> mass < 9680) (ks @ cids)
         \<and> static_of (initialize_cars_loop cids m sim)
             = (track_length (track sim), stepsize (track sim), no_points (track sim),
                cars (initialize_cars_loop cids m sim), time_step sim, race_duration_minutes sim)
         \<and> last_lap_checked (initialize_cars_loop cids m sim) = last_lap_checked sim
         \<and> race_events (initialize_cars_loop cids m sim) = race_events sim
         \<and> race_state (initialize_cars_loop cids m sim) = race_state sim"
proof (induction cids arbitrary: sim ks)
  case Nil
  then show ?case by (simp add: static_of_def)
next
  case (Cons cid cids)
  let ?u = "generator sim 0"
  let ?mass = "m * (98 / 100 + (102 / 100 - 98 / 100) * ?u)"
  let ?sim1 = "sim\<lparr>cars := AList.update cid ?mass (cars sim),
                   car_states := AList.update cid (initial_car_state cid) (car_states sim),
                   generator := rng_tail (rng_tail (generator sim))\<rparr>"
  have step: "initialize_cars_loop (cid # cids) m sim = initialize_cars_loop cids m ?sim1"
    by (simp add: np_uniform_def Let_def)
  from Cons.prems(1) have u: "0 \<le> ?u" "?u < 1" by (simp_all add: rng_ok_def)
  then have "98 / 100 + (102 / 100 - 98 / 100) * ?u \<le> 102 / 100"
    and "0 \<le> 98 / 100 + (102 / 100 - 98 / 100) * ?u"
    by simp_all
  with assms have "?mass \<le> 9000 * (102 / 100)"
    by (intro mult_mono) simp_all
  then have mass: "?mass < 9680" by simp
  have g1: "rng_ok (generator ?sim1)"
    using Cons.prems(1) by (simp add: rng_ok_tail)
  have "list_all (\<lambda>k. case map_of (cars ?sim1) k of None \<Rightarrow> False | Some mass \<Rightarrow> mass < 9680)
          (ks @ [cid])"
    using Cons.prems(2) mass
    by (auto simp: list_all_iff update_conv' split: option.splits)
  from Cons.IH [OF g1 this] show ?case
    unfolding step by simp
qed

lemma initialize_cars_ok:
  assumes "1 \<le> n" and "track_length trk \<noteq> 0" and "stepsize trk \<noteq> 0" and "no_points trk \<noteq> 0"
    and "0 < m" and "m \<le> 9000" and "\<forall>x. rng_ok (seeded x)"
  shows "sim_ok (initialize_cars m (RaceSimulator_init n trk dur dt (Some sd) seeded g))
         \<and> time_step (initialize_cars m (RaceSimulator_init n trk dur dt (Some sd) seeded g)) = dt
         \<and> race_duration_minutes
              (initialize_cars m (RaceSimulator_init n trk dur dt (Some sd) seeded g)) = dur
         \<and> rs_race_time (race_state
              (initialize_cars m (RaceSimulator_init n trk dur dt (Some sd) seeded g))) = 0"
proof -
  let ?S = "RaceSimulator_init n trk dur dt (Some sd) seeded g"
  let ?I = "initialize_cars m ?S"
  have S: "num_cars ?S = n" "track ?S = trk" "time_step ?S = dt" "race_duration_minutes ?S = dur"
    "last_lap_checked ?S = None" "\<not> safety_car_active (race_events ?S)"
    "rs_race_time (race_state ?S) = 0"
    by (simp_all add: RaceSimulator_init_def Let_def split_beta RaceEvents_init_def)
  have I: "?I = initialize_cars_loop [0..n - 1] m ?S"
    by (simp add: initialize_cars_def S)
  note f = initialize_cars_loop_facts [OF assms(5,6) constructor_rng [OF assms(7)],
      of n trk dur dt sd g "[]" "[0..n - 1]", folded I, simplified]
  have keys: "map fst (car_states ?I) = [0..n - 1]"
    by (rule initial_keys)
  from assms(1) have "[0..n - 1] \<noteq> []" by (simp add: upto.simps)
  with keys have ne: "car_states ?I \<noteq> []" by auto
  have "list_all (\<lambda>k. case map_of (cars ?I) k of None \<Rightarrow> False | Some mass \<Rightarrow> mass < 9680)
          (map fst (car_states ?I))"
    using f keys by simp
  then have masses: "list_all (\<lambda>x. case map_of (cars ?I) (fst x) of None \<Rightarrow> False
                                  | Some mass \<Rightarrow> mass < 9680) (car_states ?I)"
    by (simp add: list.pred_map comp_def)
  from f have parts: "track_length (track ?I) = track_length trk" "stepsize (track ?I) = stepsize trk"
    "no_points (track ?I) = no_points trk" "time_step ?I = dt" "race_duration_minutes ?I = dur"
    by (simp_all add: static_of_def S)
  from f have rest: "last_lap_checked ?I = None" "\<not> safety_car_active (race_events ?I)"
    "rs_race_time (race_state ?I) = 0"
    by (simp_all add: S)
  show ?thesis
    using assms(2-4) parts ne masses rest by (simp add: sim_ok_def)
qed

subsection \<open>The whole run\<close>

lemma seeded_constructor:
  "RaceSimulator_init n trk dur dt (Some sd) seeded g
     = RaceSimulator_init n trk dur dt (Some sd) seeded g'"
  by (simp add: RaceSimulator_init_def)

lemma run_after_seeded_constructor:
  assumes "1 \<le> n" and "track_length trk \<noteq> 0" and "stepsize trk \<noteq> 0" and "no_points trk \<noteq> 0"
    and "0 < dt" and "0 < m" and "m \<le> 9000" and "\<forall>x. rng_ok (seeded x)"
    and "2 \<le> fuel" and "dur * 60 \<le> real (fuel - 1) * dt"
  shows "\<exists>res gen. run_race m fuel (RaceSimulator_init n trk dur dt (Some sd) seeded g)
                      (generator (RaceSimulator_init n trk dur dt (Some sd) seeded g))
                    = Some (Inr (res, gen))"
proof -
  let ?S = "RaceSimulator_init n trk dur dt (Some sd) seeded g"
  let ?ls = "\<lparr>sim_of = initialize_cars m ?S, race_finished = False, leader_finished = False\<rparr>"
  note i = initialize_cars_ok [OF assms(1-4,6-8), of dur dt sd g]
  have "\<exists>ls'. run_loop fuel ?ls = Inr ls' \<and> race_finished ls'"
    by (rule run_loop_finishes [where dt = dt and mx = "dur * 60"])
      (use i assms(5,9,10) in simp_all)
  then obtain ls' where "run_loop fuel ?ls = Inr ls'" "race_finished ls'" by blast
  moreover have "?S\<lparr>generator := generator ?S\<rparr> = ?S" by simp
  ultimately show ?thesis
    by (simp add: run_race_def Let_def)
qed

section \<open>Seeds and reproducibility\<close>

lemma list_rng_head: "list_rng (x # xs) d 0 = x"
  by (simp add: list_rng_def)

lemma rng_tail_list_rng: "rng_tail (list_rng (x # xs) d) = list_rng xs d"
  by (auto simp: rng_tail_def list_rng_def fun_eq_iff)

text \<open>
  C9 (as the code has it). With an integer seed the constructor reseeds numpy's global
  generator, so a simulation run directly after its own construction starts from a
  generator state fixed by the configuration and the seed. On a track with a length, a
  step size and points, with at least one car, a positive time step, a vehicle mass in
  (0, 9000] kg and samples in [0, 1), such a run raises nothing and ends: after at most
  \<open>fuel\<close> iterations, when \<open>fuel - 1\<close> time steps cover the race duration. It returns
  results, and the results and the generator state it leaves are the same whatever the
  state of the generator before the construction. In particular the script that
  constructs and runs one simulator and then constructs and runs a second one returns
  twice the same results: final standings, times, laps, event log, position history
  and statistics.
\<close>

theorem seeded_run_is_reproducible:
  "1 \<le> n \<and> track_length trk \<noteq> 0 \<and> stepsize trk \<noteq> 0 \<and> no_points trk \<noteq> 0
     \<and> 0 < dt \<and> 0 < m \<and> m \<le> 9000 \<and> (\<forall>x. rng_ok (seeded x))
     \<and> 2 \<le> fuel \<and> dur * 60 \<le> real (fuel - 1) * dt
   \<longrightarrow> (\<exists>res gen.
          (\<forall>g. run_race m fuel (RaceSimulator_init n trk dur dt (Some sd) seeded g)
                 (generator (RaceSimulator_init n trk dur dt (Some sd) seeded g))
               = Some (Inr (res, gen)))
          \<and> (\<forall>g. construct_and_run_twice m fuel n trk dur dt (Some sd) seeded g
                 = Some (res, res)))"
proof
  assume a: "1 \<le> n \<and> track_length trk \<noteq> 0 \<and> stepsize trk \<noteq> 0 \<and> no_points trk \<noteq> 0
     \<and> 0 < dt \<and> 0 < m \<and> m \<le> 9000 \<and> (\<forall>x. rng_ok (seeded x))
     \<and> 2 \<le> fuel \<and> dur * 60 \<le> real (fuel - 1) * dt"
  let ?S = "RaceSimulator_init n trk dur dt (Some sd) seeded"
  from a have c: "1 \<le> n" "track_length trk \<noteq> 0" "stepsize trk \<noteq> 0" "no_points trk \<noteq> 0"
    "0 < dt" "0 < m" "m \<le> 9000" "\<forall>x. rng_ok (seeded x)" "2 \<le> fuel"
    "dur * 60 \<le> real (fuel - 1) * dt"
    by blast+
  from run_after_seeded_constructor [OF c] obtain res gen where
    r: "run_race m fuel (?S (\<lambda>i. 0)) (generator (?S (\<lambda>i. 0))) = Some (Inr (res, gen))"
    by blast
  have all: "run_race m fuel (?S g) (generator (?S g)) = Some (Inr (res, gen))" for g
    using r seeded_constructor [of n trk dur dt sd seeded g "\<lambda>i. 0"] by simp
  then have "construct_and_run_twice m fuel n trk dur dt (Some sd) seeded g = Some (res, res)" for g
    by (simp add: construct_and_run_twice_def Let_def)
  with all show "\<exists>res gen.
          (\<forall>g. run_race m fuel (?S g) (generator (?S g)) = Some (Inr (res, gen)))
          \<and> (\<forall>g. construct_and_run_twice m fuel n trk dur dt (Some sd) seeded g
                 = Some (res, res))"
    by blast
qed

theorem seeded_run_is_reproducible_witness:
  "\<exists>res gen.
     (\<forall>g. run_race 880 5401 (RaceSimulator_init 2 example_track 45 (1 / 2) (Some 42) example_seeding g)
            (generator (RaceSimulator_init 2 example_track 45 (1 / 2) (Some 42) example_seeding g))
          = Some (Inr (res, gen)))
     \<and> (\<forall>g. construct_and_run_twice 880 5401 2 example_track 45 (1 / 2) (Some 42) example_seeding g
            = Some (res, res))"
  using seeded_run_is_reproducible [of 2 example_track "1 / 2" 880 example_seeding 5401 45 42]
  by (simp add: example_track_def example_seeding_def const_rng_def rng_ok_def)

text \<open>Where the claim fails: two simulators of two cars are constructed with seed 42 and
  the same configuration (a race of zero minutes, which is the two iterations of the
  extra-lap rule), and then run one after the other. The second run draws its skill
  factors from where the first run left the global generator, and under a generator
  whose samples are not all equal the two runs end with different standings and
  position histories.\<close>

theorem seeded_run_is_reproducible_counterexample:
  "construct_two_then_run 880 2 2 example_track 0 (1 / 2) (Some 42) replay_seeding
     (const_rng (1 / 2))
   = Some
      (\<lparr>final_positions = [(0, 1), (1, 2)], final_times = [(0, 0), (1, 0)],
        laps_completed = [(0, 0), (1, 0)], res_event_log = [],
        res_position_history = [(0, [(1 / 2, 1)]), (1, [(1 / 2, 2)])],
        overtaking_stats =
          \<lparr>total_attempts = 0, successful_overtakes = 0, success_rate = 0,
           avg_speed_differential = 0\<rparr>,
        race_events_summary =
          \<lparr>sum_total_safety_cars = 0, sum_total_crashes = 0, sum_crashed_cars = {},
           sum_weather_dry = True, sum_mu_weather = 1, sum_track_temperature = 25,
           sum_event_count = 0\<rparr>\<rparr>,
       \<lparr>final_positions = [(1, 1), (0, 2)], final_times = [(1, 0), (0, 0)],
        laps_completed = [(1, 0), (0, 0)], res_event_log = [],
        res_position_history = [(0, [(1 / 2, 2)]), (1, [(1 / 2, 1)])],
        overtaking_stats =
          \<lparr>total_attempts = 0, successful_overtakes = 0, success_rate = 0,
           avg_speed_differential = 0\<rparr>,
        race_events_summary =
          \<lparr>sum_total_safety_cars = 0, sum_total_crashes = 0, sum_crashed_cars = {},
           sum_weather_dry = True, sum_mu_weather = 1, sum_track_temperature = 25,
           sum_event_count = 0\<rparr>\<rparr>)"
  unfolding construct_two_then_run_def run_race_def
    initialize_cars_def RaceSimulator_init_def AttackModeManager_init_def
  by (simp add: upto.simps Let_def AttackMode_init_def np_uniform_def replay_seeding_def
      rng_tail_list_rng list_rng_head example_track_def loop_eval compile_results_def
      attempt_overtake_def min_speed_diff_def mgr_is_active_def slipstream_distance_def
      get_overtaking_statistics_def get_event_summary_def get_events_log_def numeral_2_eq_2)

end
